(* ===== verification/Relay_Prelude.thy ===== *)
theory Relay_Prelude
  imports
    Main
    "HOL-Library.AList"
    "HOL-Library.Word"
    "HOL-Library.Multiset"
    "HOL-Library.Sublist"
    "HOL-Library.Char_ord"
begin

text \<open>
  Shared vocabulary of the development: Go error values and fallible results, Go maps as
  association lists, and the generic list and map facts the component theories use.

  A Go \<^verbatim>\<open>error\<close> is represented by what the client observes of it: its text, and whether
  \<^verbatim>\<open>errors.Is(err, os.ErrNotExist)\<close> holds. A function that returns \<^verbatim>\<open>(T, error)\<close> returns
  \<open>'a res\<close>, a function that returns only \<^verbatim>\<open>error\<close> returns \<open>go_error option\<close>, with
  \<open>None\<close> for \<^verbatim>\<open>nil\<close>.

  A Go \<^verbatim>\<open>map[string]T\<close> is an association list with distinct keys. Its list order stands for
  the order in which a \<^verbatim>\<open>range\<close> loop happens to visit the map, which Go leaves open: every
  statement quantifies over all lists, so over all orders. A nil map and an empty map are
  both the empty list, which no operation of the client tells apart.
\<close>

named_theorems relay_simps
  \<open>rewrite rules that unfold the accessors and small helpers of the model\<close>

subsection \<open>Errors and fallible results\<close>

datatype go_error = Err string | NotExist string

fun err_text :: "go_error \<Rightarrow> string" where
  "err_text (Err m) = m"
| "err_text (NotExist m) = m"

fun is_not_exist :: "go_error \<Rightarrow> bool" where
  "is_not_exist (Err _) = False"
| "is_not_exist (NotExist _) = True"

text \<open>\<^verbatim>\<open>fmt.Errorf("<prefix>%w", err)\<close>: wrapping keeps what \<^verbatim>\<open>errors.Is\<close> sees.\<close>

fun wrap_err :: "string \<Rightarrow> go_error \<Rightarrow> go_error" where
  "wrap_err p (Err m) = Err (p @ m)"
| "wrap_err p (NotExist m) = NotExist (p @ m)"

type_synonym 'a res = "go_error + 'a"

text \<open>
  An operation that can fail and works on a state maps the state to a result and the state
  afterwards; \<open>and_then\<close> is the sequence \<^verbatim>\<open>x, err := op(); if err != nil { return err }\<close>.
\<close>

fun and_then :: "'a res \<times> 's \<Rightarrow> ('a \<Rightarrow> 's \<Rightarrow> 'b res \<times> 's) \<Rightarrow> 'b res \<times> 's" where
  "and_then (Inl e, s) k = (Inl e, s)"
| "and_then (Inr x, s) k = k x s"

definition done_ok :: "'s \<Rightarrow> unit res \<times> 's" where
  "done_ok s = (Inr (), s)"

text \<open>\<^verbatim>\<open>if err := op(); err != nil { return wrap(err) }\<close>\<close>

fun or_wrap :: "(go_error \<Rightarrow> go_error) \<Rightarrow> 'a res \<times> 's \<Rightarrow> 'a res \<times> 's" where
  "or_wrap w (Inl e, s) = (Inl (w e), s)"
| "or_wrap w (Inr x, s) = (Inr x, s)"

fun_cases and_then_InrE: "and_then m k = (Inr y, s)"
fun_cases or_wrap_InrE: "or_wrap w m = (Inr y, s)"

lemma and_then_Inr: "and_then m k = (Inr y, s') \<longleftrightarrow> (\<exists>x s. m = (Inr x, s) \<and> k x s = (Inr y, s'))"
  by (auto elim: and_then_InrE)

lemma or_wrap_Inr [simp]: "or_wrap w m = (Inr y, s) \<longleftrightarrow> m = (Inr y, s)"
  by (auto elim: or_wrap_InrE)

lemma err_text_wrap [simp]: "err_text (wrap_err p e) = p @ err_text e"
  by (cases e) simp_all

lemma is_not_exist_wrap [simp]: "is_not_exist (wrap_err p e) = is_not_exist e"
  by (cases e) simp_all

subsection \<open>Go maps\<close>

type_synonym 'v gomap = "(string \<times> 'v) list"

definition gomap_ok :: "'v gomap \<Rightarrow> bool" where
  "gomap_ok m = distinct (map fst m)"

text \<open>\<^verbatim>\<open>m[k]\<close> on a \<^verbatim>\<open>map[string]string\<close>: the zero value when the key is absent.\<close>

definition gomap_get :: "string gomap \<Rightarrow> string \<Rightarrow> string" where
  "gomap_get m k = (case map_of m k of Some v \<Rightarrow> v | None \<Rightarrow> [])"

definition gomap_has :: "'v gomap \<Rightarrow> string \<Rightarrow> bool" where
  "gomap_has m k = (map_of m k \<noteq> None)"

lemma gomap_ok_Nil [simp]: "gomap_ok []"
  by (simp add: gomap_ok_def)

lemma gomap_ok_update [intro]: "gomap_ok m \<Longrightarrow> gomap_ok (AList.update k v m)"
  by (simp add: gomap_ok_def distinct_update)

lemma gomap_ok_delete [intro]: "gomap_ok m \<Longrightarrow> gomap_ok (AList.delete k m)"
  by (simp add: gomap_ok_def distinct_delete)

lemma gomap_ok_filter [intro]: "gomap_ok m \<Longrightarrow> gomap_ok (filter P m)"
  by (auto simp: gomap_ok_def distinct_map intro: inj_on_subset)

lemma gomap_has_iff: "gomap_has m k \<longleftrightarrow> k \<in> fst ` set m"
  by (auto simp: gomap_has_def map_of_eq_None_iff)

lemma map_of_delete_other: "k \<noteq> l \<Longrightarrow> map_of (AList.delete k m) l = map_of m l"
  by (simp add: delete_conv')

lemma map_of_delete_same [simp]: "map_of (AList.delete k m) k = None"
  by (simp add: delete_conv')

lemma map_of_filter_key:
  "gomap_ok m \<Longrightarrow> map_of (filter P m) k =
     (case map_of m k of Some v \<Rightarrow> (if P (k, v) then Some v else None) | None \<Rightarrow> None)"
proof (induction m)
  case Nil
  then show ?case by simp
next
  case (Cons kv m)
  obtain k' v where kv: "kv = (k', v)" by fastforce
  from Cons.prems have ok: "gomap_ok m" and fresh: "k' \<notin> fst ` set m"
    by (auto simp: gomap_ok_def kv)
  from fresh have "map_of m k' = None" by (simp add: map_of_eq_None_iff)
  with Cons.IH [OF ok] show ?case by (auto simp: kv)
qed

lemma length_delete_mem:
  "gomap_ok m \<Longrightarrow> k \<in> fst ` set m \<Longrightarrow> length (AList.delete k m) = length m - 1"
proof (induction m)
  case Nil
  then show ?case by simp
next
  case (Cons kv m)
  obtain k' v where kv: "kv = (k', v)" by fastforce
  from Cons.prems have ok: "gomap_ok m" and fresh: "k' \<notin> fst ` set m"
    by (auto simp: gomap_ok_def kv)
  show ?case
  proof (cases "k = k'")
    case True
    with fresh have "k \<notin> fst ` set m" by simp
    then have "AList.delete k m = m" by (simp add: delete_idem)
    with True show ?thesis by (simp add: kv)
  next
    case False
    with Cons.prems have "k \<in> fst ` set m" by (auto simp: kv)
    moreover from this have "m \<noteq> []" by auto
    ultimately show ?thesis using Cons.IH [OF ok] False by (cases m) (simp_all add: kv)
  qed
qed

lemma length_update_le: "length (AList.update k v m) \<le> Suc (length m)"
  by (induction m) auto

subsection \<open>Lists\<close>

lemma mset_concat_map_append:
  "mset (concat (map (\<lambda>x. f x @ g x) xs)) = mset (concat (map f xs)) + mset (concat (map g xs))"
  by (induction xs) auto

lemma concat_map_list_update:
  "i < length xs \<Longrightarrow> mset (concat (map f (xs[i := y]))) + mset (f (xs ! i)) =
     mset (concat (map f xs)) + mset (f y)"
proof (induction xs arbitrary: i)
  case Nil
  then show ?case by simp
next
  case (Cons x xs)
  then show ?case by (cases i) (auto simp: ac_simps)
qed

end
