(* ===== verification/Go_Strings.thy ===== *)
theory Go_Strings
  imports Relay_Prelude
begin

text \<open>
  The part of Go's \<^verbatim>\<open>strings\<close>, \<^verbatim>\<open>strconv\<close> and \<^verbatim>\<open>unicode/utf8\<close> the client calls. A Go string is
  a sequence of bytes, and HOL's \<open>char\<close> is a byte, so a Go string is a \<open>string\<close>; \<^verbatim>\<open>len\<close> is
  \<open>length\<close>.

  \<open>trim_space\<close> is exact: it removes every white-space rune of \<^verbatim>\<open>unicode.IsSpace\<close>, in its UTF-8
  encoding, from both ends. \<open>go_lower\<close> and \<open>go_upper\<close> are exact on ASCII and on each rune whose
  other case is an ASCII letter (U+212A and U+0130 below, U+017F and U+0131 above), so every
  comparison of their result with an ASCII constant is the code's; other non-ASCII letters
  are passed through. \<open>fold_match\<close> is the simple case folding of \<^verbatim>\<open>strings.EqualFold\<close> and of the
  regular-expression flag \<^verbatim>\<open>(?i)\<close> against an ASCII literal.
\<close>

subsection \<open>Prefixes, suffixes, searching\<close>

fun has_prefix :: "string \<Rightarrow> string \<Rightarrow> bool" where
  "has_prefix s [] = True"
| "has_prefix [] (d # p) = False"
| "has_prefix (c # s) (d # p) = (c = d \<and> has_prefix s p)"

definition has_suffix :: "string \<Rightarrow> string \<Rightarrow> bool" where
  "has_suffix s p = has_prefix (rev s) (rev p)"

fun contains_str :: "string \<Rightarrow> string \<Rightarrow> bool" where
  "contains_str [] sub = (sub = [])"
| "contains_str (c # s) sub = (has_prefix (c # s) sub \<or> contains_str s sub)"

lemma has_prefix_iff: "has_prefix s p \<longleftrightarrow> (\<exists>t. s = p @ t)"
  by (induction s p rule: has_prefix.induct) auto

lemma has_prefix_append [simp]: "has_prefix (p @ t) p"
  by (auto simp: has_prefix_iff)

lemma has_prefix_drop: "has_prefix s p \<Longrightarrow> s = p @ drop (length p) s"
  by (auto simp: has_prefix_iff)

lemma has_prefix_mono: "has_prefix s p \<Longrightarrow> has_prefix (s @ t) p"
  by (auto simp: has_prefix_iff)

lemma has_suffix_iff: "has_suffix s p \<longleftrightarrow> (\<exists>t. s = t @ p)"
proof -
  have "has_suffix s p \<longleftrightarrow> (\<exists>t. rev s = rev p @ t)"
    by (simp add: has_suffix_def has_prefix_iff)
  also have "\<dots> \<longleftrightarrow> (\<exists>t. s = t @ p)"
    by (metis rev_append rev_rev_ident)
  finally show ?thesis .
qed

lemma contains_str_iff: "contains_str s sub \<longleftrightarrow> (\<exists>a b. s = a @ sub @ b)"
proof (induction s)
  case Nil
  then show ?case by simp
next
  case (Cons c s)
  have "(\<exists>a b. c # s = a @ sub @ b) \<longleftrightarrow> (\<exists>b. c # s = sub @ b) \<or> (\<exists>a b. s = a @ sub @ b)"
    (is "?l \<longleftrightarrow> ?r")
  proof
    assume ?l
    then obtain a b where "c # s = a @ sub @ b" by blast
    then show ?r by (cases a) auto
  next
    assume ?r
    then show ?l by (metis append_Cons append_Nil)
  qed
  with Cons.IH show ?case by (simp add: has_prefix_iff)
qed

fun index_byte :: "string \<Rightarrow> char \<Rightarrow> nat option" where
  "index_byte [] d = None"
| "index_byte (c # s) d = (if c = d then Some 0 else map_option Suc (index_byte s d))"

definition last_index_byte :: "string \<Rightarrow> char \<Rightarrow> nat option" where
  "last_index_byte s d = map_option (\<lambda>i. length s - 1 - i) (index_byte (rev s) d)"

text \<open>\<^verbatim>\<open>strings.Cut(s, sep)\<close> for a one-byte separator: before, after, found.\<close>

fun cut_byte :: "char \<Rightarrow> string \<Rightarrow> string \<times> string \<times> bool" where
  "cut_byte d [] = ([], [], False)"
| "cut_byte d (c # s) =
     (if c = d then ([], s, True)
      else (case cut_byte d s of (a, b, f) \<Rightarrow> (c # a, b, f)))"

text \<open>\<^verbatim>\<open>strings.Split(s, sep)\<close> for a one-byte separator: never empty.\<close>

fun split_byte :: "char \<Rightarrow> string \<Rightarrow> string list" where
  "split_byte d [] = [[]]"
| "split_byte d (c # s) =
     (if c = d then [] # split_byte d s
      else (case split_byte d s of [] \<Rightarrow> [[c]] | p # ps \<Rightarrow> (c # p) # ps))"

fun join_str :: "string \<Rightarrow> string list \<Rightarrow> string" where
  "join_str sep [] = []"
| "join_str sep [x] = x"
| "join_str sep (x # y # ys) = x @ sep @ join_str sep (y # ys)"

lemma split_byte_nonempty [simp]: "split_byte d s \<noteq> []"
  by (induction s) (auto split: list.splits)

lemma split_byte_none: "d \<notin> set s \<Longrightarrow> split_byte d s = [s]"
  by (induction s) auto

lemma split_byte_append_sep: "d \<notin> set p \<Longrightarrow> split_byte d (p @ d # s) = p # split_byte d s"
  by (induction p) auto

lemma join_split: "join_str [d] (split_byte d s) = s"
proof (induction s)
  case Nil
  then show ?case by simp
next
  case (Cons c s)
  obtain p ps where ps: "split_byte d s = p # ps"
    by (cases "split_byte d s") auto
  show ?case
    using Cons.IH ps by (cases ps) auto
qed

lemma split_byte_parts: "p \<in> set (split_byte d s) \<Longrightarrow> d \<notin> set p"
proof (induction s arbitrary: p)
  case Nil
  then show ?case by simp
next
  case (Cons c s)
  obtain q qs where qs: "split_byte d s = q # qs"
    by (cases "split_byte d s") auto
  with Cons show ?case by (fastforce split: if_splits)
qed

lemma cut_byte_found:
  "cut_byte d s = (a, b, True) \<Longrightarrow> s = a @ d # b \<and> d \<notin> set a"
  by (induction s arbitrary: a) (auto split: if_splits prod.splits)

lemma cut_byte_not_found: "cut_byte d s = (a, b, False) \<Longrightarrow> a = s \<and> b = [] \<and> d \<notin> set s"
  by (induction s arbitrary: a) (auto split: if_splits prod.splits)

subsection \<open>White space\<close>

definition ascii_space :: "char list" where
  "ascii_space = [CHR 0x09, CHR 0x0A, CHR 0x0B, CHR 0x0C, CHR 0x0D, CHR '' '']"

text \<open>The UTF-8 encodings of the runes of \<^verbatim>\<open>unicode.IsSpace\<close>.\<close>

definition space_runes :: "string list" where
  "space_runes = map (\<lambda>c. [c]) ascii_space @
     [[CHR 0xC2, CHR 0x85], [CHR 0xC2, CHR 0xA0], [CHR 0xE1, CHR 0x9A, CHR 0x80],
      [CHR 0xE2, CHR 0x80, CHR 0x80], [CHR 0xE2, CHR 0x80, CHR 0x81],
      [CHR 0xE2, CHR 0x80, CHR 0x82], [CHR 0xE2, CHR 0x80, CHR 0x83],
      [CHR 0xE2, CHR 0x80, CHR 0x84], [CHR 0xE2, CHR 0x80, CHR 0x85],
      [CHR 0xE2, CHR 0x80, CHR 0x86], [CHR 0xE2, CHR 0x80, CHR 0x87],
      [CHR 0xE2, CHR 0x80, CHR 0x88], [CHR 0xE2, CHR 0x80, CHR 0x89],
      [CHR 0xE2, CHR 0x80, CHR 0x8A], [CHR 0xE2, CHR 0x80, CHR 0xA8],
      [CHR 0xE2, CHR 0x80, CHR 0xA9], [CHR 0xE2, CHR 0x80, CHR 0xAF],
      [CHR 0xE2, CHR 0x81, CHR 0x9F], [CHR 0xE3, CHR 0x80, CHR 0x80]]"

function strip_any :: "string list \<Rightarrow> string \<Rightarrow> string" where
  "strip_any ps s =
     (case find (\<lambda>p. p \<noteq> [] \<and> has_prefix s p) ps of
        None \<Rightarrow> s
      | Some p \<Rightarrow> strip_any ps (drop (length p) s))"
  by pat_completeness auto
termination
proof (relation "measure (\<lambda>(ps, s). length s)", goal_cases)
  case 1
  then show ?case by simp
next
  case (2 ps s p)
  then have "p \<noteq> []" and "has_prefix s p" by (auto simp: find_Some_iff)
  then show ?case by (auto simp: has_prefix_iff)
qed

declare strip_any.simps [simp del]

definition trim_space :: "string \<Rightarrow> string" where
  "trim_space s =
     rev (strip_any (map rev space_runes) (rev (strip_any space_runes s)))"

lemma strip_any_stop: "(\<And>p. p \<in> set ps \<Longrightarrow> p \<noteq> [] \<Longrightarrow> \<not> has_prefix s p) \<Longrightarrow> strip_any ps s = s"
proof -
  assume a: "\<And>p. p \<in> set ps \<Longrightarrow> p \<noteq> [] \<Longrightarrow> \<not> has_prefix s p"
  then have "find (\<lambda>p. p \<noteq> [] \<and> has_prefix s p) ps = None"
    by (auto simp: find_None_iff)
  then show ?thesis by (subst strip_any.simps) simp
qed

lemma strip_any_no_prefix:
  "p \<in> set ps \<Longrightarrow> p \<noteq> [] \<Longrightarrow> \<not> has_prefix (strip_any ps s) p"
proof (induction ps s rule: strip_any.induct)
  case (1 ps s)
  show ?case
  proof (cases "find (\<lambda>p. p \<noteq> [] \<and> has_prefix s p) ps")
    case None
    then have "strip_any ps s = s" by (subst strip_any.simps) simp
    with None "1.prems" show ?thesis by (auto simp: find_None_iff)
  next
    case (Some q)
    then have "strip_any ps s = strip_any ps (drop (length q) s)"
      by (subst strip_any.simps) simp
    with "1.IH" [OF Some "1.prems"] show ?thesis by simp
  qed
qed

lemma strip_any_suffix: "\<exists>t. s = t @ strip_any ps s"
proof (induction ps s rule: strip_any.induct)
  case (1 ps s)
  show ?case
  proof (cases "find (\<lambda>p. p \<noteq> [] \<and> has_prefix s p) ps")
    case None
    then show ?thesis by (subst strip_any.simps) simp
  next
    case (Some q)
    then have q: "has_prefix s q" by (auto simp: find_Some_iff)
    from "1.IH" [OF Some] obtain t where "drop (length q) s = t @ strip_any ps (drop (length q) s)"
      by blast
    with q have "s = (q @ t) @ strip_any ps (drop (length q) s)"
      using has_prefix_drop by fastforce
    moreover from Some have "strip_any ps s = strip_any ps (drop (length q) s)"
      by (subst strip_any.simps) simp
    ultimately show ?thesis by metis
  qed
qed

lemma strip_any_idem [simp]: "strip_any ps (strip_any ps s) = strip_any ps s"
  by (rule strip_any_stop) (rule strip_any_no_prefix)

lemma trim_space_idem [simp]: "trim_space (trim_space s) = trim_space s"
proof -
  let ?l = "strip_any space_runes s"
  let ?r = "strip_any (map rev space_runes) (rev ?l)"
  obtain t where "rev ?l = t @ ?r" using strip_any_suffix by blast
  then have l: "?l = rev ?r @ rev t" by (metis rev_append rev_rev_ident)
  have "strip_any space_runes (rev ?r) = rev ?r"
  proof (rule strip_any_stop)
    fix p assume p: "p \<in> set space_runes" "p \<noteq> []"
    then have "\<not> has_prefix ?l p" by (rule strip_any_no_prefix)
    then show "\<not> has_prefix (rev ?r) p" using has_prefix_mono l by metis
  qed
  then show ?thesis by (simp add: trim_space_def)
qed

text \<open>A string whose first and last byte are ASCII and not white space is left alone.\<close>

definition plain_char :: "char \<Rightarrow> bool" where
  "plain_char c = (of_char c < (128::nat) \<and> c \<notin> set ascii_space)"

lemma plain_char_no_space_prefix:
  "p \<in> set space_runes \<Longrightarrow> plain_char c \<Longrightarrow> \<not> has_prefix (c # s) p"
  by (auto simp: space_runes_def plain_char_def ascii_space_def)

lemma plain_char_no_space_suffix:
  "p \<in> set (map rev space_runes) \<Longrightarrow> plain_char c \<Longrightarrow> \<not> has_prefix (c # s) p"
  by (auto simp: space_runes_def plain_char_def ascii_space_def)

lemma trim_space_plain_ends:
  assumes "s \<noteq> []" and "plain_char (hd s)" and "plain_char (last s)"
  shows "trim_space s = s"
proof -
  have l: "strip_any space_runes s = s"
  proof (rule strip_any_stop)
    fix p assume "p \<in> set space_runes"
    with assms plain_char_no_space_prefix show "\<not> has_prefix s p"
      by (metis list.collapse)
  qed
  have "strip_any (map rev space_runes) (rev s) = rev s"
  proof (rule strip_any_stop)
    fix p assume "p \<in> set (map rev space_runes)"
    moreover have "rev s = last s # rev (butlast s)"
      using assms(1) by (metis append_butlast_last_id rev_eq_Cons_iff rev_rev_ident)
    ultimately show "\<not> has_prefix (rev s) p"
      using assms plain_char_no_space_suffix by metis
  qed
  with l show ?thesis by (simp add: trim_space_def)
qed

lemma trim_space_Nil [simp]: "trim_space [] = []"
proof -
  have "strip_any ps [] = []" for ps
    by (rule strip_any_stop) (auto simp: has_prefix_iff)
  then show ?thesis by (simp add: trim_space_def)
qed

lemma trim_space_sublist: "\<exists>a b. s = a @ trim_space s @ b"
proof -
  obtain t where t: "s = t @ strip_any space_runes s" using strip_any_suffix by blast
  obtain u where "rev (strip_any space_runes s) =
      u @ strip_any (map rev space_runes) (rev (strip_any space_runes s))"
    using strip_any_suffix by blast
  then have "strip_any space_runes s = trim_space s @ rev u"
    unfolding trim_space_def by (metis rev_append rev_rev_ident)
  with t show ?thesis by metis
qed

lemma set_trim_space: "set (trim_space s) \<subseteq> set s"
  using trim_space_sublist [of s] by (metis Un_upper1 set_append sup.coboundedI2)

text \<open>A byte that no white-space rune contains survives trimming.\<close>

definition space_bytes :: "char list" where
  "space_bytes = concat space_runes"

lemma strip_any_keeps:
  "c \<in> set s \<Longrightarrow> (\<And>p. p \<in> set ps \<Longrightarrow> c \<notin> set p) \<Longrightarrow> c \<in> set (strip_any ps s)"
proof (induction ps s rule: strip_any.induct)
  case (1 ps s)
  show ?case
  proof (cases "find (\<lambda>p. p \<noteq> [] \<and> has_prefix s p) ps")
    case None
    then have "strip_any ps s = s" by (subst strip_any.simps) simp
    with "1.prems" show ?thesis by simp
  next
    case (Some q)
    then have q: "q \<in> set ps" "has_prefix s q" by (auto simp: find_Some_iff)
    then obtain t where t: "s = q @ t" by (auto simp: has_prefix_iff)
    with q "1.prems" have "c \<in> set (drop (length q) s)" by auto
    with "1.IH" [OF Some _ "1.prems"(2)] Some show ?thesis
      by (subst strip_any.simps) simp
  qed
qed

lemma trim_space_keeps:
  assumes "c \<in> set s" "c \<notin> set space_bytes"
  shows "c \<in> set (trim_space s)"
proof -
  have n: "c \<notin> set p" if "p \<in> set space_runes" for p
    using that assms(2) by (auto simp: space_bytes_def)
  have "c \<in> set (strip_any space_runes s)"
    using assms(1) n by (rule strip_any_keeps)
  moreover have "c \<notin> set p" if "p \<in> set (map rev space_runes)" for p
    using that n by auto
  ultimately have "c \<in> set (strip_any (map rev space_runes) (rev (strip_any space_runes s)))"
    by (intro strip_any_keeps) simp_all
  then show ?thesis by (simp add: trim_space_def)
qed

lemma trim_space_empty_bytes: "trim_space s = [] \<Longrightarrow> set s \<subseteq> set space_bytes"
  using trim_space_keeps by fastforce

subsection \<open>Letter case\<close>

definition is_upper :: "char \<Rightarrow> bool" where
  "is_upper c = (CHR ''A'' \<le> c \<and> c \<le> CHR ''Z'')"

definition is_lower :: "char \<Rightarrow> bool" where
  "is_lower c = (CHR ''a'' \<le> c \<and> c \<le> CHR ''z'')"

definition is_digit :: "char \<Rightarrow> bool" where
  "is_digit c = (CHR ''0'' \<le> c \<and> c \<le> CHR ''9'')"

definition is_ascii :: "char \<Rightarrow> bool" where
  "is_ascii c = (of_char c < (128::nat))"

definition lower_byte :: "char \<Rightarrow> char" where
  "lower_byte c = (if is_upper c then char_of (of_char c + (32::nat)) else c)"

definition upper_byte :: "char \<Rightarrow> char" where
  "upper_byte c = (if is_lower c then char_of (of_char c - (32::nat)) else c)"

text \<open>U+212A (Kelvin sign), U+0130 (dotted I), U+017F (long s), U+0131 (dotless i).\<close>

definition kelvin_sign :: string where "kelvin_sign = [CHR 0xE2, CHR 0x84, CHR 0xAA]"
definition dotted_I :: string where "dotted_I = [CHR 0xC4, CHR 0xB0]"
definition long_s :: string where "long_s = [CHR 0xC5, CHR 0xBF]"
definition dotless_i :: string where "dotless_i = [CHR 0xC4, CHR 0xB1]"

fun go_lower :: "string \<Rightarrow> string" where
  "go_lower [] = []"
| "go_lower (c # s) =
     (if has_prefix (c # s) kelvin_sign then CHR ''k'' # go_lower (drop 2 s)
      else if has_prefix (c # s) dotted_I then CHR ''i'' # go_lower (drop 1 s)
      else lower_byte c # go_lower s)"

fun go_upper :: "string \<Rightarrow> string" where
  "go_upper [] = []"
| "go_upper (c # s) =
     (if has_prefix (c # s) long_s then CHR ''S'' # go_upper (drop 1 s)
      else if has_prefix (c # s) dotless_i then CHR ''I'' # go_upper (drop 1 s)
      else upper_byte c # go_upper s)"

lemma of_char_le_iff: "c \<le> d \<longleftrightarrow> of_char c \<le> (of_char d :: nat)"
  by (simp add: less_eq_char_def)

lemma lower_byte_ascii [simp]: "is_ascii (lower_byte c) = is_ascii c"
  by (auto simp: is_ascii_def lower_byte_def is_upper_def of_char_le_iff)

lemma lower_byte_idem [simp]: "lower_byte (lower_byte c) = lower_byte c"
  by (auto simp: lower_byte_def is_upper_def of_char_le_iff)

lemma lower_byte_not_upper: "\<not> is_upper (lower_byte c)"
  by (auto simp: lower_byte_def is_upper_def of_char_le_iff)

lemma lower_byte_id: "\<not> is_upper c \<Longrightarrow> lower_byte c = c"
  by (simp add: lower_byte_def)

lemma is_upper_ascii: "is_upper c \<Longrightarrow> is_ascii c"
  by (auto simp: is_ascii_def is_upper_def of_char_le_iff)

lemma go_lower_ascii: "(\<And>c. c \<in> set s \<Longrightarrow> is_ascii c) \<Longrightarrow> go_lower s = map lower_byte s"
proof (induction s)
  case Nil
  then show ?case by simp
next
  case (Cons c s)
  from Cons.prems have "is_ascii c" by simp
  then have "\<not> has_prefix (c # s) kelvin_sign" and "\<not> has_prefix (c # s) dotted_I"
    by (auto simp: kelvin_sign_def dotted_I_def is_ascii_def)
  with Cons show ?case by simp
qed

lemma go_lower_no_upper: "c \<in> set (go_lower s) \<Longrightarrow> \<not> is_upper c"
proof (induction s rule: go_lower.induct)
  case 1
  then show ?case by simp
next
  case (2 c s)
  have "\<not> is_upper (CHR ''k'')" and "\<not> is_upper (CHR ''i'')"
    by (simp_all add: is_upper_def of_char_le_iff)
  with 2 lower_byte_not_upper show ?case by (auto split: if_splits)
qed

lemma space_bytes_not_letter: "c \<in> set space_bytes \<Longrightarrow> \<not> is_upper c \<and> \<not> is_lower c \<and> \<not> is_digit c"
  by (auto simp: space_bytes_def space_runes_def ascii_space_def is_upper_def is_lower_def
      is_digit_def of_char_le_iff)

lemma go_lower_in_space_bytes:
  "set (go_lower s) \<subseteq> set space_bytes \<Longrightarrow> go_lower s = s"
proof (induction s rule: go_lower.induct)
  case 1
  then show ?case by simp
next
  case (2 c s)
  have nl: "CHR ''k'' \<notin> set space_bytes" "CHR ''i'' \<notin> set space_bytes"
    using space_bytes_not_letter [of "CHR ''k''"] space_bytes_not_letter [of "CHR ''i''"]
    by (auto simp: is_lower_def of_char_le_iff)
  from nl "2.prems" have np: "\<not> has_prefix (c # s) kelvin_sign" "\<not> has_prefix (c # s) dotted_I"
    by (auto split: if_splits)
  with "2.prems" have "lower_byte c \<in> set space_bytes" and sub: "set (go_lower s) \<subseteq> set space_bytes"
    by auto
  then have "lower_byte c = c"
    using space_bytes_not_letter [of "lower_byte c"]
    by (auto simp: lower_byte_def is_upper_def is_lower_def of_char_le_iff split: if_splits)
  with 2 np sub show ?case by simp
qed

text \<open>Lower-casing a trimmed key cannot make it blank.\<close>

lemma go_lower_trim_not_blank:
  assumes "go_lower (trim_space s) \<noteq> []"
  shows "trim_space (go_lower (trim_space s)) \<noteq> []"
proof
  assume "trim_space (go_lower (trim_space s)) = []"
  then have "go_lower (trim_space s) = trim_space s"
    by (intro go_lower_in_space_bytes trim_space_empty_bytes)
  with \<open>trim_space (go_lower (trim_space s)) = []\<close> assms show False by simp
qed

lemma not_blank_if: "c \<in> set s \<Longrightarrow> c \<notin> set space_bytes \<Longrightarrow> trim_space s \<noteq> []"
  using trim_space_keeps by fastforce

subsection \<open>Case folding\<close>

text \<open>
  One step of a comparison under simple case folding: the rune of the subject that matches
  the ASCII letter \<open>d\<close>, consumed. U+212A folds with k and U+017F with s.
\<close>

definition fold_step :: "char \<Rightarrow> string \<Rightarrow> string option" where
  "fold_step d s =
     (case s of
        [] \<Rightarrow> None
      | c # r \<Rightarrow>
          if lower_byte c = lower_byte d then Some r
          else if lower_byte d = CHR ''k'' \<and> has_prefix s kelvin_sign then Some (drop 3 s)
          else if lower_byte d = CHR ''s'' \<and> has_prefix s long_s then Some (drop 2 s)
          else None)"

fun fold_match :: "string \<Rightarrow> string \<Rightarrow> string option" where
  "fold_match [] s = Some s"
| "fold_match (d # ds) s =
     (case fold_step d s of None \<Rightarrow> None | Some r \<Rightarrow> fold_match ds r)"

definition equal_fold :: "string \<Rightarrow> string \<Rightarrow> bool" where
  "equal_fold s lit = (fold_match lit s = Some [])"

lemma fold_match_self: "fold_match d (d @ s) = Some s"
  by (induction d) (simp_all add: fold_step_def)

lemma equal_fold_refl [simp]: "equal_fold s s"
  using fold_match_self [of s "[]"] by (simp add: equal_fold_def)

lemma fold_match_suffix: "fold_match d s = Some r \<Longrightarrow> \<exists>t. s = t @ r \<and> length d \<le> length t"
proof (induction d arbitrary: s)
  case Nil
  then show ?case by simp
next
  case (Cons c d)
  then obtain u where u: "fold_step c s = Some u" and r: "fold_match d u = Some r"
    by (auto split: option.splits)
  from Cons.IH [OF r] obtain t where t: "u = t @ r" "length d \<le> length t" by blast
  from u obtain w where "s = w @ u" "1 \<le> length w"
    by (auto simp: fold_step_def has_prefix_iff kelvin_sign_def long_s_def split: list.splits if_splits)
  with t have "s = (w @ t) @ r \<and> length (c # d) \<le> length (w @ t)" by simp
  then show ?case by blast
qed

text \<open>A case-insensitive match looks only at what it consumes.\<close>

lemma fold_step_local:
  "fold_step d s = Some r \<Longrightarrow> \<exists>w. w \<noteq> [] \<and> s = w @ r \<and> (\<forall>r'. fold_step d (w @ r') = Some r')"
proof -
  assume a: "fold_step d s = Some r"
  then obtain c u where s: "s = c # u" by (auto simp: fold_step_def split: list.splits)
  consider "lower_byte c = lower_byte d" "r = u"
    | "lower_byte c \<noteq> lower_byte d" "lower_byte d = CHR ''k''" "has_prefix s kelvin_sign" "r = drop 3 s"
    | "lower_byte c \<noteq> lower_byte d" "lower_byte d = CHR ''s''" "has_prefix s long_s" "r = drop 2 s"
    using a by (auto simp: s fold_step_def split: if_splits)
  then show ?thesis
  proof cases
    case 1
    then have "[c] \<noteq> [] \<and> s = [c] @ r \<and> (\<forall>r'. fold_step d ([c] @ r') = Some r')"
      by (simp add: s fold_step_def)
    then show ?thesis by blast
  next
    case 2
    then obtain t where t: "s = kelvin_sign @ t" by (auto simp: has_prefix_iff)
    with 2(4) have "r = t" by (simp add: kelvin_sign_def)
    moreover from t s have "c = hd kelvin_sign" by (cases s) (auto simp: kelvin_sign_def)
    ultimately have "kelvin_sign \<noteq> [] \<and> s = kelvin_sign @ r \<and> (\<forall>r'. fold_step d (kelvin_sign @ r') = Some r')"
      using t 2(1,2) by (simp add: fold_step_def kelvin_sign_def)
    then show ?thesis by blast
  next
    case 3
    then obtain t where t: "s = long_s @ t" by (auto simp: has_prefix_iff)
    with 3(4) have "r = t" by (simp add: long_s_def)
    moreover from t s have "c = hd long_s" by (cases s) (auto simp: long_s_def)
    ultimately have "long_s \<noteq> [] \<and> s = long_s @ r \<and> (\<forall>r'. fold_step d (long_s @ r') = Some r')"
      using t 3(1,2) by (simp add: fold_step_def long_s_def)
    then show ?thesis by blast
  qed
qed

lemma fold_match_local:
  "fold_match d s = Some r \<Longrightarrow> \<exists>t. s = t @ r \<and> length d \<le> length t \<and> (\<forall>r'. fold_match d (t @ r') = Some r')"
proof (induction d arbitrary: s)
  case Nil
  then show ?case by simp
next
  case (Cons c d)
  then obtain u where u: "fold_step c s = Some u" and r: "fold_match d u = Some r"
    by (auto split: option.splits)
  from Cons.IH [OF r] obtain t where
    t: "u = t @ r" "length d \<le> length t" "\<forall>r'. fold_match d (t @ r') = Some r'" by blast
  from fold_step_local [OF u] obtain w where
    w: "w \<noteq> []" "s = w @ u" "\<forall>r'. fold_step c (w @ r') = Some r'" by blast
  have "s = (w @ t) @ r \<and> length (c # d) \<le> length (w @ t) \<and>
      (\<forall>r'. fold_match (c # d) ((w @ t) @ r') = Some r')"
    using t w by (cases w) auto
  then show ?case by blast
qed

text \<open>What a match consumes has no byte outside the literal, except the two folded signs.\<close>

lemma fold_step_bytes:
  "fold_step d s = Some r \<Longrightarrow> \<exists>w. s = w @ r \<and> (\<forall>c \<in> set w. is_ascii c \<longrightarrow> lower_byte c = lower_byte d)"
proof -
  assume a: "fold_step d s = Some r"
  then obtain c u where s: "s = c # u" by (cases s) (simp_all add: fold_step_def)
  consider "lower_byte c = lower_byte d" "r = u"
    | "has_prefix s kelvin_sign" "r = drop 3 s" | "has_prefix s long_s" "r = drop 2 s"
    using a unfolding s fold_step_def list.case by (metis option.distinct(1) option.inject)
  then show ?thesis
  proof cases
    case 1
    then have "s = [c] @ r \<and> (\<forall>c \<in> set [c]. is_ascii c \<longrightarrow> lower_byte c = lower_byte d)"
      by (simp add: s)
    then show ?thesis by blast
  next
    case 2
    have "\<forall>c \<in> set kelvin_sign. \<not> is_ascii c" by (simp add: kelvin_sign_def is_ascii_def)
    moreover from 2(1) obtain t where t: "s = kelvin_sign @ t" by (auto simp: has_prefix_iff)
    moreover from t 2(2) have "r = t" by (simp add: kelvin_sign_def)
    ultimately have "s = kelvin_sign @ r \<and> (\<forall>c \<in> set kelvin_sign. is_ascii c \<longrightarrow> lower_byte c = lower_byte d)"
      by blast
    then show ?thesis by blast
  next
    case 3
    have "\<forall>c \<in> set long_s. \<not> is_ascii c" by (simp add: long_s_def is_ascii_def)
    moreover from 3(1) obtain t where t: "s = long_s @ t" by (auto simp: has_prefix_iff)
    moreover from t 3(2) have "r = t" by (simp add: long_s_def)
    ultimately have "s = long_s @ r \<and> (\<forall>c \<in> set long_s. is_ascii c \<longrightarrow> lower_byte c = lower_byte d)"
      by blast
    then show ?thesis by blast
  qed
qed

lemma fold_match_bytes:
  "fold_match d s = Some r \<Longrightarrow>
     \<exists>t. s = t @ r \<and> (\<forall>c \<in> set t. is_ascii c \<longrightarrow> lower_byte c \<in> lower_byte ` set d)"
proof (induction d arbitrary: s)
  case Nil
  then show ?case by simp
next
  case (Cons e d)
  then obtain u where u: "fold_step e s = Some u" and r: "fold_match d u = Some r"
    by (auto split: option.splits)
  from Cons.IH [OF r] obtain t where
    t: "u = t @ r" "\<forall>c \<in> set t. is_ascii c \<longrightarrow> lower_byte c \<in> lower_byte ` set d" by blast
  from fold_step_bytes [OF u] obtain w where
    w: "s = w @ u" "\<forall>c \<in> set w. is_ascii c \<longrightarrow> lower_byte c = lower_byte e" by blast
  have "s = (w @ t) @ r \<and> (\<forall>c \<in> set (w @ t). is_ascii c \<longrightarrow> lower_byte c \<in> lower_byte ` set (e # d))"
    using t w by auto
  then show ?case by blast
qed

subsection \<open>Numbers and quoting\<close>

definition digit_char :: "nat \<Rightarrow> char" where
  "digit_char d = char_of (48 + d)"

fun nat_digits :: "nat \<Rightarrow> string" where
  "nat_digits n = (if n < 10 then [digit_char n] else nat_digits (n div 10) @ [digit_char (n mod 10)])"

declare nat_digits.simps [simp del]

text \<open>\<^verbatim>\<open>strconv.Itoa\<close> and the \<^verbatim>\<open>%d\<close> verb.\<close>

definition itoa :: "int \<Rightarrow> string" where
  "itoa i = (if i < 0 then CHR ''-'' # nat_digits (nat (- i)) else nat_digits (nat i))"

definition digit_val :: "char \<Rightarrow> nat" where
  "digit_val c = of_char c - 48"

definition digits_val :: "string \<Rightarrow> nat" where
  "digits_val s = foldl (\<lambda>n c. 10 * n + digit_val c) 0 s"

text \<open>
  \<^verbatim>\<open>strconv.Atoi\<close>: an optional sign, then decimal digits only; a value outside the 64-bit
  \<^verbatim>\<open>int\<close> is a range error.
\<close>

definition atoi :: "string \<Rightarrow> int option" where
  "atoi s =
     (let neg = has_prefix s ''-'';
          ds = (if neg \<or> has_prefix s ''+'' then drop 1 s else s);
          v = (if neg then - int (digits_val ds) else int (digits_val ds))
      in if ds = [] \<or> \<not> list_all is_digit ds then None
         else if v < - (2 ^ 63) \<or> 2 ^ 63 \<le> v then None
         else Some v)"

definition hex_digit :: "nat \<Rightarrow> char" where
  "hex_digit d = (if d < 10 then char_of (48 + d) else char_of (87 + d))"

text \<open>
  \<^verbatim>\<open>strconv.Quote\<close>, the \<^verbatim>\<open>%q\<close> verb: exact on ASCII; bytes above it are kept, as those of
  printable runes are.
\<close>

definition quote_byte :: "char \<Rightarrow> string" where
  "quote_byte c =
     (if c = CHR 0x22 \<or> c = CHR 0x5C then [CHR 0x5C, c]
      else if c = CHR 0x07 then [CHR 0x5C, CHR ''a'']
      else if c = CHR 0x08 then [CHR 0x5C, CHR ''b'']
      else if c = CHR 0x0C then [CHR 0x5C, CHR ''f'']
      else if c = CHR 0x0A then [CHR 0x5C, CHR ''n'']
      else if c = CHR 0x0D then [CHR 0x5C, CHR ''r'']
      else if c = CHR 0x09 then [CHR 0x5C, CHR ''t'']
      else if c = CHR 0x0B then [CHR 0x5C, CHR ''v'']
      else if of_char c < (32::nat) \<or> c = CHR 0x7F
        then [CHR 0x5C, CHR ''x'', hex_digit (of_char c div 16), hex_digit (of_char c mod 16)]
      else [c])"

definition go_quote :: "string \<Rightarrow> string" where
  "go_quote s = CHR 0x22 # concat (map quote_byte s) @ [CHR 0x22]"

lemma digit_char_val: "d < 10 \<Longrightarrow> digit_val (digit_char d) = d"
  by (simp add: digit_val_def digit_char_def)

lemma digit_char_digit: "d < 10 \<Longrightarrow> is_digit (digit_char d)"
  by (simp add: is_digit_def digit_char_def of_char_le_iff)

lemma nat_digits_all_digits: "list_all is_digit (nat_digits n)"
proof (induction n rule: nat_digits.induct)
  case (1 n)
  show ?case
  proof (cases "n < 10")
    case True
    then show ?thesis by (subst nat_digits.simps) (simp add: digit_char_digit)
  next
    case False
    with 1 show ?thesis by (subst nat_digits.simps) (simp add: digit_char_digit)
  qed
qed

lemma nat_digits_nonempty [simp]: "nat_digits n \<noteq> []"
  by (subst nat_digits.simps) simp

lemma digits_val_append: "digits_val (s @ [c]) = 10 * digits_val s + digit_val c"
  by (simp add: digits_val_def)

lemma digits_val_nat_digits: "digits_val (nat_digits n) = n"
proof (induction n rule: nat_digits.induct)
  case (1 n)
  show ?case
  proof (cases "n < 10")
    case True
    then show ?thesis by (subst nat_digits.simps) (simp add: digits_val_def digit_char_val)
  next
    case False
    with 1 show ?thesis
      by (subst nat_digits.simps) (simp add: digits_val_append digit_char_val)
  qed
qed

lemma digits_no_sign: "list_all is_digit s \<Longrightarrow> \<not> has_prefix s ''-'' \<and> \<not> has_prefix s ''+''"
  by (cases s) (auto simp: is_digit_def of_char_le_iff)

lemma atoi_itoa: "0 \<le> i \<Longrightarrow> i < 2 ^ 63 \<Longrightarrow> atoi (itoa i) = Some i"
  using nat_digits_all_digits [of "nat i"] digits_no_sign [OF nat_digits_all_digits, of "nat i"]
  by (simp add: atoi_def itoa_def digits_val_nat_digits)

end
