(* ===== verification/Go_Time.thy ===== *)
theory Go_Time
  imports Go_Strings
begin

text \<open>
  The part of Go's \<^verbatim>\<open>time\<close> the client calls. A \<^verbatim>\<open>time.Time\<close> is an instant, in nanoseconds since
  Go's zero time (January 1 of year 1, UTC), so \<^verbatim>\<open>IsZero\<close> is equality with 0; a
  \<^verbatim>\<open>time.Duration\<close> is a number of nanoseconds. Both are unbounded here: the durations of the
  client are bounded by its configuration, far inside 64 bits.

  \<open>format_rfc3339\<close> is \<^verbatim>\<open>t.UTC().Format(time.RFC3339)\<close>, \<open>parse_rfc3339\<close> is
  \<^verbatim>\<open>time.Parse(time.RFC3339, s)\<close> with the leniencies of the library: a one-digit hour, a fraction
  after a dot or a comma, any zone offset up to 24 hours. The main result is the round trip
  \<open>parse_format\<close>: a formatted instant is read back, cut to the second.
\<close>

type_synonym time = int
type_synonym duration = int

definition millisecond :: duration where "millisecond = 1000000"
definition second :: duration where "second = 1000000000"
definition minute :: duration where "minute = 60000000000"

text \<open>Go's integer division truncates towards zero.\<close>

definition go_quot :: "int \<Rightarrow> int \<Rightarrow> int" where
  "go_quot a b = (if (a < 0) = (b < 0) then \<bar>a\<bar> div \<bar>b\<bar> else - (\<bar>a\<bar> div \<bar>b\<bar>))"

lemma go_quot_nonneg [simp]: "0 \<le> a \<Longrightarrow> 0 < b \<Longrightarrow> go_quot a b = a div b"
  by (simp add: go_quot_def)

text \<open>\<^verbatim>\<open>t.Sub(u)\<close> saturates at the bounds of a 64-bit duration.\<close>

definition time_sub :: "time \<Rightarrow> time \<Rightarrow> duration" where
  "time_sub t u = max (- (2 ^ 63)) (min (2 ^ 63 - 1) (t - u))"

subsection \<open>Calendar\<close>

definition is_leap :: "int \<Rightarrow> bool" where
  "is_leap y = (y mod 4 = 0 \<and> (y mod 100 \<noteq> 0 \<or> y mod 400 = 0))"

definition month_lengths :: "bool \<Rightarrow> int list" where
  "month_lengths leap = [31, if leap then 29 else 28, 31, 30, 31, 30, 31, 31, 30, 31, 30, 31]"

fun month_scan :: "int list \<Rightarrow> nat \<Rightarrow> int \<Rightarrow> nat \<times> int" where
  "month_scan [] m d = (m, d + 1)"
| "month_scan (l # ls) m d = (if d < l then (m, d + 1) else month_scan ls (Suc m) (d - l))"

text \<open>Year, month and day of a day number (day 0 is January 1 of year 1).\<close>

definition civil_of_days :: "int \<Rightarrow> int \<times> nat \<times> int" where
  "civil_of_days d =
     (let n400 = d div 146097; r = d mod 146097;
          n100 = min 3 (r div 36524); r2 = r - 36524 * n100;
          n4 = r2 div 1461; r3 = r2 - 1461 * n4;
          n1 = min 3 (r3 div 365); yd = r3 - 365 * n1;
          y = 400 * n400 + 100 * n100 + 4 * n4 + n1 + 1
      in case month_scan (month_lengths (is_leap y)) 1 yd of (m, dd) \<Rightarrow> (y, m, dd))"

definition days_of_civil :: "int \<Rightarrow> nat \<Rightarrow> int \<Rightarrow> int" where
  "days_of_civil y m d =
     365 * (y - 1) + (y - 1) div 4 - (y - 1) div 100 + (y - 1) div 400
     + sum_list (take (m - 1) (month_lengths (is_leap y))) + (d - 1)"

lemma month_scan_spec:
  "0 \<le> d \<Longrightarrow> d < sum_list ls \<Longrightarrow> month_scan ls m d = (m', dd) \<Longrightarrow>
     m \<le> m' \<and> m' < m + length ls \<and> 1 \<le> dd \<and> dd \<le> ls ! (m' - m) \<and>
     sum_list (take (m' - m) ls) + (dd - 1) = d"
proof (induction ls arbitrary: m d)
  case Nil
  then show ?case by simp
next
  case (Cons l ls)
  show ?case
  proof (cases "d < l")
    case True
    with Cons.prems show ?thesis by auto
  next
    case False
    with Cons.prems have "month_scan ls (Suc m) (d - l) = (m', dd)" "0 \<le> d - l" "d - l < sum_list ls"
      by auto
    from Cons.IH [OF this(2,3,1)]
    have IH: "Suc m \<le> m'" "m' < Suc m + length ls" "1 \<le> dd" "dd \<le> ls ! (m' - Suc m)"
      "sum_list (take (m' - Suc m) ls) + (dd - 1) = d - l" by auto
    from IH(1) have "m' - m = Suc (m' - Suc m)" by simp
    with IH show ?thesis by simp
  qed
qed

lemma sum_month_lengths: "sum_list (month_lengths leap) = (if leap then 366 else 365)"
  by (simp add: month_lengths_def)

text \<open>The year of a day number, and its day within the year.\<close>

lemma mod_small_or: "0 \<le> x \<Longrightarrow> x \<le> n \<Longrightarrow> 0 < n \<Longrightarrow> x mod n = (if x = n then 0 else x)" for x n :: int
  by simp

lemma year_split:
  fixes a b c e yd :: int
  assumes "0 \<le> b" "b \<le> 3" "0 \<le> c" "c \<le> 24" "0 \<le> e" "e \<le> 3"
  defines "y \<equiv> 400 * a + 100 * b + 4 * c + e + 1"
  shows "365 * (y - 1) + (y - 1) div 4 - (y - 1) div 100 + (y - 1) div 400
           = 146097 * a + 36524 * b + 1461 * c + 365 * e"
    and "is_leap y \<longleftrightarrow> e = 3 \<and> (c \<noteq> 24 \<or> b = 3)"
proof -
  have d4: "(y - 1) div 4 = 100 * a + 25 * b + c" using assms by simp
  have d100: "(y - 1) div 100 = 4 * a + b"
  proof (rule int_div_pos_eq)
    show "y - 1 = 100 * (4 * a + b) + (4 * c + e)" by (simp add: y_def)
  qed (use assms in auto)
  have d400: "(y - 1) div 400 = a"
  proof (rule int_div_pos_eq)
    show "y - 1 = 400 * a + (100 * b + 4 * c + e)" by (simp add: y_def)
  qed (use assms in auto)
  show "365 * (y - 1) + (y - 1) div 4 - (y - 1) div 100 + (y - 1) div 400
           = 146097 * a + 36524 * b + 1461 * c + 365 * e"
  proof -
    have "365 * (y - 1) + (y - 1) div 4 - (y - 1) div 100 + (y - 1) div 400
        = 365 * (y - 1) + (100 * a + 25 * b + c) - (4 * a + b) + a"
      by (simp only: d4 d100 d400)
    then show ?thesis by (simp add: y_def)
  qed
  have m4: "y mod 4 = 0 \<longleftrightarrow> e = 3"
  proof -
    have "y mod 4 = (e + 1) mod 4"
      using mod_mult_self2 [of "e + 1" 4 "100 * a + 25 * b + c"] by (simp add: y_def algebra_simps)
    also have "\<dots> = (if e + 1 = 4 then 0 else e + 1)"
      using assms(5,6) by (intro mod_small_or) auto
    finally show ?thesis using assms(5,6) by auto
  qed
  have m100: "y mod 100 = 0 \<longleftrightarrow> c = 24 \<and> e = 3"
  proof -
    have "y mod 100 = (4 * c + e + 1) mod 100"
      using mod_mult_self2 [of "4 * c + e + 1" 100 "4 * a + b"] by (simp add: y_def algebra_simps)
    moreover have "(4 * c + e + 1) mod 100 = (if 4 * c + e + 1 = 100 then 0 else 4 * c + e + 1)"
      using assms(3-6) by (intro mod_small_or) auto
    ultimately show ?thesis using assms(3-6) by (auto split: if_splits)
  qed
  have m400: "y mod 400 = 0 \<longleftrightarrow> b = 3 \<and> c = 24 \<and> e = 3"
  proof -
    have "y mod 400 = (100 * b + 4 * c + e + 1) mod 400"
      using mod_mult_self2 [of "100 * b + 4 * c + e + 1" 400 a] by (simp add: y_def algebra_simps)
    moreover have "(100 * b + 4 * c + e + 1) mod 400 =
        (if 100 * b + 4 * c + e + 1 = 400 then 0 else 100 * b + 4 * c + e + 1)"
      using assms(1-6) by (intro mod_small_or) auto
    ultimately show ?thesis using assms(1-6) by (auto split: if_splits)
  qed
  show "is_leap y \<longleftrightarrow> e = 3 \<and> (c \<noteq> 24 \<or> b = 3)"
    using m4 m100 m400 by (auto simp: is_leap_def)
qed

lemma civil_bounds:
  assumes "civil_of_days d = (y, m, dd)"
  shows "1 \<le> m" "m \<le> 12" "1 \<le> dd" "dd \<le> month_lengths (is_leap y) ! (m - 1)"
    and "days_of_civil y m dd = d"
    and "0 \<le> d \<Longrightarrow> 1 \<le> y" and "d < 3652059 \<Longrightarrow> y < 10000"
proof -
  define a r b r2 c r3 e yd where defs: "a = d div 146097" "r = d mod 146097"
    "b = min 3 (r div 36524)" "r2 = r - 36524 * b" "c = r2 div 1461" "r3 = r2 - 1461 * c"
    "e = min 3 (r3 div 365)" "yd = r3 - 365 * e"
  have d: "d = 146097 * a + 36524 * b + 1461 * c + 365 * e + yd"
  proof -
    have "d = 146097 * a + r" by (simp add: defs(1,2))
    moreover have "r = 36524 * b + r2" by (simp add: defs(4))
    moreover have "r2 = 1461 * c + r3" by (simp add: defs(6))
    moreover have "r3 = 365 * e + yd" by (simp add: defs(8))
    ultimately show ?thesis by linarith
  qed
  have r: "0 \<le> r" "r < 146097" by (simp_all add: defs)
  have b: "0 \<le> b" "b \<le> 3" "0 \<le> r2" "r2 \<le> 36524" "b < 3 \<Longrightarrow> r2 < 36524"
    using r by (auto simp: defs min_def split: if_splits)
  have c: "0 \<le> c" "c \<le> 24" "0 \<le> r3" "r3 < 1461" "c = 24 \<Longrightarrow> r3 \<le> 1460" "c = 24 \<Longrightarrow> b < 3 \<Longrightarrow> r3 < 1460"
    using b by (auto simp: defs(5,6))
  have e: "0 \<le> e" "e \<le> 3" "0 \<le> yd" "yd \<le> 365" "e < 3 \<Longrightarrow> yd < 365" "r3 < 1460 \<Longrightarrow> yd < 365"
    using c by (auto simp: defs(7,8) min_def split: if_splits)
  have "civil_of_days d =
      (case month_scan (month_lengths (is_leap (400 * a + 100 * b + 4 * c + e + 1))) 1 yd
       of (m, dd) \<Rightarrow> (400 * a + 100 * b + 4 * c + e + 1, m, dd))"
    unfolding civil_of_days_def Let_def defs ..
  then have y: "y = 400 * a + 100 * b + 4 * c + e + 1"
    and scan: "month_scan (month_lengths (is_leap y)) 1 yd = (m, dd)"
    using assms by (auto split: prod.splits)
  note ys = year_split [OF b(1,2) c(1,2) e(1,2), of a, folded y]
  have "yd < sum_list (month_lengths (is_leap y))"
    using e c b(2) ys(2) by (fastforce simp: sum_month_lengths)
  from month_scan_spec [OF e(3) this scan]
  show "1 \<le> m" "m \<le> 12" "1 \<le> dd" "dd \<le> month_lengths (is_leap y) ! (m - 1)"
    and "days_of_civil y m dd = d"
    using ys(1) d by (auto simp: month_lengths_def days_of_civil_def)
  show "0 \<le> d \<Longrightarrow> 1 \<le> y" using y b c e by (simp add: defs(1))
  show "d < 3652059 \<Longrightarrow> y < 10000"
  proof -
    assume "d < 3652059"
    then have "a \<le> 24" by (simp add: defs(1))
    moreover have "\<not> (a = 24 \<and> b = 3 \<and> c = 24 \<and> e = 3)"
      using \<open>d < 3652059\<close> d e(3) by auto
    ultimately show ?thesis using y b c e by linarith
  qed
qed

subsection \<open>Printing and parsing\<close>

definition pad2 :: "int \<Rightarrow> string" where
  "pad2 n = [digit_char (nat (n div 10)), digit_char (nat (n mod 10))]"

definition pad4 :: "int \<Rightarrow> string" where
  "pad4 n = pad2 (n div 100) @ pad2 (n mod 100)"

definition day_ns :: int where "day_ns = 86400000000000"

definition format_rfc3339 :: "time \<Rightarrow> string" where
  "format_rfc3339 t =
     (case civil_of_days (t div day_ns) of (y, m, d) \<Rightarrow>
        let s = (t mod day_ns) div second in
        pad4 y @ ''-'' @ pad2 (int m) @ ''-'' @ pad2 d @ ''T'' @
        pad2 (s div 3600) @ '':'' @ pad2 (s div 60 mod 60) @ '':'' @ pad2 (s mod 60) @ ''Z'')"

text \<open>Exactly \<open>n\<close> digits; one or two digits; a literal byte.\<close>

fun take_digits :: "nat \<Rightarrow> int \<Rightarrow> string \<Rightarrow> (int \<times> string) option" where
  "take_digits 0 acc s = Some (acc, s)"
| "take_digits (Suc n) acc [] = None"
| "take_digits (Suc n) acc (c # s) =
     (if is_digit c then take_digits n (10 * acc + int (digit_val c)) s else None)"

definition take_hour :: "string \<Rightarrow> (int \<times> string) option" where
  "take_hour s =
     (case take_digits 2 0 s of Some r \<Rightarrow> Some r | None \<Rightarrow> take_digits 1 0 s)"

fun take_byte :: "char \<Rightarrow> string \<Rightarrow> string option" where
  "take_byte c [] = None"
| "take_byte c (d # s) = (if c = d then Some s else None)"

text \<open>An optional fraction of a second: nine digits count, further ones are dropped.\<close>

definition take_fraction :: "string \<Rightarrow> int \<times> string" where
  "take_fraction s =
     (case s of
        c # d # r \<Rightarrow>
          if (c = CHR ''.'' \<or> c = CHR '','') \<and> is_digit d then
            (let ds = takeWhile is_digit (d # r); k = take 9 ds in
             (int (digits_val k) * 10 ^ (9 - length k), dropWhile is_digit (d # r)))
          else (0, s)
      | _ \<Rightarrow> (0, s))"

definition take_zone :: "string \<Rightarrow> (int \<times> string) option" where
  "take_zone s =
     (case s of
        [] \<Rightarrow> None
      | c # r \<Rightarrow>
          if c = CHR ''Z'' then Some (0, r)
          else if c \<noteq> CHR ''+'' \<and> c \<noteq> CHR ''-'' then None
          else
            (case take_digits 2 0 r of None \<Rightarrow> None | Some (h, r1) \<Rightarrow>
             (case take_byte CHR '':'' r1 of None \<Rightarrow> None | Some r2 \<Rightarrow>
             (case take_digits 2 0 r2 of None \<Rightarrow> None | Some (m, r3) \<Rightarrow>
                if 24 < h \<or> 60 < m then None
                else Some ((if c = CHR ''-'' then -1 else 1) * (60 * h + m), r3)))))"

definition parse_date :: "string \<Rightarrow> (int \<times> string) option" where
  "parse_date s =
     (case take_digits 4 0 s of None \<Rightarrow> None | Some (y, s1) \<Rightarrow>
      (case take_byte CHR ''-'' s1 of None \<Rightarrow> None | Some s2 \<Rightarrow>
      (case take_digits 2 0 s2 of None \<Rightarrow> None | Some (m, s3) \<Rightarrow>
      (case take_byte CHR ''-'' s3 of None \<Rightarrow> None | Some s4 \<Rightarrow>
      (case take_digits 2 0 s4 of None \<Rightarrow> None | Some (d, s5) \<Rightarrow>
        if m < 1 \<or> 12 < m \<or> d < 1 \<or> month_lengths (is_leap y) ! (nat m - 1) < d then None
        else Some (days_of_civil y (nat m) d, s5))))))"

definition parse_clock :: "string \<Rightarrow> (int \<times> string) option" where
  "parse_clock s =
     (case take_hour s of None \<Rightarrow> None | Some (h, s1) \<Rightarrow>
      (case take_byte CHR '':'' s1 of None \<Rightarrow> None | Some s2 \<Rightarrow>
      (case take_digits 2 0 s2 of None \<Rightarrow> None | Some (mi, s3) \<Rightarrow>
      (case take_byte CHR '':'' s3 of None \<Rightarrow> None | Some s4 \<Rightarrow>
      (case take_digits 2 0 s4 of None \<Rightarrow> None | Some (sec, s5) \<Rightarrow>
        if 23 < h \<or> 59 < mi \<or> 59 < sec then None
        else (case take_fraction s5 of (f, s6) \<Rightarrow>
          Some ((3600 * h + 60 * mi + sec) * second + f, s6)))))))"

definition parse_rfc3339 :: "string \<Rightarrow> time option" where
  "parse_rfc3339 s =
     (case parse_date s of None \<Rightarrow> None | Some (d, s1) \<Rightarrow>
      (case take_byte CHR ''T'' s1 of None \<Rightarrow> None | Some s2 \<Rightarrow>
      (case parse_clock s2 of None \<Rightarrow> None | Some (c, s3) \<Rightarrow>
      (case take_zone s3 of
         Some (z, []) \<Rightarrow> Some (d * day_ns + c - z * minute)
       | _ \<Rightarrow> None))))"

lemma take_digits_pad2 [simp]:
  assumes "0 \<le> n" "n < 100"
  shows "take_digits 2 acc (pad2 n @ s) = Some (100 * acc + n, s)"
proof -
  have "nat (n div 10) < 10" "nat (n mod 10) < 10" "0 \<le> n div 10" using assms by auto
  then show ?thesis
    using assms by (simp add: pad2_def digit_char_digit digit_char_val numeral_2_eq_2)
qed

lemma take_digits_pad4 [simp]:
  assumes "0 \<le> n" "n < 10000"
  shows "take_digits 4 0 (pad4 n @ s) = Some (n, s)"
proof -
  have "take_digits (2 + k) acc (pad2 u @ r) = take_digits k (100 * acc + u) r"
    if "0 \<le> u" "u < 100" for u k acc r
  proof -
    have "nat (u div 10) < 10" "nat (u mod 10) < 10" "0 \<le> u div 10" using that by auto
    then show ?thesis
      using that by (simp add: pad2_def digit_char_digit digit_char_val add.commute)
  qed
  from this [of "n div 100" 2 0 "pad2 (n mod 100) @ s"] assms show ?thesis
    by (simp add: pad4_def)
qed

lemma parse_clock_pad:
  assumes "0 \<le> h" "h \<le> 23" "0 \<le> mi" "mi \<le> 59" "0 \<le> se" "se \<le> 59"
  shows "parse_clock (pad2 h @ '':'' @ pad2 mi @ '':'' @ pad2 se @ ''Z'') =
    Some ((3600 * h + 60 * mi + se) * second, ''Z'')"
  using assms by (simp add: parse_clock_def take_hour_def take_fraction_def)

text \<open>The round trip, for the years 1 to 9999.\<close>

definition max_time :: time where "max_time = 3652059 * day_ns"

lemma parse_format:
  assumes "0 \<le> t" "t < max_time"
  shows "parse_rfc3339 (format_rfc3339 t) = Some (t - t mod second)"
proof -
  obtain y m d where civ: "civil_of_days (t div day_ns) = (y, m, d)" by (metis prod_cases3)
  have td: "0 \<le> t div day_ns" "t div day_ns < 3652059"
    using assms by (simp_all add: max_time_def day_ns_def)
  note cb = civil_bounds [OF civ]
  from cb td have y: "0 \<le> y" "y < 10000" by auto
  have ml: "month_lengths (is_leap y) ! (m - 1) \<le> 31"
  proof -
    have "m - 1 < length (month_lengths (is_leap y))" using cb(1,2) by (simp add: month_lengths_def)
    then have "month_lengths (is_leap y) ! (m - 1) \<in> set (month_lengths (is_leap y))"
      by (rule nth_mem)
    then show ?thesis by (auto simp: month_lengths_def split: if_splits)
  qed
  have md: "0 \<le> int m" "int m < 100" "0 \<le> d" "d < 100" using cb(1-4) ml by auto
  define s where "s = (t mod day_ns) div second"
  have s: "0 \<le> s" "s < 86400" by (simp_all add: s_def day_ns_def second_def)
  have hms: "0 \<le> s div 3600" "s div 3600 \<le> 23" "0 \<le> s div 60 mod 60" "s div 60 mod 60 \<le> 59"
    "0 \<le> s mod 60" "s mod 60 \<le> 59" using s by auto
  have sum: "3600 * (s div 3600) + 60 * (s div 60 mod 60) + s mod 60 = s"
  proof -
    have "s div 3600 = s div 60 div 60" using zdiv_zmult2_eq [of 60 s 60] by simp
    then show ?thesis
      using mult_div_mod_eq [of 60 s] mult_div_mod_eq [of 60 "s div 60"] by linarith
  qed
  note clock = parse_clock_pad [OF hms, unfolded sum]
  have "parse_date (pad4 y @ ''-'' @ pad2 (int m) @ ''-'' @ pad2 d @ r) = Some (t div day_ns, r)"
    for r using cb y md by (simp add: parse_date_def)
  then have "parse_rfc3339 (format_rfc3339 t) = Some (t div day_ns * day_ns + s * second)"
    using clock unfolding format_rfc3339_def civ
    by (simp add: Let_def s_def [symmetric] parse_rfc3339_def take_zone_def)
  moreover have "t div day_ns * day_ns + s * second = t - t mod second"
  proof -
    have "t mod day_ns = s * second + t mod day_ns mod second"
      by (simp add: s_def)
    moreover have "t mod day_ns mod second = t mod second"
      by (simp add: day_ns_def second_def mod_mod_cancel)
    ultimately show ?thesis using div_mult_mod_eq [of t day_ns] by linarith
  qed
  ultimately show ?thesis by simp
qed

end
