(* ===== verification/Go_Encoding.thy ===== *)
theory Go_Encoding
  imports Go_Strings "HOL-Library.List_Lexorder"
begin

text \<open>
  The encodings the client uses: \<^verbatim>\<open>encoding/base64\<close> (\<^verbatim>\<open>StdEncoding\<close>), \<^verbatim>\<open>encoding/hex\<close> and the
  printer of \<^verbatim>\<open>encoding/json\<close>. \<open>b64_decode\<close> skips carriage returns and line feeds, requires
  padding and rejects anything after it, as the library does. \<open>json_text\<close> is the output of
  \<^verbatim>\<open>json.Marshal\<close>: compact, HTML-safe escapes, invalid UTF-8 replaced, map keys sorted by the
  encoders that build a \<open>JObj\<close>.
\<close>

subsection \<open>Base64\<close>

definition b64_char :: "nat \<Rightarrow> char" where
  "b64_char n =
     (if n < 26 then char_of (65 + n) else if n < 52 then char_of (71 + n)
      else if n < 62 then char_of (n - 4) else if n = 62 then CHR ''+'' else CHR ''/'')"

definition b64_val :: "char \<Rightarrow> nat option" where
  "b64_val c =
     (if is_upper c then Some (of_char c - 65)
      else if is_lower c then Some (of_char c - 71)
      else if is_digit c then Some (of_char c + 4)
      else if c = CHR ''+'' then Some 62 else if c = CHR ''/'' then Some 63 else None)"

text \<open>The four sextets of three bytes, and the three bytes of four sextets.\<close>

definition sext1 :: "char \<Rightarrow> nat" where "sext1 a = of_char a div 4"
definition sext2 :: "char \<Rightarrow> char \<Rightarrow> nat" where "sext2 a b = of_char a mod 4 * 16 + of_char b div 16"
definition sext3 :: "char \<Rightarrow> char \<Rightarrow> nat" where "sext3 b c = of_char b mod 16 * 4 + of_char c div 64"
definition sext4 :: "char \<Rightarrow> nat" where "sext4 c = of_char c mod 64"

definition byte1 :: "nat \<Rightarrow> nat \<Rightarrow> char" where "byte1 x y = char_of (4 * x + y div 16)"
definition byte2 :: "nat \<Rightarrow> nat \<Rightarrow> char" where "byte2 y z = char_of (y mod 16 * 16 + z div 4)"
definition byte3 :: "nat \<Rightarrow> nat \<Rightarrow> char" where "byte3 z w = char_of (z mod 4 * 64 + w)"

fun b64_encode :: "string \<Rightarrow> string" where
  "b64_encode [] = []"
| "b64_encode [a] =
     [b64_char (sext1 a), b64_char (sext2 a CHR 0x00), CHR ''='', CHR ''='']"
| "b64_encode [a, b] =
     [b64_char (sext1 a), b64_char (sext2 a b), b64_char (sext3 b CHR 0x00), CHR ''='']"
| "b64_encode (a # b # c # r) =
     b64_char (sext1 a) # b64_char (sext2 a b) # b64_char (sext3 b c) # b64_char (sext4 c) #
     b64_encode r"

fun b64_quanta :: "string \<Rightarrow> string option" where
  "b64_quanta [] = Some []"
| "b64_quanta (p # q # r # s # t) =
     (case (b64_val p, b64_val q) of
        (Some x, Some y) \<Rightarrow>
          if r = CHR ''='' then (if s = CHR ''='' \<and> t = [] then Some [byte1 x y] else None)
          else (case b64_val r of
              None \<Rightarrow> None
            | Some z \<Rightarrow>
                if s = CHR ''='' then (if t = [] then Some [byte1 x y, byte2 y z] else None)
                else (case b64_val s of
                    None \<Rightarrow> None
                  | Some w \<Rightarrow>
                      map_option (\<lambda>u. byte1 x y # byte2 y z # byte3 z w # u) (b64_quanta t)))
      | _ \<Rightarrow> None)"
| "b64_quanta _ = None"

definition b64_decode :: "string \<Rightarrow> string res" where
  "b64_decode s =
     (case b64_quanta (filter (\<lambda>c. c \<noteq> CHR 0x0A \<and> c \<noteq> CHR 0x0D) s) of
        None \<Rightarrow> Inl (Err ''illegal base64 data'') | Some d \<Rightarrow> Inr d)"

lemma b64_val_char [simp]: "n < 64 \<Longrightarrow> b64_val (b64_char n) = Some n"
  by (auto simp: b64_val_def b64_char_def is_upper_def is_lower_def is_digit_def of_char_le_iff)

lemma b64_char_plain:
  "n < 64 \<Longrightarrow> b64_char n \<noteq> CHR ''='' \<and> b64_char n \<noteq> CHR 0x0A \<and> b64_char n \<noteq> CHR 0x0D"
proof -
  assume "n < 64"
  then have "b64_val (b64_char n) \<noteq> None" by simp
  moreover have "b64_val (CHR ''='') = None" "b64_val (CHR 0x0A) = None" "b64_val (CHR 0x0D) = None"
    by (simp_all add: b64_val_def is_upper_def is_lower_def is_digit_def of_char_le_iff)
  ultimately show ?thesis by metis
qed

lemma sext_bounds [simp]: "sext1 a < 64" "sext2 a b < 64" "sext3 b c < 64" "sext4 c < 64"
proof -
  have "of_char a < (256 :: nat)" "of_char b < (256 :: nat)" "of_char c < (256 :: nat)" by simp_all
  then have small: "of_char b div 16 < (16 :: nat)" "of_char c div 64 < (4 :: nat)"
    and "of_char a div 4 < (64 :: nat)"
    by (simp_all add: less_mult_imp_div_less)
  moreover have "of_char a mod 4 \<le> (3 :: nat)" "of_char b mod 16 \<le> (15 :: nat)"
    by (simp_all add: less_Suc_eq_le [symmetric])
  ultimately show "sext1 a < 64" "sext2 a b < 64" "sext3 b c < 64" "sext4 c < 64"
    unfolding sext1_def sext2_def sext3_def sext4_def by linarith+
qed

lemma div_mult_add: "y < k \<Longrightarrow> (x * k + y) div k = (x :: nat)"
  by (metis add.commute add_0 div_less div_mult_self3 gr_implies_not_zero)

lemma mod_mult_add: "y < k \<Longrightarrow> (x * k + y) mod k = (y :: nat)"
  by (metis add.commute mod_less mod_mult_self1)

lemma byte1_sext [simp]: "byte1 (sext1 a) (sext2 a b) = a"
proof -
  have "of_char b div 16 < (16 :: nat)" by (simp add: less_mult_imp_div_less)
  then have "sext2 a b div 16 = of_char a mod 4"
    unfolding sext2_def by (rule div_mult_add)
  then show ?thesis
    unfolding byte1_def sext1_def using mult_div_mod_eq [of 4 "of_char a :: nat"] by simp
qed

lemma byte2_sext [simp]: "byte2 (sext2 a b) (sext3 b c) = b"
proof -
  have "of_char b div 16 < (16 :: nat)" "of_char c div 64 < (4 :: nat)"
    by (simp_all add: less_mult_imp_div_less)
  then have "sext2 a b mod 16 = of_char b div 16" "sext3 b c div 4 = of_char b mod 16"
    unfolding sext2_def sext3_def by (simp_all only: mod_mult_add div_mult_add)
  then show ?thesis
    unfolding byte2_def using div_mult_mod_eq [of "of_char b :: nat" 16] by simp
qed

lemma byte3_sext [simp]: "byte3 (sext3 b c) (sext4 c) = c"
proof -
  have "of_char c div 64 < (4 :: nat)" by (simp add: less_mult_imp_div_less)
  then have "sext3 b c mod 4 = of_char c div 64"
    unfolding sext3_def by (rule mod_mult_add)
  then show ?thesis
    unfolding byte3_def sext4_def using div_mult_mod_eq [of "of_char c :: nat" 64] by simp
qed

lemma b64_quanta_encode: "b64_quanta (b64_encode s) = Some s"
  by (induction s rule: b64_encode.induct) (simp_all add: b64_char_plain)

lemma b64_encode_plain:
  "c \<in> set (b64_encode s) \<Longrightarrow> c \<noteq> CHR 0x0A \<and> c \<noteq> CHR 0x0D"
  by (induction s rule: b64_encode.induct) (auto simp: b64_char_plain)

lemma b64_round_trip: "b64_decode (b64_encode s) = Inr s"
proof -
  have "filter (\<lambda>c. c \<noteq> CHR 0x0A \<and> c \<noteq> CHR 0x0D) (b64_encode s) = b64_encode s"
    using b64_encode_plain by (auto simp: filter_id_conv)
  then show ?thesis by (simp add: b64_decode_def b64_quanta_encode)
qed

lemma b64_encode_nonempty: "s \<noteq> [] \<Longrightarrow> b64_encode s \<noteq> []"
  by (induction s rule: b64_encode.induct) simp_all

subsection \<open>Hexadecimal\<close>

definition hex_encode :: "string \<Rightarrow> string" where
  "hex_encode s = concat (map (\<lambda>c. [hex_digit (of_char c div 16), hex_digit (of_char c mod 16)]) s)"

lemma hex_encode_length: "length (hex_encode s) = 2 * length s"
  by (induction s) (simp_all add: hex_encode_def)

subsection \<open>UTF-8\<close>

definition cont_byte :: "char \<Rightarrow> bool" where
  "cont_byte c = (CHR 0x80 \<le> c \<and> c \<le> CHR 0xBF)"

text \<open>
  The width of the rune at the start of a string, as \<^verbatim>\<open>utf8.DecodeRuneInString\<close> accepts it; 0 for
  an invalid encoding (and for the empty string).
\<close>

definition rune_width :: "string \<Rightarrow> nat" where
  "rune_width s =
     (case s of
        [] \<Rightarrow> 0
      | a # t \<Rightarrow>
          if a < CHR 0x80 then 1
          else if CHR 0xC2 \<le> a \<and> a \<le> CHR 0xDF then
            (case t of b # _ \<Rightarrow> if cont_byte b then 2 else 0 | _ \<Rightarrow> 0)
          else if CHR 0xE0 \<le> a \<and> a \<le> CHR 0xEF then
            (case t of
               b # c # _ \<Rightarrow>
                 if cont_byte b \<and> cont_byte c \<and> (a = CHR 0xE0 \<longrightarrow> CHR 0xA0 \<le> b) \<and>
                    (a = CHR 0xED \<longrightarrow> b \<le> CHR 0x9F) then 3 else 0
             | _ \<Rightarrow> 0)
          else if CHR 0xF0 \<le> a \<and> a \<le> CHR 0xF4 then
            (case t of
               b # c # d # _ \<Rightarrow>
                 if cont_byte b \<and> cont_byte c \<and> cont_byte d \<and> (a = CHR 0xF0 \<longrightarrow> CHR 0x90 \<le> b) \<and>
                    (a = CHR 0xF4 \<longrightarrow> b \<le> CHR 0x8F) then 4 else 0
             | _ \<Rightarrow> 0)
          else 0)"

subsection \<open>JSON text\<close>

text \<open>
  A number is an integer (\<open>JNum\<close>) when its literal has neither fraction nor exponent; any other
  number is kept as its literal (\<open>JFrac\<close>).
\<close>

datatype json =
    JNull
  | JBool bool
  | JNum int
  | JFrac string
  | JStr string
  | JArr "json list"
  | JObj "(string \<times> json) list"

definition backslash :: char where "backslash = CHR 0x5C"

definition u00 :: "char \<Rightarrow> string" where
  "u00 c = backslash # ''u00'' @ [hex_digit (of_char c div 16), hex_digit (of_char c mod 16)]"

definition json_byte :: "char \<Rightarrow> string" where
  "json_byte c =
     (if c = CHR 0x22 \<or> c = backslash then [backslash, c]
      else if c = CHR 0x08 then [backslash, CHR ''b'']
      else if c = CHR 0x0C then [backslash, CHR ''f'']
      else if c = CHR 0x0A then [backslash, CHR ''n'']
      else if c = CHR 0x0D then [backslash, CHR ''r'']
      else if c = CHR 0x09 then [backslash, CHR ''t'']
      else if c < CHR '' '' \<or> c = CHR ''<'' \<or> c = CHR ''>'' \<or> c = CHR ''&'' then u00 c
      else [c])"

text \<open>The escaped body of a string: one rune or one invalid byte at a time.\<close>

function json_escape :: "string \<Rightarrow> string" where
  "json_escape s =
     (if s = [] then []
      else if rune_width s \<le> 1 then
        (if rune_width s = 1 then json_byte (hd s) else backslash # ''ufffd'') @ json_escape (tl s)
      else
        (if has_prefix s [CHR 0xE2, CHR 0x80, CHR 0xA8] then backslash # ''u2028''
         else if has_prefix s [CHR 0xE2, CHR 0x80, CHR 0xA9] then backslash # ''u2029''
         else take (rune_width s) s) @ json_escape (drop (rune_width s) s))"
  by pat_completeness auto
termination
  by (relation "measure length") auto

declare json_escape.simps [simp del]

definition json_string :: "string \<Rightarrow> string" where
  "json_string s = CHR 0x22 # json_escape s @ [CHR 0x22]"

fun json_text :: "json \<Rightarrow> string" where
  "json_text JNull = ''null''"
| "json_text (JBool b) = (if b then ''true'' else ''false'')"
| "json_text (JNum i) = itoa i"
| "json_text (JFrac t) = t"
| "json_text (JStr s) = json_string s"
| "json_text (JArr xs) = ''['' @ join_str '','' (map json_text xs) @ '']''"
| "json_text (JObj kvs) =
     ''{'' @ join_str '','' (map (\<lambda>(k, v). json_string k @ '':'' @ json_text v) kvs) @ ''}''"

text \<open>A Go \<^verbatim>\<open>map[string]string\<close> is printed with its keys in byte order.\<close>

definition json_string_map :: "string gomap \<Rightarrow> json" where
  "json_string_map m = JObj (map (\<lambda>(k, v). (k, JStr v)) (sort_key fst m))"

lemma json_escape_Nil [simp]: "json_escape [] = []"
  by (simp add: json_escape.simps)

end
