(* ===== verification/Protocol.thy ===== *)
theory Protocol
  imports Go_Time Go_Encoding
begin

text \<open>
  \<^verbatim>\<open>client/internal/protocol\<close>: the request batch and result package envelopes
  (\<^verbatim>\<open>types.go\<close>), their JSON encoding, and the three validators (\<^verbatim>\<open>validate.go\<close>). A validator
  returns Go's \<^verbatim>\<open>error\<close>, \<open>None\<close> for nil. The predicates \<open>batch_wf\<close>, \<open>package_wf\<close> and
  \<open>package_covers\<close> say what the validators promise; \<open>validate_request_batch_iff\<close>,
  \<open>validate_result_package_iff\<close> and \<open>verify_package_iff\<close> show that the code decides them.
\<close>

subsection \<open>Envelopes\<close>

record client_meta =
  batch_interval_ms :: int
  route_mode :: string

record batch_limits =
  max_response_bytes_per_request :: int
  request_timeout_ms :: int
  worker_concurrency :: int

record body_data =
  bd_encoding :: string
  bd_data :: string

record request_item =
  ri_request_id :: string
  ri_method :: string
  ri_url :: string
  ri_headers :: "string gomap"
  ri_body :: "body_data option"

record request_batch =
  rb_protocol :: string
  rb_batch_id :: string
  rb_sent_at :: string
  rb_client :: client_meta
  rb_limits :: batch_limits
  rb_requests :: "request_item list"

record response_body =
  rsb_encoding :: string
  rsb_data :: string
  rsb_bytes :: int
  rsb_truncated :: bool

record http_response =
  hr_status :: int
  hr_headers :: "string gomap"
  hr_body :: response_body
  hr_url :: string
  hr_timing_ms :: int

record result_error =
  re_code :: string
  re_message :: string

record request_result =
  rr_request_id :: string
  rr_ok :: bool
  rr_response :: "http_response option"
  rr_error :: "result_error option"

record result_package =
  rp_protocol :: string
  rp_batch_id :: string
  rp_ok :: bool
  rp_results :: "request_result list"

definition request_batch_protocol :: string where
  "request_batch_protocol = ''actionrelay.request_batch.v1''"

definition result_package_protocol :: string where
  "result_package_protocol = ''actionrelay.result_package.v1''"

definition route_mode_whole_device :: string where
  "route_mode_whole_device = ''whole_device''"

subsection \<open>JSON encoding of a batch\<close>

definition body_json :: "body_data option \<Rightarrow> json" where
  "body_json b =
     (case b of
        None \<Rightarrow> JNull
      | Some d \<Rightarrow> JObj [(''encoding'', JStr (bd_encoding d)), (''data'', JStr (bd_data d))])"

definition item_json :: "request_item \<Rightarrow> json" where
  "item_json r = JObj
     ([(''request_id'', JStr (ri_request_id r)), (''method'', JStr (ri_method r)),
       (''url'', JStr (ri_url r))] @
      (if ri_headers r = [] then [] else [(''headers'', json_string_map (ri_headers r))]) @
      [(''body'', body_json (ri_body r))])"

definition batch_json :: "request_batch \<Rightarrow> json" where
  "batch_json b = JObj
     [(''protocol'', JStr (rb_protocol b)),
      (''batch_id'', JStr (rb_batch_id b)),
      (''sent_at'', JStr (rb_sent_at b)),
      (''client'', JObj [(''batch_interval_ms'', JNum (batch_interval_ms (rb_client b))),
                         (''route_mode'', JStr (route_mode (rb_client b)))]),
      (''limits'', JObj
         [(''max_response_bytes_per_request'', JNum (max_response_bytes_per_request (rb_limits b))),
          (''request_timeout_ms'', JNum (request_timeout_ms (rb_limits b))),
          (''worker_concurrency'', JNum (worker_concurrency (rb_limits b)))]),
      (''requests'', JArr (map item_json (rb_requests b)))]"

subsection \<open>Validation\<close>

definition blank :: "string \<Rightarrow> bool" where
  "blank s = (trim_space s = [])"

definition indexed :: "string \<Rightarrow> nat \<Rightarrow> string \<Rightarrow> go_error" where
  "indexed what idx msg = Err (what @ ''['' @ itoa (int idx) @ '']'' @ msg)"

fun validate_request_items :: "nat \<Rightarrow> string list \<Rightarrow> request_item list \<Rightarrow> go_error option" where
  "validate_request_items idx seen [] = None"
| "validate_request_items idx seen (item # rest) =
     (if blank (ri_request_id item)
        then Some (indexed ''requests'' idx ''.request_id is required'')
      else if ri_request_id item \<in> set seen
        then Some (Err (''duplicate request_id '' @ go_quote (ri_request_id item)))
      else if blank (ri_method item)
        then Some (indexed ''requests'' idx ''.method is required'')
      else if blank (ri_url item)
        then Some (indexed ''requests'' idx ''.url is required'')
      else if list_ex (\<lambda>(k, _). blank k) (ri_headers item)
        then Some (indexed ''requests'' idx ''.headers contains an empty key'')
      else (case ri_body item of
          None \<Rightarrow> validate_request_items (Suc idx) (ri_request_id item # seen) rest
        | Some b \<Rightarrow>
            if bd_encoding b \<noteq> ''base64''
            then Some (indexed ''requests'' idx (''.body.encoding must be '' @ go_quote ''base64''))
            else validate_request_items (Suc idx) (ri_request_id item # seen) rest))"

definition validate_request_batch :: "request_batch \<Rightarrow> go_error option" where
  "validate_request_batch b =
     (if rb_protocol b \<noteq> request_batch_protocol
        then Some (Err (''invalid request batch protocol '' @ go_quote (rb_protocol b)))
      else if blank (rb_batch_id b) then Some (Err ''batch_id is required'')
      else if parse_rfc3339 (rb_sent_at b) = None
        then Some (Err ''sent_at must be RFC3339: parsing time'')
      else if batch_interval_ms (rb_client b) \<le> 0
        then Some (Err ''client.batch_interval_ms must be > 0'')
      else if route_mode (rb_client b) \<noteq> route_mode_whole_device
        then Some (Err (''client.route_mode must be '' @ go_quote route_mode_whole_device))
      else if max_response_bytes_per_request (rb_limits b) \<le> 0
        then Some (Err ''limits.max_response_bytes_per_request must be > 0'')
      else if request_timeout_ms (rb_limits b) \<le> 0
        then Some (Err ''limits.request_timeout_ms must be > 0'')
      else if worker_concurrency (rb_limits b) \<le> 0
        then Some (Err ''limits.worker_concurrency must be > 0'')
      else if rb_requests b = []
        then Some (Err ''requests must contain at least one item'')
      else validate_request_items 0 [] (rb_requests b))"

definition validate_response :: "nat \<Rightarrow> http_response \<Rightarrow> go_error option" where
  "validate_response idx r =
     (if blank (hr_url r) then Some (indexed ''results'' idx ''.response.url is required'')
      else if rsb_bytes (hr_body r) < 0
        then Some (indexed ''results'' idx ''.response.body.bytes must be >= 0'')
      else if hr_timing_ms r < 0
        then Some (indexed ''results'' idx ''.response.timing_ms must be >= 0'')
      else if list_ex (\<lambda>(k, _). blank k) (hr_headers r)
        then Some (indexed ''results'' idx ''.response.headers contains an empty key'')
      else None)"

definition validate_result_fields :: "nat \<Rightarrow> request_result \<Rightarrow> go_error option" where
  "validate_result_fields idx r =
     (if rr_ok r \<and> (rr_response r = None \<or> rr_error r \<noteq> None)
        then Some (indexed ''results'' idx '' must include response and no error when ok=true'')
      else if \<not> rr_ok r \<and> (rr_response r \<noteq> None \<or> rr_error r = None)
        then Some (indexed ''results'' idx '' must include error and no response when ok=false'')
      else (case (case rr_response r of None \<Rightarrow> None | Some resp \<Rightarrow> validate_response idx resp) of
          Some e \<Rightarrow> Some e
        | None \<Rightarrow>
            (case rr_error r of
               None \<Rightarrow> None
             | Some err \<Rightarrow>
                 if blank (re_code err)
                 then Some (indexed ''results'' idx ''.error.code is required'') else None)))"

fun validate_results :: "nat \<Rightarrow> string list \<Rightarrow> request_result list \<Rightarrow> go_error option" where
  "validate_results idx seen [] = None"
| "validate_results idx seen (r # rest) =
     (if blank (rr_request_id r)
        then Some (indexed ''results'' idx ''.request_id is required'')
      else if rr_request_id r \<in> set seen
        then Some (Err (''duplicate result request_id '' @ go_quote (rr_request_id r)))
      else (case validate_result_fields idx r of
          Some e \<Rightarrow> Some e
        | None \<Rightarrow> validate_results (Suc idx) (rr_request_id r # seen) rest))"

definition validate_result_package :: "result_package \<Rightarrow> go_error option" where
  "validate_result_package p =
     (if rp_protocol p \<noteq> result_package_protocol
        then Some (Err (''invalid result package protocol '' @ go_quote (rp_protocol p)))
      else if blank (rp_batch_id p) then Some (Err ''batch_id is required'')
      else validate_results 0 [] (rp_results p))"

definition verify_result_package_for_batch ::
  "result_package \<Rightarrow> string \<Rightarrow> string list \<Rightarrow> go_error option" where
  "verify_result_package_for_batch p expected_batch_id request_ids =
     (case validate_result_package p of
        Some e \<Rightarrow> Some e
      | None \<Rightarrow>
          if rp_batch_id p \<noteq> expected_batch_id
            then Some (Err (''batch id mismatch: want '' @ expected_batch_id @ '' got '' @ rp_batch_id p))
          else
            (let results_by_id = map fst (fold (\<lambda>r m. AList.update (rr_request_id r) () m) (rp_results p) [])
             in case find (\<lambda>i. i \<notin> set results_by_id) request_ids of
                  Some i \<Rightarrow> Some (Err (''missing result for request_id '' @ i))
                | None \<Rightarrow>
                    (case find (\<lambda>i. i \<notin> set request_ids) results_by_id of
                       Some i \<Rightarrow> Some (Err (''unexpected result for request_id '' @ i))
                     | None \<Rightarrow> None)))"

subsection \<open>What the validators promise\<close>

definition item_wf :: "request_item \<Rightarrow> bool" where
  "item_wf r \<longleftrightarrow>
     \<not> blank (ri_request_id r) \<and> \<not> blank (ri_method r) \<and> \<not> blank (ri_url r) \<and>
     (\<forall>k \<in> fst ` set (ri_headers r). \<not> blank k) \<and>
     (\<forall>b. ri_body r = Some b \<longrightarrow> bd_encoding b = ''base64'')"

definition batch_wf :: "request_batch \<Rightarrow> bool" where
  "batch_wf b \<longleftrightarrow>
     rb_protocol b = request_batch_protocol \<and> \<not> blank (rb_batch_id b) \<and>
     parse_rfc3339 (rb_sent_at b) \<noteq> None \<and> 0 < batch_interval_ms (rb_client b) \<and>
     route_mode (rb_client b) = route_mode_whole_device \<and>
     0 < max_response_bytes_per_request (rb_limits b) \<and> 0 < request_timeout_ms (rb_limits b) \<and>
     0 < worker_concurrency (rb_limits b) \<and> rb_requests b \<noteq> [] \<and>
     distinct (map ri_request_id (rb_requests b)) \<and> (\<forall>r \<in> set (rb_requests b). item_wf r)"

definition response_wf :: "http_response \<Rightarrow> bool" where
  "response_wf r \<longleftrightarrow>
     \<not> blank (hr_url r) \<and> 0 \<le> rsb_bytes (hr_body r) \<and> 0 \<le> hr_timing_ms r \<and>
     (\<forall>k \<in> fst ` set (hr_headers r). \<not> blank k)"

text \<open>A result carries a response exactly when it is ok, and an error exactly when it is not.\<close>

definition result_shape :: "request_result \<Rightarrow> bool" where
  "result_shape r \<longleftrightarrow> (rr_response r \<noteq> None) = rr_ok r \<and> (rr_error r \<noteq> None) = (\<not> rr_ok r)"

definition result_wf :: "request_result \<Rightarrow> bool" where
  "result_wf r \<longleftrightarrow>
     result_shape r \<and> (\<forall>resp. rr_response r = Some resp \<longrightarrow> response_wf resp) \<and>
     (\<forall>e. rr_error r = Some e \<longrightarrow> \<not> blank (re_code e))"

definition package_wf :: "result_package \<Rightarrow> bool" where
  "package_wf p \<longleftrightarrow>
     rp_protocol p = result_package_protocol \<and> \<not> blank (rp_batch_id p) \<and>
     distinct (map rr_request_id (rp_results p)) \<and>
     (\<forall>r \<in> set (rp_results p). \<not> blank (rr_request_id r) \<and> result_wf r)"

definition package_covers :: "result_package \<Rightarrow> string \<Rightarrow> string list \<Rightarrow> bool" where
  "package_covers p batch_id ids \<longleftrightarrow>
     package_wf p \<and> rp_batch_id p = batch_id \<and> rr_request_id ` set (rp_results p) = set ids"

lemma list_ex_key: "list_ex (\<lambda>(k, _). P k) m \<longleftrightarrow> (\<exists>k \<in> fst ` set m. P k)"
  by (induction m) auto

lemma validate_request_items_iff:
  "validate_request_items idx seen items = None \<longleftrightarrow>
     (\<forall>r \<in> set items. item_wf r) \<and> distinct (map ri_request_id items) \<and>
     set (map ri_request_id items) \<inter> set seen = {}"
proof (induction items arbitrary: idx seen)
  case Nil
  then show ?case by simp
next
  case (Cons r items)
  show ?case
    by (cases "ri_body r") (auto simp: Cons.IH item_wf_def list_ex_key)
qed

lemma validate_response_iff: "validate_response idx r = None \<longleftrightarrow> response_wf r"
  by (auto simp: validate_response_def response_wf_def list_ex_key)

lemma validate_response_Some: "validate_response idx r = Some e \<Longrightarrow> \<not> response_wf r"
  by (metis option.distinct(1) validate_response_iff)

lemma validate_result_fields_iff: "validate_result_fields idx r = None \<longleftrightarrow> result_wf r"
  by (cases "rr_response r"; cases "rr_error r")
     (auto simp: validate_result_fields_def result_wf_def result_shape_def validate_response_iff
           dest: validate_response_Some split: option.splits)

lemma validate_results_iff:
  "validate_results idx seen rs = None \<longleftrightarrow>
     (\<forall>r \<in> set rs. \<not> blank (rr_request_id r) \<and> result_wf r) \<and> distinct (map rr_request_id rs) \<and>
     set (map rr_request_id rs) \<inter> set seen = {}"
proof (induction rs arbitrary: idx seen)
  case Nil
  then show ?case by simp
next
  case (Cons r rs)
  show ?case
  proof (cases "validate_result_fields idx r")
    case None
    moreover from None have "result_wf r" by (simp only: validate_result_fields_iff)
    ultimately show ?thesis by (auto simp: Cons.IH)
  next
    case (Some e)
    then have "\<not> result_wf r" by (simp flip: validate_result_fields_iff [of idx])
    with Some show ?thesis by auto
  qed
qed

lemma fold_update_keys:
  "fst ` set (fold (\<lambda>r m. AList.update (f r) v m) rs m) = f ` set rs \<union> fst ` set m"
  by (induction rs arbitrary: m) (auto simp: dom_update)

lemma validate_batch_lemma: "validate_request_batch b = None \<longleftrightarrow> batch_wf b"
proof -
  have "validate_request_items 0 [] (rb_requests b) = None \<longleftrightarrow>
      (\<forall>r \<in> set (rb_requests b). item_wf r) \<and> distinct (map ri_request_id (rb_requests b))"
    by (simp add: validate_request_items_iff)
  then show ?thesis
    by (auto simp: validate_request_batch_def batch_wf_def)
qed

lemma validate_package_lemma: "validate_result_package p = None \<longleftrightarrow> package_wf p"
proof -
  have "validate_results 0 [] (rp_results p) = None \<longleftrightarrow>
      (\<forall>r \<in> set (rp_results p). \<not> blank (rr_request_id r) \<and> result_wf r) \<and>
      distinct (map rr_request_id (rp_results p))"
    by (simp add: validate_results_iff)
  then show ?thesis
    by (auto simp: validate_result_package_def package_wf_def)
qed

lemma verify_package_lemma:
  "verify_result_package_for_batch p batch_id ids = None \<longleftrightarrow> package_covers p batch_id ids"
proof -
  define seen where "seen = map fst (fold (\<lambda>r m. AList.update (rr_request_id r) () m) (rp_results p) [])"
  have seen: "set seen = rr_request_id ` set (rp_results p)"
    by (simp add: seen_def fold_update_keys)
  have "verify_result_package_for_batch p batch_id ids = None \<longleftrightarrow>
      validate_result_package p = None \<and> rp_batch_id p = batch_id \<and>
      set ids \<subseteq> set seen \<and> set seen \<subseteq> set ids"
    unfolding verify_result_package_for_batch_def seen_def [symmetric] Let_def
    by (auto simp: find_None_iff find_Some_iff split: option.splits)
  then show ?thesis
    by (auto simp: package_covers_def validate_package_lemma seen)
qed

subsection \<open>Properties\<close>

text \<open>
  C11. \<^verbatim>\<open>ValidateRequestBatch\<close> accepts a batch exactly when every field of the envelope is in
  range, the batch is not empty, the request ids are distinct, and every request is well formed.
\<close>

theorem validate_request_batch_iff: "validate_request_batch b = None \<longleftrightarrow> batch_wf b"
  by (rule validate_batch_lemma)

text \<open>
  C12. \<^verbatim>\<open>VerifyResultPackageForBatch\<close> accepts a package exactly when it is well formed, names the
  batch, and has one result for each request sent and none for any other.
\<close>

theorem verify_result_package_iff:
  "verify_result_package_for_batch p batch_id ids = None \<longleftrightarrow> package_covers p batch_id ids"
  by (rule verify_package_lemma)

end
