(* ===== verification/Go_Net.thy ===== *)
theory Go_Net
  imports Go_Strings
begin

unbundle bit_operations_syntax

text \<open>
  The part of Go's \<^verbatim>\<open>net/netip\<close> and \<^verbatim>\<open>net\<close> the client calls: parsing of IPv4 and IPv6
  literals (\<^verbatim>\<open>netip.ParseAddr\<close>), the address predicates, and \<^verbatim>\<open>net.SplitHostPort\<close> and
  \<^verbatim>\<open>net.JoinHostPort\<close>. An IPv4 address is a 32-bit word, an IPv6 address a 128-bit word with
  its zone. As in the Go release of \<^verbatim>\<open>client/go.mod\<close>, the predicates other than
  \<^verbatim>\<open>IsUnspecified\<close> look through an IPv4-mapped IPv6 address. The texts of errors made inside
  \<^verbatim>\<open>netip\<close> are abbreviated.
\<close>

datatype ip_addr = V4 "32 word" | V6 "128 word" (zone: string)

subsection \<open>Parsing\<close>

definition is_hex :: "char \<Rightarrow> bool" where
  "is_hex c = (is_digit c \<or> (CHR ''a'' \<le> c \<and> c \<le> CHR ''f'') \<or> (CHR ''A'' \<le> c \<and> c \<le> CHR ''F''))"

definition hex_val :: "char \<Rightarrow> nat" where
  "hex_val c =
     (if is_digit c then of_char c - 48
      else if CHR ''a'' \<le> c then of_char c - 87 else of_char c - 55)"

definition hex_number :: "string \<Rightarrow> int" where
  "hex_number s = foldl (\<lambda>n c. 16 * n + int (hex_val c)) 0 s"

text \<open>\<^verbatim>\<open>parseIPv4Fields\<close>: current value, digits of the current octet, octets finished.\<close>

fun ipv4_fields :: "string \<Rightarrow> int \<Rightarrow> nat \<Rightarrow> int list \<Rightarrow> int list option" where
  "ipv4_fields [] v dl fs = (if length fs < 3 then None else Some (fs @ [v]))"
| "ipv4_fields (c # r) v dl fs =
     (if is_digit c then
        (if dl = 1 \<and> v = 0 then None
         else if 255 < v * 10 + int (digit_val c) then None
         else ipv4_fields r (v * 10 + int (digit_val c)) (dl + 1) fs)
      else if c = CHR ''.'' then
        (if dl = 0 \<or> r = [] then None
         else if length fs = 3 then None
         else ipv4_fields r 0 0 (fs @ [v]))
      else None)"

definition parse_ipv4 :: "string \<Rightarrow> ip_addr option" where
  "parse_ipv4 s =
     map_option (\<lambda>fs. V4 (of_int (foldl (\<lambda>n f. 256 * n + f) 0 fs))) (ipv4_fields s 0 0 [])"

text \<open>The group loop of \<^verbatim>\<open>parseIPv6\<close>: groups left, text left, groups read, ellipsis position.\<close>

fun ipv6_groups ::
  "nat \<Rightarrow> string \<Rightarrow> int list \<Rightarrow> nat option \<Rightarrow> (int list \<times> nat option \<times> string) option" where
  "ipv6_groups 0 s gs el = Some (gs, el, s)"
| "ipv6_groups (Suc k) s gs el =
     (let h = takeWhile is_hex s; r = dropWhile is_hex s; gs' = gs @ [hex_number h] in
      if 4 < length h \<or> h = [] then None
      else (case r of
          [] \<Rightarrow> Some (gs', el, [])
        | c # r' \<Rightarrow>
            if c = CHR ''.'' then
              (if el = None \<and> length gs \<noteq> 6 then None
               else if 8 < length gs + 2 then None
               else (case ipv4_fields s 0 0 [] of
                   Some [a, b, c, d] \<Rightarrow> Some (gs @ [256 * a + b, 256 * c + d], el, [])
                 | _ \<Rightarrow> None))
            else if c \<noteq> CHR '':'' then None
            else (case r' of
                [] \<Rightarrow> None
              | c2 # r2 \<Rightarrow>
                  if c2 = CHR '':'' then
                    (if el \<noteq> None then None
                     else if r2 = [] then Some (gs', Some (length gs'), [])
                     else ipv6_groups k r2 gs' (Some (length gs')))
                  else ipv6_groups k r' gs' el)))"

definition ipv6_finish :: "int list \<times> nat option \<times> string \<Rightarrow> string \<Rightarrow> ip_addr option" where
  "ipv6_finish g z =
     (case g of (gs, el, s) \<Rightarrow>
        if s \<noteq> [] then None
        else if length gs < 8 then
          (case el of
             None \<Rightarrow> None
           | Some e \<Rightarrow>
               Some (V6 (of_int (foldl (\<lambda>n f. 65536 * n + f) 0
                       (take e gs @ replicate (8 - length gs) 0 @ drop e gs))) z))
        else if el \<noteq> None then None
        else Some (V6 (of_int (foldl (\<lambda>n f. 65536 * n + f) 0 gs)) z))"

definition parse_ipv6 :: "string \<Rightarrow> ip_addr option" where
  "parse_ipv6 inp =
     (case cut_byte CHR ''%'' inp of (s, z, found) \<Rightarrow>
        if found \<and> z = [] then None
        else if has_prefix s ''::'' then
          (if drop 2 s = [] then Some (V6 0 z)
           else (case ipv6_groups 8 (drop 2 s) [] (Some 0) of
               None \<Rightarrow> None | Some g \<Rightarrow> ipv6_finish g z))
        else (case ipv6_groups 8 s [] None of None \<Rightarrow> None | Some g \<Rightarrow> ipv6_finish g z))"

text \<open>\<^verbatim>\<open>netip.ParseAddr\<close>: the first of the three bytes decides.\<close>

definition parse_addr :: "string \<Rightarrow> ip_addr option" where
  "parse_addr s =
     (case find (\<lambda>c. c = CHR ''.'' \<or> c = CHR '':'' \<or> c = CHR ''%'') s of
        None \<Rightarrow> None
      | Some c \<Rightarrow>
          if c = CHR ''.'' then parse_ipv4 s
          else if c = CHR '':'' then parse_ipv6 s
          else None)"

subsection \<open>Predicates\<close>

definition octet4 :: "32 word \<Rightarrow> nat \<Rightarrow> 8 word" where
  "octet4 a i = ucast (drop_bit (24 - 8 * i) a)"

definition octet6 :: "128 word \<Rightarrow> 8 word" where
  "octet6 w = ucast (drop_bit 120 w)"

definition group6 :: "128 word \<Rightarrow> 16 word" where
  "group6 w = ucast (drop_bit 112 w)"

fun is_4in6 :: "ip_addr \<Rightarrow> bool" where
  "is_4in6 (V4 a) = False"
| "is_4in6 (V6 w z) = (drop_bit 32 w = 0xFFFF)"

fun unmap_addr :: "ip_addr \<Rightarrow> ip_addr" where
  "unmap_addr (V4 a) = V4 a"
| "unmap_addr (V6 w z) = (if drop_bit 32 w = 0xFFFF then V4 (ucast w) else V6 w z)"

definition is_unspecified :: "ip_addr \<Rightarrow> bool" where
  "is_unspecified a = (a = V4 0 \<or> a = V6 0 [])"

definition is_loopback :: "ip_addr \<Rightarrow> bool" where
  "is_loopback a = (case unmap_addr a of V4 a \<Rightarrow> octet4 a 0 = 127 | V6 w z \<Rightarrow> w = 1)"

definition is_private :: "ip_addr \<Rightarrow> bool" where
  "is_private a =
     (case unmap_addr a of
        V4 a \<Rightarrow> octet4 a 0 = 10 \<or> (octet4 a 0 = 172 \<and> octet4 a 1 AND 0xF0 = 16) \<or>
               (octet4 a 0 = 192 \<and> octet4 a 1 = 168)
      | V6 w z \<Rightarrow> octet6 w AND 0xFE = 0xFC)"

definition is_link_local_unicast :: "ip_addr \<Rightarrow> bool" where
  "is_link_local_unicast a =
     (case unmap_addr a of
        V4 a \<Rightarrow> octet4 a 0 = 169 \<and> octet4 a 1 = 254
      | V6 w z \<Rightarrow> group6 w AND 0xFFC0 = 0xFE80)"

definition is_link_local_multicast :: "ip_addr \<Rightarrow> bool" where
  "is_link_local_multicast a =
     (case unmap_addr a of
        V4 a \<Rightarrow> octet4 a 0 = 224 \<and> octet4 a 1 = 0 \<and> octet4 a 2 = 0
      | V6 w z \<Rightarrow> group6 w AND 0xFF0F = 0xFF02)"

definition is_multicast :: "ip_addr \<Rightarrow> bool" where
  "is_multicast a =
     (case unmap_addr a of
        V4 a \<Rightarrow> octet4 a 0 AND 0xF0 = 0xE0
      | V6 w z \<Rightarrow> octet6 w = 0xFF)"

subsection \<open>Prefix form of the IPv4 predicates\<close>

text \<open>\<open>in_cidr a (b, n)\<close>: the address \<open>a\<close> has the first \<open>n\<close> bits of \<open>b\<close>.\<close>

fun in_cidr :: "32 word \<Rightarrow> 32 word \<times> nat \<Rightarrow> bool" where
  "in_cidr a (b, n) = (drop_bit (32 - n) a = drop_bit (32 - n) b)"

lemma unat_octet4: "unat (octet4 a i) = (unat a div 2 ^ (24 - 8 * i)) mod 256"
  by (simp add: octet4_def unsigned_ucast_eq unat_drop_bit_eq take_bit_eq_mod
      drop_bit_eq_div [where ?'a = nat])

lemma unat_32_less: "unat (a :: 32 word) < 4294967296"
  using unsigned_less [of a] by simp

lemma octet4_0: "unat (octet4 a 0) = unat a div 16777216"
  using unat_32_less [of a] by (simp add: unat_octet4 less_mult_imp_div_less)

lemma nat_and_240: "(n :: nat) AND 240 = 16 * ((n div 16) mod 16)"
proof -
  have "n AND 240 = 2 * (n div 2 AND 120)" by (subst and_rec) simp
  also have "n div 2 AND 120 = 2 * (n div 4 AND 60)"
    by (subst and_rec) (simp add: div_mult2_eq [symmetric])
  also have "n div 4 AND 60 = 2 * (n div 8 AND 30)"
    by (subst and_rec) (simp add: div_mult2_eq [symmetric])
  also have "n div 8 AND 30 = 2 * (n div 16 AND 15)"
    by (subst and_rec) (simp add: div_mult2_eq [symmetric])
  also have "n div 16 AND 15 = (n div 16) mod 16"
    using take_bit_eq_mask [of 4 "n div 16"] by (simp add: take_bit_eq_mod mask_eq_exp_minus_1)
  finally show ?thesis by simp
qed

lemma unat_and_F0: "unat ((b :: 8 word) AND 0xF0) = 16 * ((unat b div 16) mod 16)"
  by (simp add: unsigned_and_eq nat_and_240)

lemma in_cidr_unat: "in_cidr a (b, n) \<longleftrightarrow> unat a div 2 ^ (32 - n) = unat b div 2 ^ (32 - n)"
  by (simp add: word_unat_eq_iff unat_drop_bit_eq drop_bit_eq_div [where ?'a = nat])

lemma octet_loopback: "octet4 a 0 = 127 \<longleftrightarrow> in_cidr a (0x7F000000, 8)"
  by (simp add: word_unat_eq_iff octet4_0 in_cidr_unat del: in_cidr.simps)

lemma octet_ten: "octet4 a 0 = 10 \<longleftrightarrow> in_cidr a (0x0A000000, 8)"
  by (simp add: word_unat_eq_iff octet4_0 in_cidr_unat del: in_cidr.simps)

lemma nat_mod_256_div_16: "(z :: nat) mod 256 div 16 mod 16 = z div 16 mod 16"
proof -
  have "z mod (16 * 16) = 16 * (z div 16 mod 16) + z mod 16"
    by (rule mod_mult2_eq)
  then have "z mod 256 div 16 = (16 * (z div 16 mod 16) + z mod 16) div 16"
    by simp
  also have "\<dots> = z div 16 mod 16"
    by (subst div_mult_self4) simp_all
  finally show ?thesis by (simp only: mod_mod_trivial)
qed

lemma nat_div_mod_pair: "v < n \<Longrightarrow> z div n = u \<and> z mod n = v \<longleftrightarrow> z = n * u + (v :: nat)"
  by auto

lemma octet_172:
  "octet4 a 0 = 172 \<and> octet4 a 1 AND 0xF0 = 16 \<longleftrightarrow> in_cidr a (0xAC100000, 12)"
proof -
  have "octet4 a 0 = 172 \<and> octet4 a 1 AND 0xF0 = 16 \<longleftrightarrow>
      unat a div 16777216 = 172 \<and> (unat a div 65536) mod 256 div 16 mod 16 = 1"
    by (simp add: word_unat_eq_iff octet4_0 unat_octet4 [of a "Suc 0"] unat_and_F0)
  also have "\<dots> \<longleftrightarrow> unat a div 1048576 div 16 = 172 \<and> unat a div 1048576 mod 16 = 1"
    by (simp add: nat_mod_256_div_16 div_mult2_eq [symmetric])
  also have "\<dots> \<longleftrightarrow> unat a div 1048576 = 2753"
    using nat_div_mod_pair [of 1 16 "unat a div 1048576" 172] by simp
  finally show ?thesis by (simp add: in_cidr_unat del: in_cidr.simps)
qed

lemma octet_pair:
  "octet4 a 0 = x \<and> octet4 a 1 = y \<longleftrightarrow> unat a div 65536 = 256 * unat x + unat y"
proof -
  have y: "unat y < 256" using unsigned_less [of y] by simp
  have "octet4 a 0 = x \<and> octet4 a 1 = y \<longleftrightarrow>
      unat a div 16777216 = unat x \<and> (unat a div 65536) mod 256 = unat y"
    by (simp add: word_unat_eq_iff octet4_0 unat_octet4 [of a "Suc 0"])
  also have "\<dots> \<longleftrightarrow> unat a div 65536 div 256 = unat x \<and> (unat a div 65536) mod 256 = unat y"
    by (simp add: div_mult2_eq [symmetric])
  also have "\<dots> \<longleftrightarrow> unat a div 65536 = 256 * unat x + unat y"
    using y by (rule nat_div_mod_pair)
  finally show ?thesis .
qed

lemma octet_192: "octet4 a 0 = 192 \<and> octet4 a 1 = 168 \<longleftrightarrow> in_cidr a (0xC0A80000, 16)"
  by (simp only: octet_pair in_cidr_unat) simp

lemma octet_169: "octet4 a 0 = 169 \<and> octet4 a 1 = 254 \<longleftrightarrow> in_cidr a (0xA9FE0000, 16)"
  by (simp only: octet_pair in_cidr_unat) simp

lemma octet_multicast: "octet4 a 0 AND 0xF0 = 0xE0 \<longleftrightarrow> in_cidr a (0xE0000000, 4)"
proof -
  have "octet4 a 0 AND 0xF0 = 0xE0 \<longleftrightarrow> unat a div 16777216 div 16 mod 16 = 14"
    by (simp add: word_unat_eq_iff octet4_0 unat_and_F0)
  also have "unat a div 16777216 div 16 mod 16 = unat a div 268435456"
    using unat_32_less [of a] by (simp add: div_mult2_eq [symmetric] less_mult_imp_div_less)
  finally show ?thesis by (simp add: in_cidr_unat del: in_cidr.simps)
qed

lemmas octet_cidr =
  octet_loopback octet_ten octet_172 octet_192 octet_169 octet_multicast

text \<open>The IPv6 networks, in the same form.\<close>

fun in_cidr6 :: "128 word \<Rightarrow> 128 word \<times> nat \<Rightarrow> bool" where
  "in_cidr6 w (b, n) = (drop_bit (128 - n) w = drop_bit (128 - n) b)"

lemma in_cidr6_unat:
  "in_cidr6 w (b, n) \<longleftrightarrow> unat w div 2 ^ (128 - n) = unat b div 2 ^ (128 - n)"
  by (simp add: word_unat_eq_iff unat_drop_bit_eq drop_bit_eq_div [where ?'a = nat])

lemma unat_128_less: "unat (w :: 128 word) < 2 ^ 128"
  using unsigned_less [of w] by simp

lemma unat_octet6: "unat (octet6 w) = unat w div 2 ^ 120"
proof -
  have "unat w div 2 ^ 120 < 256"
    using unat_128_less [of w] by (simp add: less_mult_imp_div_less)
  then show ?thesis
    by (simp add: octet6_def unsigned_ucast_eq unat_drop_bit_eq take_bit_eq_mod
        drop_bit_eq_div [where ?'a = nat])
qed

lemma unat_group6: "unat (group6 w) = unat w div 2 ^ 112"
proof -
  have "unat w div 2 ^ 112 < 65536"
    using unat_128_less [of w] by (simp add: less_mult_imp_div_less)
  then show ?thesis
    by (simp add: group6_def unsigned_ucast_eq unat_drop_bit_eq take_bit_eq_mod
        drop_bit_eq_div [where ?'a = nat])
qed

lemma nat_and_shifted: "(n :: nat) AND (2 ^ k * m) = 2 ^ k * (n div 2 ^ k AND m)"
  by (rule bit_eqI) (auto simp: bit_simps bit_and_iff simp flip: push_bit_eq_mult drop_bit_eq_div
      simp: mult.commute [of "2 ^ k"])

lemma octet6_private: "octet6 w AND 0xFE = 0xFC \<longleftrightarrow> in_cidr6 w (0xFC * 2 ^ 120, 7)"
proof -
  have lt: "unat (octet6 w) div 2 < 128"
    using unsigned_less [of "octet6 w", where ?'a = nat] by (simp add: less_mult_imp_div_less)
  have "octet6 w AND 0xFE = 0xFC \<longleftrightarrow> unat (octet6 w) AND 2 ^ 1 * 127 = 252"
    by (simp add: word_unat_eq_iff unsigned_and_eq)
  also have "\<dots> \<longleftrightarrow> 2 * (unat (octet6 w) div 2 mod 2 ^ 7) = 252"
    using take_bit_eq_mask [of 7 "unat (octet6 w) div 2"]
    by (simp only: nat_and_shifted) (simp add: take_bit_eq_mod mask_eq_exp_minus_1)
  also have "\<dots> \<longleftrightarrow> unat w div 2 ^ 120 div 2 = 126"
    using lt by (simp add: unat_octet6)
  finally show ?thesis by (simp add: in_cidr6_unat div_mult2_eq [symmetric] del: in_cidr6.simps)
qed

lemma group6_link_local: "group6 w AND 0xFFC0 = 0xFE80 \<longleftrightarrow> in_cidr6 w (0xFE80 * 2 ^ 112, 10)"
proof -
  have lt: "unat (group6 w) div 64 < 1024"
    using unsigned_less [of "group6 w", where ?'a = nat] by (simp add: less_mult_imp_div_less)
  have "group6 w AND 0xFFC0 = 0xFE80 \<longleftrightarrow> unat (group6 w) AND 2 ^ 6 * 1023 = 65152"
    by (simp add: word_unat_eq_iff unsigned_and_eq)
  also have "\<dots> \<longleftrightarrow> 64 * (unat (group6 w) div 64 mod 2 ^ 10) = 65152"
    using take_bit_eq_mask [of 10 "unat (group6 w) div 64"]
    by (simp only: nat_and_shifted) (simp add: take_bit_eq_mod mask_eq_exp_minus_1)
  also have "\<dots> \<longleftrightarrow> unat w div 2 ^ 112 div 64 = 1018"
    using lt by (simp add: unat_group6)
  finally show ?thesis by (simp add: in_cidr6_unat div_mult2_eq [symmetric] del: in_cidr6.simps)
qed

lemma octet6_multicast: "octet6 w = 0xFF \<longleftrightarrow> in_cidr6 w (0xFF * 2 ^ 120, 8)"
  by (simp add: word_unat_eq_iff unat_octet6 in_cidr6_unat del: in_cidr6.simps)

lemma group6_multicast: "group6 w AND 0xFF0F = 0xFF02 \<Longrightarrow> octet6 w = 0xFF"
proof -
  assume a: "group6 w AND 0xFF0F = 0xFF02"
  have lt: "unat (group6 w) div 256 < 256"
    using unsigned_less [of "group6 w", where ?'a = nat] by (simp add: less_mult_imp_div_less)
  have "group6 w AND 0xFF00 = (group6 w AND 0xFF0F) AND 0xFF00"
    by (simp add: and.assoc)
  also have "\<dots> = 0xFF00" by (simp add: a)
  finally have "unat (group6 w) AND 2 ^ 8 * 255 = 65280"
    by (simp add: word_unat_eq_iff unsigned_and_eq)
  then have "256 * (unat (group6 w) div 256 mod 2 ^ 8) = 65280"
    using take_bit_eq_mask [of 8 "unat (group6 w) div 256"]
    by (simp only: nat_and_shifted) (simp add: take_bit_eq_mod mask_eq_exp_minus_1)
  then have "unat w div 2 ^ 112 div 2 ^ 8 = 255"
    using lt by (simp add: unat_group6)
  then show ?thesis
    by (simp add: word_unat_eq_iff unat_octet6 div_mult2_eq [symmetric])
qed

subsection \<open>Host and port\<close>

text \<open>\<^verbatim>\<open>net.SplitHostPort\<close>. The text of its \<^verbatim>\<open>AddrError\<close> names the address and the cause.\<close>

definition addr_error :: "string \<Rightarrow> string \<Rightarrow> go_error" where
  "addr_error hp why = Err (''address '' @ hp @ '': '' @ why)"

definition split_host_port :: "string \<Rightarrow> (string \<times> string) res" where
  "split_host_port hp =
     (case last_index_byte hp CHR '':'' of
        None \<Rightarrow> Inl (addr_error hp ''missing port in address'')
      | Some i \<Rightarrow>
          if has_prefix hp ''['' then
            (case index_byte hp CHR '']'' of
               None \<Rightarrow> Inl (addr_error hp ''missing ']' in address'')
             | Some e \<Rightarrow>
                 if e + 1 = length hp then Inl (addr_error hp ''missing port in address'')
                 else if e + 1 \<noteq> i then
                   (if hp ! (e + 1) = CHR '':'' then Inl (addr_error hp ''too many colons in address'')
                    else Inl (addr_error hp ''missing port in address''))
                 else if CHR ''['' \<in> set (drop 1 hp)
                   then Inl (addr_error hp ''unexpected '[' in address'')
                 else if CHR '']'' \<in> set (drop (e + 1) hp)
                   then Inl (addr_error hp ''unexpected ']' in address'')
                 else Inr (take (e - 1) (drop 1 hp), drop (i + 1) hp))
          else if CHR '':'' \<in> set (take i hp)
            then Inl (addr_error hp ''too many colons in address'')
          else if CHR ''['' \<in> set hp then Inl (addr_error hp ''unexpected '[' in address'')
          else if CHR '']'' \<in> set hp then Inl (addr_error hp ''unexpected ']' in address'')
          else Inr (take i hp, drop (i + 1) hp))"

text \<open>\<^verbatim>\<open>net.JoinHostPort\<close>: a host with a colon is an IPv6 literal and is bracketed.\<close>

definition join_host_port :: "string \<Rightarrow> string \<Rightarrow> string" where
  "join_host_port h p =
     (if CHR '':'' \<in> set h then ''['' @ h @ '']:'' @ p else h @ '':'' @ p)"

lemma index_byte_Some: "index_byte s d = Some i \<Longrightarrow> i < length s \<and> s ! i = d \<and> d \<notin> set (take i s)"
proof (induction s arbitrary: i)
  case Nil
  then show ?case by simp
next
  case (Cons c s)
  then show ?case by (cases i) (auto split: if_splits)
qed

lemma index_byte_None: "index_byte s d = None \<longleftrightarrow> d \<notin> set s"
  by (induction s) auto

lemma index_byte_first: "d \<notin> set p \<Longrightarrow> index_byte (p @ d # s) d = Some (length p)"
  by (induction p) auto

lemma last_index_byte_last:
  "d \<notin> set s \<Longrightarrow> last_index_byte (p @ d # s) d = Some (length p)"
  using index_byte_first [of d "rev s" "rev p"] by (simp add: last_index_byte_def)

lemma split_join_plain:
  assumes "CHR '':'' \<notin> set h" and "CHR ''['' \<notin> set h" and "CHR '']'' \<notin> set h"
    and "CHR '':'' \<notin> set p" and "CHR ''['' \<notin> set p" and "CHR '']'' \<notin> set p"
  shows "split_host_port (join_host_port h p) = Inr (h, p)"
proof -
  have j: "join_host_port h p = h @ CHR '':'' # p" using assms by (simp add: join_host_port_def)
  have "\<not> has_prefix (h @ CHR '':'' # p) ''[''" using assms(2) by (cases h) auto
  with assms j show ?thesis by (simp add: split_host_port_def last_index_byte_last)
qed

end
