(* ===== verification/Go_Url.thy ===== *)
theory Go_Url
  imports Go_Net
begin

text \<open>
  The part of Go's \<^verbatim>\<open>net/url\<close> the client calls: \<^verbatim>\<open>url.Parse\<close>, \<^verbatim>\<open>URL.String\<close>,
  \<^verbatim>\<open>URL.RequestURI\<close>, \<^verbatim>\<open>Hostname\<close>, \<^verbatim>\<open>Port\<close> and \<^verbatim>\<open>IsAbs\<close>, after the Go release of
  \<^verbatim>\<open>client/go.mod\<close>: a bracketed host must be an IPv6 literal and stands alone, and a host
  without brackets has at most one colon. The fields of \<open>go_url\<close> are those of \<^verbatim>\<open>url.URL\<close>. The
  texts of parse errors are abbreviated to their cause.
\<close>

datatype userinfo = Userinfo string "string option"

record go_url =
  u_scheme :: string
  u_opaque :: string
  u_user :: "userinfo option"
  u_host :: string
  u_path :: string
  u_raw_path :: string
  u_omit_host :: bool
  u_force_query :: bool
  u_raw_query :: string
  u_fragment :: string
  u_raw_fragment :: string

definition empty_url :: go_url where
  "empty_url = \<lparr> u_scheme = [], u_opaque = [], u_user = None, u_host = [], u_path = [],
     u_raw_path = [], u_omit_host = False, u_force_query = False, u_raw_query = [],
     u_fragment = [], u_raw_fragment = [] \<rparr>"

subsection \<open>Escaping\<close>

datatype url_enc = EncPath | EncUser | EncHost | EncZone | EncFragment

definition is_alnum :: "char \<Rightarrow> bool" where
  "is_alnum c = (is_lower c \<or> is_upper c \<or> is_digit c)"

definition should_escape :: "char \<Rightarrow> url_enc \<Rightarrow> bool" where
  "should_escape c m =
     (if is_alnum c then False
      else if (m = EncHost \<or> m = EncZone) \<and> c \<in> set ''!$&()*+,;=:[]<>\"'' \<union> {CHR 0x27} then False
      else if c \<in> set ''-_.~'' then False
      else if c \<in> set ''$&+,/:;=?@'' \<and> m = EncPath then c = CHR ''?''
      else if c \<in> set ''$&+,/:;=?@'' \<and> m = EncUser then c \<in> set ''@/?:''
      else if c \<in> set ''$&+,/:;=?@'' \<and> m = EncFragment then False
      else if m = EncFragment \<and> c \<in> set ''!()*'' then False
      else True)"

definition upper_hex :: "nat \<Rightarrow> char" where
  "upper_hex d = (if d < 10 then char_of (48 + d) else char_of (55 + d))"

definition url_escape :: "string \<Rightarrow> url_enc \<Rightarrow> string" where
  "url_escape s m =
     concat (map (\<lambda>c. if should_escape c m
                      then [CHR ''%'', upper_hex (of_char c div 16), upper_hex (of_char c mod 16)]
                      else [c]) s)"

fun url_unescape :: "string \<Rightarrow> url_enc \<Rightarrow> string option" where
  "url_unescape [] m = Some []"
| "url_unescape (c # r) m =
     (if c = CHR ''%'' then
        (case r of
           h # l # t \<Rightarrow>
             if \<not> is_hex h \<or> \<not> is_hex l then None
             else if m = EncHost \<and> hex_val h < 8 \<and> [h, l] \<noteq> ''25'' then None
             else if m = EncZone \<and> [h, l] \<noteq> ''25'' \<and> 16 * hex_val h + hex_val l \<noteq> 32 \<and>
                     should_escape (char_of (16 * hex_val h + hex_val l)) EncHost then None
             else map_option (Cons (char_of (16 * hex_val h + hex_val l))) (url_unescape t m)
         | _ \<Rightarrow> None)
      else if (m = EncHost \<or> m = EncZone) \<and> is_ascii c \<and> should_escape c m then None
      else map_option (Cons c) (url_unescape r m))"

definition valid_encoded :: "string \<Rightarrow> url_enc \<Rightarrow> bool" where
  "valid_encoded s m =
     list_all (\<lambda>c. c \<in> set ''!$&()*+,;=:@[]%'' \<union> {CHR 0x27} \<or> \<not> should_escape c m) s"

subsection \<open>Parsing\<close>

definition is_letter :: "char \<Rightarrow> bool" where
  "is_letter c = (is_lower c \<or> is_upper c)"

text \<open>\<^verbatim>\<open>getScheme\<close>: the scheme before the first colon, if only scheme characters precede it.\<close>

fun scheme_scan :: "string \<Rightarrow> string \<Rightarrow> (string \<times> string) option" where
  "scheme_scan acc [] = None"
| "scheme_scan acc (c # r) =
     (if is_letter c then scheme_scan (acc @ [c]) r
      else if is_digit c \<or> c \<in> set ''+-.'' then
        (if acc = [] then None else scheme_scan (acc @ [c]) r)
      else if c = CHR '':'' then Some (acc, r)
      else None)"

definition get_scheme :: "string \<Rightarrow> (string \<times> string) res" where
  "get_scheme s =
     (case scheme_scan [] s of
        None \<Rightarrow> Inr ([], s)
      | Some (sch, rest) \<Rightarrow>
          if sch = [] then Inl (Err ''missing protocol scheme'') else Inr (sch, rest))"

definition valid_optional_port :: "string \<Rightarrow> bool" where
  "valid_optional_port p = (p = [] \<or> (hd p = CHR '':'' \<and> list_all is_digit (tl p)))"

definition url_escape_error :: go_error where
  "url_escape_error = Err ''invalid URL escape''"

text \<open>Position of \<^verbatim>\<open>"%25"\<close>, as \<^verbatim>\<open>strings.Index\<close> finds it.\<close>

fun zone_index :: "string \<Rightarrow> nat option" where
  "zone_index [] = None"
| "zone_index (c # s) =
     (if has_prefix (c # s) ''%25'' then Some 0 else map_option Suc (zone_index s))"

definition parse_bracketed_host :: "string \<Rightarrow> string res" where
  "parse_bracketed_host h =
     (case last_index_byte h CHR '']'' of
        None \<Rightarrow> Inl (Err ''missing ']' in host'')
      | Some e \<Rightarrow>
          (let port = drop (e + 1) h; name = take (e - 1) (drop 1 h) in
           if \<not> valid_optional_port port
             then Inl (Err (''invalid port '' @ go_quote port @ '' after host''))
           else
             (let lit = (case zone_index name of
                     Some z \<Rightarrow>
                       (case (url_unescape (take z name) EncHost, url_unescape (drop z name) EncZone) of
                          (Some a, Some b) \<Rightarrow> Some (a @ b)
                        | _ \<Rightarrow> None)
                   | None \<Rightarrow> url_unescape name EncHost)
              in case lit of
                   None \<Rightarrow> Inl url_escape_error
                 | Some l \<Rightarrow>
                     (case parse_addr l of
                        None \<Rightarrow> Inl (Err ''invalid host'')
                      | Some (V4 _) \<Rightarrow> Inl (Err ''invalid IP-literal'')
                      | Some (V6 _ _) \<Rightarrow> Inr (''['' @ l @ '']'' @ port)))))"

definition parse_host :: "string \<Rightarrow> string res" where
  "parse_host h =
     (if has_prefix h ''['' then parse_bracketed_host h
      else if CHR ''['' \<in> set h then Inl (Err ''invalid IP-literal'')
      else
        (case index_byte h CHR '':'' of
           Some i \<Rightarrow>
             if \<not> valid_optional_port (drop i h)
             then Inl (Err (''invalid port '' @ go_quote (drop i h) @ '' after host''))
             else (case url_unescape h EncHost of
                     None \<Rightarrow> Inl url_escape_error | Some u \<Rightarrow> Inr u)
         | None \<Rightarrow>
             (case url_unescape h EncHost of
                None \<Rightarrow> Inl url_escape_error | Some u \<Rightarrow> Inr u)))"

definition valid_userinfo :: "string \<Rightarrow> bool" where
  "valid_userinfo s =
     list_all (\<lambda>c. is_alnum c \<or> c \<in> set ''-._:~!$&()*+,;=%@'' \<union> {CHR 0x27}) s"

definition parse_userinfo :: "string \<Rightarrow> userinfo res" where
  "parse_userinfo s =
     (if \<not> valid_userinfo s then Inl (Err ''net/url: invalid userinfo'')
      else (case cut_byte CHR '':'' s of (n, p, found) \<Rightarrow>
        (case (url_unescape n EncUser, url_unescape p EncUser) of
           (Some n', Some p') \<Rightarrow> Inr (Userinfo n' (if found then Some p' else None))
         | _ \<Rightarrow> Inl url_escape_error)))"

definition parse_authority :: "string \<Rightarrow> (userinfo option \<times> string) res" where
  "parse_authority a =
     (case last_index_byte a CHR ''@'' of
        None \<Rightarrow> (case parse_host a of Inl e \<Rightarrow> Inl e | Inr h \<Rightarrow> Inr (None, h))
      | Some i \<Rightarrow>
          (case parse_host (drop (i + 1) a) of
             Inl e \<Rightarrow> Inl e
           | Inr h \<Rightarrow>
               (case parse_userinfo (take i a) of
                  Inl e \<Rightarrow> Inl e | Inr ui \<Rightarrow> Inr (Some ui, h))))"

definition set_path :: "go_url \<Rightarrow> string \<Rightarrow> go_url res" where
  "set_path u p =
     (case url_unescape p EncPath of
        None \<Rightarrow> Inl url_escape_error
      | Some path \<Rightarrow>
          Inr (u\<lparr> u_path := path,
                  u_raw_path := (if p = url_escape path EncPath then [] else p) \<rparr>))"

definition set_fragment :: "go_url \<Rightarrow> string \<Rightarrow> go_url res" where
  "set_fragment u f =
     (case url_unescape f EncFragment of
        None \<Rightarrow> Inl url_escape_error
      | Some frag \<Rightarrow>
          Inr (u\<lparr> u_fragment := frag,
                  u_raw_fragment := (if f = url_escape frag EncFragment then [] else f) \<rparr>))"

definition has_ctl_byte :: "string \<Rightarrow> bool" where
  "has_ctl_byte s = list_ex (\<lambda>c. of_char c < (32::nat) \<or> c = CHR 0x7F) s"

text \<open>The body of \<^verbatim>\<open>parse\<close> after the scheme and the query have been split off.\<close>

definition parse_hier :: "go_url \<Rightarrow> string \<Rightarrow> go_url res" where
  "parse_hier u rest =
     (if \<not> has_prefix rest ''/'' \<and> u_scheme u \<noteq> [] then Inr (u\<lparr> u_opaque := rest \<rparr>)
      else if \<not> has_prefix rest ''/'' \<and> CHR '':'' \<in> set (fst (cut_byte CHR ''/'' rest))
        then Inl (Err ''first path segment in URL cannot contain colon'')
      else if (u_scheme u \<noteq> [] \<or> \<not> has_prefix rest ''///'') \<and> has_prefix rest ''//'' then
        (let a = drop 2 rest;
             i = (case index_byte a CHR ''/'' of Some i \<Rightarrow> i | None \<Rightarrow> length a)
         in case parse_authority (take i a) of
              Inl e \<Rightarrow> Inl e
            | Inr (ui, h) \<Rightarrow> set_path (u\<lparr> u_user := ui, u_host := h \<rparr>) (drop i a))
      else if u_scheme u \<noteq> [] \<and> has_prefix rest ''/''
        then set_path (u\<lparr> u_omit_host := True \<rparr>) rest
      else set_path u rest)"

definition split_query :: "string \<Rightarrow> string \<times> string \<times> bool" where
  "split_query rest =
     (if has_suffix rest ''?'' \<and> count_list rest CHR ''?'' = 1 then (butlast rest, [], True)
      else (case cut_byte CHR ''?'' rest of (a, q, _) \<Rightarrow> (a, q, False)))"

definition parse_no_frag :: "string \<Rightarrow> go_url res" where
  "parse_no_frag raw =
     (if has_ctl_byte raw then Inl (Err ''net/url: invalid control character in URL'')
      else if raw = ''*'' then Inr (empty_url\<lparr> u_path := ''*'' \<rparr>)
      else (case get_scheme raw of
          Inl e \<Rightarrow> Inl e
        | Inr (sch, rest) \<Rightarrow>
            (case split_query rest of (hier, q, force) \<Rightarrow>
               parse_hier (empty_url\<lparr> u_scheme := go_lower sch, u_force_query := force,
                                      u_raw_query := q \<rparr>) hier)))"

definition url_parse :: "string \<Rightarrow> go_url res" where
  "url_parse raw =
     (case cut_byte CHR ''#'' raw of (u, frag, _) \<Rightarrow>
        (case parse_no_frag u of
           Inl e \<Rightarrow> Inl (wrap_err (''parse '' @ go_quote u @ '': '') e)
         | Inr url \<Rightarrow>
             if frag = [] then Inr url
             else (case set_fragment url frag of
                     Inl e \<Rightarrow> Inl (wrap_err (''parse '' @ go_quote raw @ '': '') e)
                   | Inr url' \<Rightarrow> Inr url')))"

subsection \<open>Reading and printing\<close>

definition url_split_port :: "string \<Rightarrow> string \<times> string" where
  "url_split_port hp =
     (case (case last_index_byte hp CHR '':'' of
              None \<Rightarrow> (hp, [])
            | Some i \<Rightarrow>
                if valid_optional_port (drop i hp) then (take i hp, drop (i + 1) hp) else (hp, []))
      of (h, p) \<Rightarrow>
        (if has_prefix h ''['' \<and> has_suffix h '']'' then (butlast (drop 1 h), p) else (h, p)))"

definition url_hostname :: "go_url \<Rightarrow> string" where
  "url_hostname u = fst (url_split_port (u_host u))"

definition url_port :: "go_url \<Rightarrow> string" where
  "url_port u = snd (url_split_port (u_host u))"

definition url_is_abs :: "go_url \<Rightarrow> bool" where
  "url_is_abs u = (u_scheme u \<noteq> [])"

definition escaped_path :: "go_url \<Rightarrow> string" where
  "escaped_path u =
     (if u_raw_path u \<noteq> [] \<and> valid_encoded (u_raw_path u) EncPath \<and>
         url_unescape (u_raw_path u) EncPath = Some (u_path u)
      then u_raw_path u
      else if u_path u = ''*'' then ''*''
      else url_escape (u_path u) EncPath)"

definition escaped_fragment :: "go_url \<Rightarrow> string" where
  "escaped_fragment u =
     (if u_raw_fragment u \<noteq> [] \<and> valid_encoded (u_raw_fragment u) EncFragment \<and>
         url_unescape (u_raw_fragment u) EncFragment = Some (u_fragment u)
      then u_raw_fragment u
      else url_escape (u_fragment u) EncFragment)"

fun userinfo_string :: "userinfo \<Rightarrow> string" where
  "userinfo_string (Userinfo n None) = url_escape n EncUser"
| "userinfo_string (Userinfo n (Some p)) = url_escape n EncUser @ '':'' @ url_escape p EncUser"

definition query_string :: "go_url \<Rightarrow> string" where
  "query_string u = (if u_force_query u \<or> u_raw_query u \<noteq> [] then ''?'' @ u_raw_query u else [])"

definition authority_string :: "go_url \<Rightarrow> string" where
  "authority_string u =
     (if (u_scheme u = [] \<and> u_host u = [] \<and> u_user u = None) \<or>
         (u_omit_host u \<and> u_host u = [] \<and> u_user u = None) then []
      else (if u_host u \<noteq> [] \<or> u_path u \<noteq> [] \<or> u_user u \<noteq> None then ''//'' else []) @
           (case u_user u of None \<Rightarrow> [] | Some ui \<Rightarrow> userinfo_string ui @ ''@'') @
           url_escape (u_host u) EncHost)"

definition url_string :: "go_url \<Rightarrow> string" where
  "url_string u =
     (let sch = (if u_scheme u \<noteq> [] then u_scheme u @ '':'' else []);
          path = escaped_path u;
          lead = sch @ authority_string u @
            (if path \<noteq> [] \<and> hd path \<noteq> CHR ''/'' \<and> u_host u \<noteq> [] then ''/'' else [])
      in (if u_opaque u \<noteq> [] then sch @ u_opaque u
          else lead @
            (if lead = [] \<and> CHR '':'' \<in> set (fst (cut_byte CHR ''/'' path)) then ''./'' else []) @
            path) @
         query_string u @
         (if u_fragment u \<noteq> [] then ''#'' @ escaped_fragment u else []))"

definition request_uri :: "go_url \<Rightarrow> string" where
  "request_uri u =
     (if u_opaque u = [] then (if escaped_path u = [] then ''/'' else escaped_path u)
      else if has_prefix (u_opaque u) ''//'' then u_scheme u @ '':'' @ u_opaque u
      else u_opaque u) @ query_string u"

end
