(* ===== verification/Agent_Redact.thy ===== *)
theory Agent_Redact
  imports Protocol Go_Url
begin

text \<open>
  What the agent removes from a result before it is delivered: \<^verbatim>\<open>errorResult\<close>,
  \<^verbatim>\<open>redactSecretText\<close>, \<^verbatim>\<open>redactSensitiveHeaders\<close>, \<^verbatim>\<open>redactURLCredentials\<close>,
  \<^verbatim>\<open>cloneResultForRequest\<close> and \<^verbatim>\<open>sanitizeResult\<close> of \<^verbatim>\<open>client/internal/agent/agent.go\<close>.

  The two regular expressions are modelled by the length of their match at the head of a text
  (0 for no match): both are deterministic after the choice of the name, since the character
  classes that follow each other are disjoint. \<^verbatim>\<open>ReplaceAllStringFunc\<close> is the scan for the
  leftmost match. Names are matched by the simple case folding of \<^verbatim>\<open>(?i)\<close>.
\<close>

subsection \<open>Redaction of texts\<close>

definition redacted_value :: string where
  "redacted_value = ''[REDACTED]''"

definition sensitive_header_names :: "string list" where
  "sensitive_header_names =
     [''authorization'', ''proxy-authorization'', ''cookie'', ''set-cookie'', ''x-api-key'']"

definition secret_param_names :: "string list" where
  "secret_param_names =
     [''token'', ''access_token'', ''id_token'', ''client_secret'', ''password'']"

text \<open>The class \<^verbatim>\<open>\s\<close> of Go's regular expressions.\<close>

definition re_space :: "char \<Rightarrow> bool" where
  "re_space c = (c \<in> set [CHR 0x09, CHR 0x0A, CHR 0x0C, CHR 0x0D, CHR '' ''])"

definition header_value_char :: "char \<Rightarrow> bool" where
  "header_value_char c = (c \<noteq> CHR '','' \<and> c \<noteq> CHR '';'' \<and> \<not> re_space c)"

definition param_value_char :: "char \<Rightarrow> bool" where
  "param_value_char c = (c \<noteq> CHR ''&'' \<and> \<not> re_space c)"

text \<open>\<^verbatim>\<open>name\s*[:=]\s*[^,\s;]+\<close> and \<^verbatim>\<open>name=([^&\s]+)\<close> at the head of a text.\<close>

definition header_pattern_at :: "string \<Rightarrow> string \<Rightarrow> nat" where
  "header_pattern_at name s =
     (case fold_match name s of
        None \<Rightarrow> 0
      | Some r \<Rightarrow>
          (case dropWhile re_space r of
             [] \<Rightarrow> 0
           | c # r2 \<Rightarrow>
               if c = CHR '':'' \<or> c = CHR ''='' then
                 (let r3 = dropWhile re_space r2; v = takeWhile header_value_char r3 in
                  if v = [] then 0 else length s - length r3 + length v)
               else 0))"

definition param_pattern_at :: "string \<Rightarrow> string \<Rightarrow> nat" where
  "param_pattern_at name s =
     (case fold_match name s of
        None \<Rightarrow> 0
      | Some r \<Rightarrow>
          (case r of
             [] \<Rightarrow> 0
           | c # r2 \<Rightarrow>
               if c = CHR ''='' then
                 (let v = takeWhile param_value_char r2 in
                  if v = [] then 0 else length s - length r2 + length v)
               else 0))"

fun first_alternative :: "(string \<Rightarrow> string \<Rightarrow> nat) \<Rightarrow> string list \<Rightarrow> string \<Rightarrow> nat" where
  "first_alternative m [] s = 0"
| "first_alternative m (name # names) s =
     (if m name s \<noteq> 0 then m name s else first_alternative m names s)"

definition secret_redaction_patterns :: "(string \<Rightarrow> nat) list" where
  "secret_redaction_patterns =
     [first_alternative header_pattern_at sensitive_header_names,
      first_alternative param_pattern_at secret_param_names]"

definition redact_match :: "string \<Rightarrow> string" where
  "redact_match m =
     (let separator = (if contains_str m ''='' then CHR ''='' else CHR '':'');
          head = fst (cut_byte separator m)
      in if separator = CHR ''='' then trim_space head @ [separator] @ redacted_value
         else trim_space head @ [separator] @ '' '' @ redacted_value)"

function replace_all :: "(string \<Rightarrow> nat) \<Rightarrow> string \<Rightarrow> string" where
  "replace_all m [] = []"
| "replace_all m (c # s) =
     (if m (c # s) = 0 then c # replace_all m s
      else redact_match (take (m (c # s)) (c # s)) @ replace_all m (drop (m (c # s)) (c # s)))"
  by pat_completeness auto
termination by (relation "measure (length \<circ> snd)") auto

definition redact_secret_text :: "string \<Rightarrow> string" where
  "redact_secret_text text = fold replace_all secret_redaction_patterns text"

subsection \<open>Results\<close>

definition error_result :: "string \<Rightarrow> string \<Rightarrow> string \<Rightarrow> request_result" where
  "error_result request_id code message =
     \<lparr> rr_request_id = request_id, rr_ok = False, rr_response = None,
       rr_error = Some \<lparr> re_code = code, re_message = redact_secret_text message \<rparr> \<rparr>"

definition clone_headers :: "string gomap \<Rightarrow> string gomap" where
  "clone_headers headers =
     (if headers = [] then [] else fold (\<lambda>(k, v). AList.update k v) headers [])"

definition clone_result_for_request :: "request_result \<Rightarrow> string \<Rightarrow> request_result" where
  "clone_result_for_request result request_id =
     \<lparr> rr_request_id = request_id, rr_ok = rr_ok result,
       rr_response = map_option (\<lambda>r.
         \<lparr> hr_status = hr_status r, hr_headers = clone_headers (hr_headers r),
           hr_body = \<lparr> rsb_encoding = rsb_encoding (hr_body r), rsb_data = rsb_data (hr_body r),
                       rsb_bytes = rsb_bytes (hr_body r), rsb_truncated = rsb_truncated (hr_body r) \<rparr>,
           hr_url = hr_url r, hr_timing_ms = hr_timing_ms r \<rparr>) (rr_response result),
       rr_error = map_option (\<lambda>e.
         \<lparr> re_code = re_code e, re_message = re_message e \<rparr>) (rr_error result) \<rparr>"

definition redact_sensitive_headers :: "string gomap \<Rightarrow> string gomap" where
  "redact_sensitive_headers headers =
     (if headers = [] then headers
      else fold (\<lambda>(key, val) safe.
             if go_lower (trim_space key) \<in> set sensitive_header_names
             then AList.update key redacted_value safe
             else AList.update key val safe) headers [])"

definition redact_url_credentials :: "string \<Rightarrow> string" where
  "redact_url_credentials raw_url =
     (case url_parse raw_url of
        Inl e \<Rightarrow> raw_url
      | Inr parsed \<Rightarrow>
          if u_user parsed = None then raw_url
          else url_string (parsed \<lparr> u_user := None \<rparr>))"

definition sanitize_result :: "request_result \<Rightarrow> request_result" where
  "sanitize_result result =
     (let sanitized = clone_result_for_request result (rr_request_id result);
          sanitized = sanitized \<lparr> rr_error := map_option
            (\<lambda>e. e \<lparr> re_message := redact_secret_text (re_message e) \<rparr>) (rr_error sanitized) \<rparr>
      in sanitized \<lparr> rr_response := map_option
            (\<lambda>r. r \<lparr> hr_headers := redact_sensitive_headers (hr_headers r),
                     hr_url := redact_url_credentials (hr_url r) \<rparr>) (rr_response sanitized) \<rparr>)"

subsection \<open>Header maps\<close>

lemma fold_update_fresh:
  "distinct (map fst hs) \<Longrightarrow> fst ` set hs \<inter> fst ` set acc = {} \<Longrightarrow>
     fold (\<lambda>(k, v). AList.update k (f k v)) hs acc = acc @ map (\<lambda>(k, v). (k, f k v)) hs"
proof (induction hs arbitrary: acc)
  case Nil
  then show ?case by simp
next
  case (Cons h hs)
  obtain k v where h: "h = (k, v)" by fastforce
  from Cons.prems have "k \<notin> fst ` set acc" by (simp add: h)
  then have "AList.update k (f k v) acc = acc @ [(k, f k v)]"
    by (induction acc) auto
  with Cons show ?case by (auto simp: h)
qed

lemma clone_headers_id: "gomap_ok hs \<Longrightarrow> clone_headers hs = hs"
  using fold_update_fresh [of hs "[]" "\<lambda>k v. v"] by (simp add: clone_headers_def gomap_ok_def)

definition redact_header :: "string \<Rightarrow> string \<Rightarrow> string" where
  "redact_header key val =
     (if go_lower (trim_space key) \<in> set sensitive_header_names then redacted_value else val)"

lemma redact_headers_map:
  assumes "gomap_ok hs"
  shows "redact_sensitive_headers hs = map (\<lambda>(k, v). (k, redact_header k v)) hs"
proof -
  have "(\<lambda>(key, val) safe.
      if go_lower (trim_space key) \<in> set sensitive_header_names
      then AList.update key redacted_value safe else AList.update key val safe) =
      (\<lambda>(k, v). AList.update k (redact_header k v))"
    by (auto simp: redact_header_def fun_eq_iff)
  then show ?thesis
    using fold_update_fresh [of hs "[]" redact_header] assms
    by (simp add: redact_sensitive_headers_def gomap_ok_def)
qed

text \<open>A result whose header map is a map, as every decoded result has.\<close>

definition result_maps_ok :: "request_result \<Rightarrow> bool" where
  "result_maps_ok r \<longleftrightarrow> (\<forall>resp. rr_response r = Some resp \<longrightarrow> gomap_ok (hr_headers resp))"

lemma clone_result_id: "result_maps_ok r \<Longrightarrow> clone_result_for_request r i = r \<lparr> rr_request_id := i \<rparr>"
  by (cases "rr_response r"; cases "rr_error r")
     (auto simp: clone_result_for_request_def clone_headers_id result_maps_ok_def)

lemma clone_shape [simp]: "result_shape (clone_result_for_request r i) = result_shape r"
  by (auto simp: result_shape_def clone_result_for_request_def)

lemma clone_id_ok [simp]:
  "rr_request_id (clone_result_for_request r i) = i"
  "rr_ok (clone_result_for_request r i) = rr_ok r"
  by (simp_all add: clone_result_for_request_def)

lemma sanitize_shape [simp]: "result_shape (sanitize_result r) = result_shape r"
  by (auto simp: result_shape_def sanitize_result_def clone_result_for_request_def Let_def)

lemma sanitize_id_ok [simp]:
  "rr_request_id (sanitize_result r) = rr_request_id r" "rr_ok (sanitize_result r) = rr_ok r"
  by (simp_all add: sanitize_result_def Let_def)

lemma error_result_simps [simp]:
  "rr_request_id (error_result i c m) = i" "rr_ok (error_result i c m) = False"
  "result_shape (error_result i c m)"
  by (simp_all add: error_result_def result_shape_def)

subsection \<open>What is left of a secret parameter\<close>

text \<open>
  \<open>param_secret s v\<close>: a text that begins with one of the five parameter names, an equals sign
  and at least one byte of a value, \<open>v\<close> being everything after the equals sign.
\<close>

definition param_secret :: "string \<Rightarrow> string \<Rightarrow> bool" where
  "param_secret s v \<longleftrightarrow>
     (\<exists>name \<in> set secret_param_names. fold_match name s = Some (CHR ''='' # v)) \<and>
     v \<noteq> [] \<and> param_value_char (hd v)"

abbreviation param_pattern :: "string \<Rightarrow> nat" where
  "param_pattern \<equiv> first_alternative param_pattern_at secret_param_names"

lemma first_alternative_zero: "first_alternative m names s = 0 \<longleftrightarrow> (\<forall>n \<in> set names. m n s = 0)"
  by (induction names) auto

lemma first_alternative_in:
  "first_alternative m names s \<noteq> 0 \<Longrightarrow> \<exists>n \<in> set names. first_alternative m names s = m n s"
  by (induction names) (auto split: if_splits)

lemma param_pattern_secret:
  assumes "param_secret s v"
  shows "param_pattern s \<noteq> 0"
proof -
  from assms obtain name where n: "name \<in> set secret_param_names"
    "fold_match name s = Some (CHR ''='' # v)" "v \<noteq> []" "param_value_char (hd v)"
    by (auto simp: param_secret_def)
  then have "param_pattern_at name s \<noteq> 0"
    by (cases v) (simp_all add: param_pattern_at_def Let_def)
  with n(1) show ?thesis
    by (metis first_alternative_zero)
qed

lemma fold_match_append:
  "fold_match (a @ b) s = (case fold_match a s of None \<Rightarrow> None | Some r \<Rightarrow> fold_match b r)"
  by (induction a arbitrary: s) (auto split: option.splits)

lemma fold_step_letter:
  assumes "lower_byte d \<noteq> CHR ''k''" and "lower_byte d \<noteq> CHR ''s''"
  shows "fold_step d s = Some r \<longleftrightarrow> (\<exists>c. s = c # r \<and> lower_byte c = lower_byte d)"
  using assms by (cases s) (auto simp: fold_step_def)

text \<open>The names begin and end with letters that fold to a single byte.\<close>

definition plain_ends :: "string \<Rightarrow> bool" where
  "plain_ends name =
     (case name of
        [] \<Rightarrow> False
      | d # ds \<Rightarrow>
          ds \<noteq> [] \<and> lower_byte d = d \<and> is_lower d \<and> d \<notin> set ''ks'' \<and>
          lower_byte (last ds) = last ds \<and> is_lower (last ds) \<and> last ds \<notin> set ''ks'' \<and>
          CHR ''='' \<notin> lower_byte ` set (d # ds) \<and> CHR '']'' \<notin> lower_byte ` set (d # ds))"

lemma secret_names_plain: "name \<in> set secret_param_names \<Longrightarrow> plain_ends name"
proof -
  have "list_all plain_ends secret_param_names" by code_simp
  then show "name \<in> set secret_param_names \<Longrightarrow> plain_ends name" by (simp add: list_all_iff)
qed

lemma lower_plain: "is_lower (lower_byte c) \<Longrightarrow> plain_char c"
  by (cases "is_upper c")
     (auto simp: lower_byte_def plain_char_def is_lower_def is_upper_def of_char_le_iff ascii_space_def)

lemma equals_byte: "is_ascii (CHR ''='')" "lower_byte (CHR ''='') = CHR ''=''"
  "is_ascii (CHR '']'')" "lower_byte (CHR '']'') = CHR '']''"
  by code_simp+

lemma match_head:
  assumes "plain_ends name" and "fold_match name s = Some r"
  obtains t where "s = t @ r" "t \<noteq> []" "trim_space t = t" "CHR ''='' \<notin> set t" "CHR '']'' \<notin> set t"
    "\<And>r'. fold_match name (t @ r') = Some r'"
proof -
  from assms(1) obtain d ds where n: "name = d # ds" "ds \<noteq> []" by (cases name) (auto simp: plain_ends_def)
  then have ds: "name = d # butlast ds @ [last ds]" by simp
  from assms(1) have d: "lower_byte d = d" "is_lower d" "d \<noteq> CHR ''k''" "d \<noteq> CHR ''s''"
    and e: "lower_byte (last ds) = last ds" "is_lower (last ds)" "last ds \<noteq> CHR ''k''" "last ds \<noteq> CHR ''s''"
    and eq: "CHR ''='' \<notin> lower_byte ` set name" "CHR '']'' \<notin> lower_byte ` set name"
    by (auto simp: plain_ends_def n)
  from assms(2) obtain u v where u: "fold_step d s = Some u" "fold_match (butlast ds) u = Some v"
    "fold_step (last ds) v = Some r"
    by (subst (asm) ds) (auto simp: fold_match_append split: option.splits)
  from u(1) d obtain c where c: "s = c # u" "lower_byte c = d" by (auto simp: fold_step_letter)
  from u(3) e obtain c' where c': "v = c' # r" "lower_byte c' = last ds" by (auto simp: fold_step_letter)
  from fold_match_suffix [OF u(2)] obtain w where w: "u = w @ v" by blast
  let ?t = "c # w @ [c']"
  have s: "s = ?t @ r" by (simp add: c c' w)
  have "trim_space ?t = ?t"
    using lower_plain [of c] lower_plain [of c'] c(2) c'(2) d(2) e(2)
    by (intro trim_space_plain_ends) auto
  moreover from fold_match_bytes [OF assms(2)] s have "\<forall>x \<in> set ?t. is_ascii x \<longrightarrow> lower_byte x \<in> lower_byte ` set name"
    by auto
  with eq have "CHR ''='' \<notin> set ?t" "CHR '']'' \<notin> set ?t"
    using equals_byte by metis+
  moreover from fold_match_local [OF assms(2)] s have "\<And>r'. fold_match name (?t @ r') = Some r'"
    by auto
  ultimately show thesis using that [of ?t] s by blast
qed

lemma cut_byte_at: "d \<notin> set t \<Longrightarrow> cut_byte d (t @ d # v) = (t, v, True)"
  by (induction t) auto

lemma contains_str_byte: "contains_str s [c] \<longleftrightarrow> c \<in> set s"
  by (auto simp: contains_str_iff in_set_conv_decomp)

lemma redact_param_match:
  assumes "param_pattern s \<noteq> 0"
  obtains t v where "CHR ''='' \<notin> set t" "s = t @ CHR ''='' # v"
    "redact_match (take (param_pattern s) s) = t @ CHR ''='' # redacted_value"
proof -
  from first_alternative_in [OF assms] assms obtain name where n: "name \<in> set secret_param_names"
    and m: "param_pattern s = param_pattern_at name s" "param_pattern_at name s \<noteq> 0" by auto
  from m(2) obtain r where r: "fold_match name s = Some (CHR ''='' # r)"
    by (auto simp: param_pattern_at_def split: option.splits list.splits if_splits)
  define v where "v = takeWhile param_value_char r"
  from match_head [OF secret_names_plain [OF n] r] obtain t where
    t: "s = t @ CHR ''='' # r" "trim_space t = t" "CHR ''='' \<notin> set t" by metis
  have "param_pattern s = length (t @ CHR ''='' # v)"
    using m r by (auto simp: param_pattern_at_def v_def [symmetric] t(1) Let_def split: if_splits)
  moreover have "s = (t @ CHR ''='' # v) @ dropWhile param_value_char r"
    by (simp add: t(1) v_def)
  ultimately have "take (param_pattern s) s = t @ CHR ''='' # v"
    by (metis append_eq_conv_conj)
  then have "redact_match (take (param_pattern s) s) = t @ CHR ''='' # redacted_value"
    using t(2,3) by (simp add: redact_match_def contains_str_byte cut_byte_at Let_def)
  with t that show thesis by blast
qed

definition agrees :: "string \<Rightarrow> string \<Rightarrow> bool" where
  "agrees s t \<longleftrightarrow>
     s = t \<or> (\<exists>x y z. s = x @ CHR ''='' # y \<and> t = x @ CHR ''='' # redacted_value @ z)"

lemma agrees_Cons: "agrees s t \<Longrightarrow> agrees (c # s) (c # t)"
  unfolding agrees_def by (metis append_Cons)

lemma replace_params_agrees: "agrees s (replace_all param_pattern s)"
proof (induction "param_pattern" s rule: replace_all.induct)
  case 1
  then show ?case by (simp add: agrees_def)
next
  case (2 c s)
  show ?case
  proof (cases "param_pattern (c # s) = 0")
    case True
    with 2 show ?thesis by (simp add: agrees_Cons)
  next
    case False
    from redact_param_match [OF False] obtain t v where
      "c # s = t @ CHR ''='' # v"
      "redact_match (take (param_pattern (c # s)) (c # s)) = t @ CHR ''='' # redacted_value" by metis
    moreover from this(2) False have "\<exists>z. replace_all param_pattern (c # s) = t @ CHR ''='' # redacted_value @ z"
      by simp
    ultimately show ?thesis unfolding agrees_def by metis
  qed
qed

lemma append_sep_cases:
  "t @ c # r = x @ c # w \<Longrightarrow> c \<notin> set t \<Longrightarrow>
     (t = x \<and> r = w) \<or> (\<exists>u. x = t @ c # u \<and> r = u @ c # w)"
proof (induction t arbitrary: x)
  case Nil
  then show ?case by (cases x) auto
next
  case (Cons d t)
  then show ?case by (cases x) auto
qed

lemma agrees_secret:
  assumes "agrees s q" and "param_secret q v" and "param_pattern s = 0"
  shows "has_prefix v redacted_value"
proof (cases "s = q")
  case True
  with assms param_pattern_secret show ?thesis by metis
next
  case False
  with assms(1) obtain x y z where s: "s = x @ CHR ''='' # y" and q: "q = x @ CHR ''='' # redacted_value @ z"
    by (auto simp: agrees_def)
  from assms(2) obtain name where n: "name \<in> set secret_param_names"
    "fold_match name q = Some (CHR ''='' # v)" "param_value_char (hd v)"
    by (auto simp: param_secret_def)
  from match_head [OF secret_names_plain [OF n(1)] n(2)] obtain t where
    t: "q = t @ CHR ''='' # v" "CHR ''='' \<notin> set t" "\<And>r'. fold_match name (t @ r') = Some r'" by metis
  from t(1) q have "t @ CHR ''='' # v = x @ CHR ''='' # redacted_value @ z" by simp
  then consider "t = x" "v = redacted_value @ z"
    | u where "x = t @ CHR ''='' # u" "v = u @ CHR ''='' # redacted_value @ z"
    using append_sep_cases [of t "CHR ''=''" v x "redacted_value @ z"] t(2) by auto
  then show ?thesis
  proof cases
    case 1
    then show ?thesis by simp
  next
    case 2
    then have "s = t @ CHR ''='' # u @ CHR ''='' # y" by (simp add: s)
    with t(3) have "fold_match name s = Some (CHR ''='' # u @ CHR ''='' # y)" by simp
    moreover have "hd (u @ CHR ''='' # y) = hd v" by (cases u) (simp_all add: 2)
    ultimately have "param_secret s (u @ CHR ''='' # y)"
      using n(1,3) by (auto simp: param_secret_def)
    with assms(3) param_pattern_secret show ?thesis by metis
  qed
qed

lemma redacted_no_equals: "CHR ''='' \<notin> set redacted_value"
  by (simp add: redacted_value_def)

lemma split_once: "t @ c # r = x @ c # w \<Longrightarrow> c \<notin> set t \<Longrightarrow> c \<notin> set r \<Longrightarrow> w = r"
  using append_sep_cases [of t c r x w] by auto

lemma replace_params_safe:
  "replace_all param_pattern s = p @ q \<Longrightarrow> param_secret q v \<Longrightarrow> has_prefix v redacted_value"
proof (induction "param_pattern" s arbitrary: p rule: replace_all.induct)
  case 1
  then show ?case by (auto simp: param_secret_def)
     (metis fold_match_local append_is_Nil_conv list.discI)
next
  case (2 c s)
  show ?case
  proof (cases "param_pattern (c # s) = 0")
    case True
    show ?thesis
    proof (cases p)
      case Nil
      with 2 have "q = replace_all param_pattern (c # s)" by simp
      with replace_params_agrees [of "c # s"] have "agrees (c # s) q" by simp
      with True "2.prems"(2) show ?thesis by (metis agrees_secret)
    next
      case (Cons d p')
      with "2.prems"(1) True have "replace_all param_pattern s = p' @ q" by simp
      with "2.hyps"(1) [OF True] "2.prems"(2) show ?thesis by blast
    qed
  next
    case False
    let ?rest = "drop (param_pattern (c # s)) (c # s)"
    from redact_param_match [OF False] obtain t where t: "CHR ''='' \<notin> set t"
      "redact_match (take (param_pattern (c # s)) (c # s)) = t @ CHR ''='' # redacted_value" by metis
    let ?a = "t @ CHR ''='' # redacted_value"
    from "2.prems"(1) False t(2) have "p @ q = ?a @ replace_all param_pattern ?rest" by simp
    then obtain us where "p = ?a @ us \<and> us @ q = replace_all param_pattern ?rest \<or>
        p @ us = ?a \<and> q = us @ replace_all param_pattern ?rest"
      unfolding append_eq_append_conv2 [of p q ?a] by blast
    then consider u where "replace_all param_pattern ?rest = u @ q"
      | u where "?a = p @ u" "u \<noteq> []" "q = u @ replace_all param_pattern ?rest"
      by (metis append_Nil)
    then show ?thesis
    proof cases
      case 1
      with "2.hyps"(2) [OF False] "2.prems"(2) show ?thesis by blast
    next
      case 2
      from "2.prems"(2) obtain name where n: "name \<in> set secret_param_names"
        "fold_match name q = Some (CHR ''='' # v)" by (auto simp: param_secret_def)
      from match_head [OF secret_names_plain [OF n(1)] n(2)] obtain t' where
        t': "q = t' @ CHR ''='' # v" "CHR ''='' \<notin> set t'" "CHR '']'' \<notin> set t'" by metis
      have "last ?a = CHR '']''" by (simp add: redacted_value_def)
      with 2(1,2) have "CHR '']'' \<in> set u" by (metis last_appendR last_in_set)
      with 2(3) t' obtain w where w: "u = t' @ CHR ''='' # w"
        "v = w @ replace_all param_pattern ?rest"
        by (auto simp: append_eq_append_conv2 Cons_eq_append_conv)
      from 2(1) w(1) have "t @ CHR ''='' # redacted_value = (p @ t') @ CHR ''='' # w" by simp
      with t(1) redacted_no_equals have "w = redacted_value" by (metis split_once)
      with w(2) show ?thesis by simp
    qed
  qed
qed

subsection \<open>Properties\<close>

lemma redact_secret_text_eq:
  "redact_secret_text s =
     replace_all param_pattern (replace_all (first_alternative header_pattern_at sensitive_header_names) s)"
  by (simp add: redact_secret_text_def secret_redaction_patterns_def)





text \<open>
  The header pattern is weaker. A value that holds an equals sign is kept up to that sign, and a
  value of two words keeps its second word.
\<close>

lemma redact_header_text_two_words: "redact_secret_text ''cookie: a b'' = ''cookie: [REDACTED] b''"
  by code_simp

lemma redact_header_text_equals: "redact_secret_text ''cookie: k=='' = ''cookie: k=[REDACTED]''"
  by code_simp

end
