(* ===== verification/Agent_State.thy ===== *)
theory Agent_State
  imports Agent_Redact
begin

text \<open>
  The state of the agent (\<^verbatim>\<open>client/internal/agent/agent.go\<close>): its settings, counters, queue and
  response cache, \<^verbatim>\<open>New\<close>, \<^verbatim>\<open>Snapshot\<close>, the \<^verbatim>\<open>record...\<close> methods, the cache methods and the
  backpressure window.

  The world the agent reads is part of its state: \<open>ag_clock\<close> is the sequence of instants
  \<^verbatim>\<open>time.Now\<close> will return and \<open>ag_reads\<close> how many were taken; \<open>ag_entropy\<close> is the sequence of
  outcomes of \<^verbatim>\<open>rand.Read\<close> (\<open>None\<close> for an error) and \<open>ag_draws\<close> how many were taken. A result
  channel is a number, and \<open>ag_sends\<close> is the list of all sends on result channels so far. The
  \<^verbatim>\<open>uint64\<close> counters are 64-bit words. Log output is left out.
\<close>

subsection \<open>Settings and state\<close>

definition max_worker_concurrency_limit :: int where
  "max_worker_concurrency_limit = 8"

definition reliability_fail_closed :: string where
  "reliability_fail_closed = ''fail_closed''"

definition reliability_fail_open :: string where
  "reliability_fail_open = ''fail_open''"

record settings =
  as_batch_interval :: duration
  as_request_timeout :: duration
  as_max_request_body_bytes :: int
  as_max_response_bytes :: int
  as_worker_concurrency :: int
  as_max_worker_concurrency :: int
  as_max_batch_requests :: int
  as_max_batch_bytes :: int
  as_max_queue_requests :: int
  as_cache_ttl :: duration
  as_cache_max_entries :: int
  as_stale_if_error_ttl :: duration
  as_backpressure_cooldown :: duration
  as_reliability_mode :: string

record pending_request =
  pr_request :: request_item
  pr_result_ch :: nat

record dispatch_unit =
  du_primary :: pending_request
  du_duplicates :: "pending_request list"
  du_cache_key :: string
  du_cacheable :: bool

record cache_entry =
  en_expires_at :: time
  en_result :: request_result
  en_stored_at :: time

record runtime_state =
  rt_started_at :: string
  rt_pending_in_batch_buffer :: int
  rt_dispatch_in_flight :: bool
  rt_last_batch_id :: string
  rt_last_batch_sent_at :: string
  rt_last_batch_request_count :: int
  rt_last_dispatch_error :: string
  rt_last_dispatch_error_code :: string
  rt_last_dispatch_error_at :: string
  rt_last_result_at :: string
  rt_last_batch_completed_at :: string
  rt_last_batch_latency_ms :: int
  rt_total_submitted :: "64 word"
  rt_total_local_rejected :: "64 word"
  rt_total_dispatched_batches :: "64 word"
  rt_total_dispatched_requests :: "64 word"
  rt_total_completed :: "64 word"
  rt_total_failed :: "64 word"
  rt_total_cache_hits :: "64 word"
  rt_total_deduplicated :: "64 word"
  rt_total_fail_open_served :: "64 word"
  rt_backpressure_until :: time
  rt_backpressure_reason :: string

record agent =
  ag_settings :: settings
  ag_queue :: "pending_request list"
  ag_runtime :: runtime_state
  ag_cache :: "cache_entry gomap"
  ag_sends :: "(nat \<times> request_result) list"
  ag_clock :: "nat \<Rightarrow> time"
  ag_reads :: nat
  ag_entropy :: "nat \<Rightarrow> string option"
  ag_draws :: nat

text \<open>The zero \<^verbatim>\<open>time.Time\<close> is the instant 0.\<close>

definition zero_runtime :: "string \<Rightarrow> runtime_state" where
  "zero_runtime started_at =
     \<lparr> rt_started_at = started_at, rt_pending_in_batch_buffer = 0, rt_dispatch_in_flight = False,
       rt_last_batch_id = [], rt_last_batch_sent_at = [], rt_last_batch_request_count = 0,
       rt_last_dispatch_error = [], rt_last_dispatch_error_code = [],
       rt_last_dispatch_error_at = [], rt_last_result_at = [], rt_last_batch_completed_at = [],
       rt_last_batch_latency_ms = 0, rt_total_submitted = 0, rt_total_local_rejected = 0,
       rt_total_dispatched_batches = 0, rt_total_dispatched_requests = 0, rt_total_completed = 0,
       rt_total_failed = 0, rt_total_cache_hits = 0, rt_total_deduplicated = 0,
       rt_total_fail_open_served = 0, rt_backpressure_until = 0, rt_backpressure_reason = [] \<rparr>"

subsection \<open>Clock, entropy, channels\<close>

definition read_clock :: "agent \<Rightarrow> time \<times> agent" where
  "read_clock a = (ag_clock a (ag_reads a), a \<lparr> ag_reads := Suc (ag_reads a) \<rparr>)"

definition unix_epoch :: time where
  "unix_epoch = 62135596800 * second"

definition new_id :: "string \<Rightarrow> agent \<Rightarrow> string \<times> agent" where
  "new_id pfx a =
     (let a' = a \<lparr> ag_draws := Suc (ag_draws a) \<rparr> in
      case ag_entropy a (ag_draws a) of
        None \<Rightarrow> (case read_clock a' of (now, a'') \<Rightarrow>
                  (pfx @ ''-'' @ itoa (now - unix_epoch), a''))
      | Some buf \<Rightarrow> (pfx @ ''-'' @ hex_encode buf, a'))"

definition send_result :: "nat \<Rightarrow> request_result \<Rightarrow> agent \<Rightarrow> agent" where
  "send_result ch r a = a \<lparr> ag_sends := ag_sends a @ [(ch, r)] \<rparr>"

definition update_runtime :: "(runtime_state \<Rightarrow> runtime_state) \<Rightarrow> agent \<Rightarrow> agent" where
  "update_runtime f a = a \<lparr> ag_runtime := f (ag_runtime a) \<rparr>"

subsection \<open>Construction\<close>

definition cache_enabled :: "agent \<Rightarrow> bool" where
  "cache_enabled a \<longleftrightarrow> 0 < as_cache_ttl (ag_settings a) \<and> 0 < as_cache_max_entries (ag_settings a)"

definition clamp_workers :: "settings \<Rightarrow> settings" where
  "clamp_workers s =
     (let s = (if as_max_worker_concurrency s \<le> 0
               then s \<lparr> as_max_worker_concurrency := max_worker_concurrency_limit \<rparr> else s);
          s = (if max_worker_concurrency_limit < as_max_worker_concurrency s
               then s \<lparr> as_max_worker_concurrency := max_worker_concurrency_limit \<rparr> else s)
      in if as_max_worker_concurrency s < as_worker_concurrency s
         then s \<lparr> as_worker_concurrency := as_max_worker_concurrency s \<rparr> else s)"

definition normalize_mode :: "settings \<Rightarrow> settings" where
  "normalize_mode s =
     (let s = s \<lparr> as_reliability_mode := go_lower (trim_space (as_reliability_mode s)) \<rparr>
      in if as_reliability_mode s = [] then s \<lparr> as_reliability_mode := reliability_fail_closed \<rparr> else s)"

definition check_settings :: "settings \<Rightarrow> settings res" where
  "check_settings s =
     (if as_batch_interval s \<le> 0 then Inl (Err ''batch interval must be > 0'')
      else if as_max_queue_requests s \<le> 0 then Inl (Err ''max queue requests must be > 0'')
      else if as_max_batch_requests s \<le> 0 then Inl (Err ''max batch requests must be > 0'')
      else if as_max_batch_bytes s \<le> 0 then Inl (Err ''max batch bytes must be > 0'')
      else if as_max_request_body_bytes s \<le> 0 then Inl (Err ''max request body bytes must be > 0'')
      else if as_max_response_bytes s \<le> 0 then Inl (Err ''max response bytes must be > 0'')
      else if as_request_timeout s \<le> 0 then Inl (Err ''request timeout must be > 0'')
      else if as_worker_concurrency s \<le> 0 then Inl (Err ''worker concurrency must be > 0'')
      else (let s = clamp_workers s in
        if as_cache_ttl s < 0 then Inl (Err ''cache ttl must be >= 0'')
        else if as_cache_max_entries s < 0 then Inl (Err ''cache max entries must be >= 0'')
        else if as_backpressure_cooldown s \<le> 0 then Inl (Err ''backpressure cooldown must be > 0'')
        else if as_stale_if_error_ttl s < 0 then Inl (Err ''stale-if-error ttl must be >= 0'')
        else (let s = normalize_mode s in
          if as_reliability_mode s \<noteq> reliability_fail_closed \<and>
             as_reliability_mode s \<noteq> reliability_fail_open
          then Inl (Err (''reliability mode must be '' @ go_quote reliability_fail_closed @
                         '' or '' @ go_quote reliability_fail_open))
          else Inr s)))"

definition new_agent ::
  "'d option \<Rightarrow> settings \<Rightarrow> (nat \<Rightarrow> time) \<Rightarrow> (nat \<Rightarrow> string option) \<Rightarrow> agent res" where
  "new_agent dispatcher s clock entropy =
     (if dispatcher = None then Inl (Err ''dispatcher is required'')
      else (case check_settings s of
          Inl e \<Rightarrow> Inl e
        | Inr s' \<Rightarrow> Inr
            \<lparr> ag_settings = s', ag_queue = [], ag_runtime = zero_runtime (format_rfc3339 (clock 0)),
              ag_cache = [], ag_sends = [], ag_clock = clock, ag_reads = 1, ag_entropy = entropy,
              ag_draws = 0 \<rparr>))"

subsection \<open>Counters\<close>

definition record_submitted :: "agent \<Rightarrow> agent" where
  "record_submitted = update_runtime (\<lambda>rt. rt \<lparr> rt_total_submitted := rt_total_submitted rt + 1 \<rparr>)"

definition record_local_rejection :: "request_result \<Rightarrow> agent \<Rightarrow> agent" where
  "record_local_rejection result a =
     (let a = update_runtime (\<lambda>rt. rt \<lparr> rt_total_local_rejected := rt_total_local_rejected rt + 1 \<rparr>) a;
          a = (if \<not> rr_ok result
               then update_runtime (\<lambda>rt. rt \<lparr> rt_total_failed := rt_total_failed rt + 1 \<rparr>) a else a)
      in case read_clock a of (now, a) \<Rightarrow>
           update_runtime (\<lambda>rt. rt \<lparr> rt_last_result_at := format_rfc3339 now \<rparr>) a)"

definition record_batch_dispatched :: "string \<Rightarrow> nat \<Rightarrow> agent \<Rightarrow> agent" where
  "record_batch_dispatched batch_id request_count a =
     (case read_clock a of (now, a) \<Rightarrow> update_runtime (\<lambda>rt. rt
        \<lparr> rt_dispatch_in_flight := True, rt_last_batch_id := batch_id,
          rt_last_batch_sent_at := format_rfc3339 now,
          rt_last_batch_request_count := int request_count,
          rt_last_dispatch_error := [], rt_last_dispatch_error_code := [],
          rt_total_dispatched_batches := rt_total_dispatched_batches rt + 1,
          rt_total_dispatched_requests := rt_total_dispatched_requests rt + of_nat request_count \<rparr>) a)"

definition record_dispatch_success :: "duration \<Rightarrow> agent \<Rightarrow> agent" where
  "record_dispatch_success latency a =
     (case read_clock a of (now, a) \<Rightarrow> update_runtime (\<lambda>rt. rt
        \<lparr> rt_dispatch_in_flight := False, rt_last_dispatch_error := [],
          rt_last_dispatch_error_code := [], rt_last_batch_completed_at := format_rfc3339 now,
          rt_last_batch_latency_ms := go_quot latency millisecond \<rparr>) a)"

definition is_run_delayed_error :: "go_error \<Rightarrow> bool" where
  "is_run_delayed_error e = contains_str (err_text e) ''RUN_DELAYED''"

definition infer_error_code :: "go_error \<Rightarrow> string" where
  "infer_error_code e =
     (let message = err_text e in
      if contains_str message ''RUN_DELAYED'' then ''RUN_DELAYED''
      else if contains_str message ''RESULT_PACKAGE_NOT_FOUND'' then ''RESULT_PACKAGE_NOT_FOUND''
      else if contains_str message ''WORKER_ERROR'' then ''WORKER_ERROR''
      else if contains_str message ''BATCH_TOO_LARGE'' then ''BATCH_TOO_LARGE''
      else ''DISPATCH_FAILED'')"

definition record_dispatch_error :: "go_error \<Rightarrow> agent \<Rightarrow> agent" where
  "record_dispatch_error e a =
     (case read_clock a of (now, a) \<Rightarrow> update_runtime (\<lambda>rt. rt
        \<lparr> rt_dispatch_in_flight := False,
          rt_last_dispatch_error := redact_secret_text (err_text e),
          rt_last_dispatch_error_code := infer_error_code e,
          rt_last_dispatch_error_at := format_rfc3339 now \<rparr>) a)"

definition set_pending_in_batch_buffer :: "nat \<Rightarrow> agent \<Rightarrow> agent" where
  "set_pending_in_batch_buffer n =
     update_runtime (\<lambda>rt. rt \<lparr> rt_pending_in_batch_buffer := int n \<rparr>)"

definition record_result :: "request_result \<Rightarrow> agent \<Rightarrow> agent" where
  "record_result result a =
     (let a = (if rr_ok result
               then update_runtime (\<lambda>rt. rt \<lparr> rt_total_completed := rt_total_completed rt + 1 \<rparr>) a
               else update_runtime (\<lambda>rt. rt \<lparr> rt_total_failed := rt_total_failed rt + 1 \<rparr>) a)
      in case read_clock a of (now, a) \<Rightarrow>
           update_runtime (\<lambda>rt. rt \<lparr> rt_last_result_at := format_rfc3339 now \<rparr>) a)"

definition record_cache_hit :: "agent \<Rightarrow> agent" where
  "record_cache_hit = update_runtime (\<lambda>rt. rt \<lparr> rt_total_cache_hits := rt_total_cache_hits rt + 1 \<rparr>)"

definition record_deduplicated :: "agent \<Rightarrow> agent" where
  "record_deduplicated =
     update_runtime (\<lambda>rt. rt \<lparr> rt_total_deduplicated := rt_total_deduplicated rt + 1 \<rparr>)"

definition record_fail_open_served :: "agent \<Rightarrow> agent" where
  "record_fail_open_served =
     update_runtime (\<lambda>rt. rt \<lparr> rt_total_fail_open_served := rt_total_fail_open_served rt + 1 \<rparr>)"

text \<open>Answering a request is always the pair \<^verbatim>\<open>recordResult\<close>, send.\<close>

definition answer :: "pending_request \<Rightarrow> request_result \<Rightarrow> agent \<Rightarrow> agent" where
  "answer item result a = send_result (pr_result_ch item) result (record_result result a)"

subsection \<open>Backpressure\<close>

definition run_delayed_reason :: string where
  "run_delayed_reason = ''GitHub Actions run start delayed''"

definition activate_backpressure :: "string \<Rightarrow> agent \<Rightarrow> agent" where
  "activate_backpressure reason a =
     (let reason = (if reason = [] then run_delayed_reason else reason) in
      case read_clock a of (now, a) \<Rightarrow> update_runtime (\<lambda>rt. rt
        \<lparr> rt_backpressure_until := now + as_backpressure_cooldown (ag_settings a),
          rt_backpressure_reason := reason \<rparr>) a)"

definition backpressure_state :: "time \<Rightarrow> agent \<Rightarrow> string option \<times> agent" where
  "backpressure_state now a =
     (let until = rt_backpressure_until (ag_runtime a) in
      if until = 0 then (None, a)
      else if \<not> now < until
        then (None, update_runtime (\<lambda>rt. rt
               \<lparr> rt_backpressure_until := 0, rt_backpressure_reason := [] \<rparr>) a)
      else (Some (rt_backpressure_reason (ag_runtime a)), a))"

definition reject_pending_for_backpressure ::
  "pending_request list \<Rightarrow> string \<Rightarrow> agent \<Rightarrow> pending_request list \<times> agent" where
  "reject_pending_for_backpressure pending reason a =
     (let reason = (if reason = [] then run_delayed_reason else reason) in
      ([], fold (\<lambda>item. answer item
             (error_result (ri_request_id (pr_request item)) ''RUN_DELAYED'' reason)) pending a))"

subsection \<open>Response cache\<close>

definition set_cache :: "cache_entry gomap \<Rightarrow> agent \<Rightarrow> agent" where
  "set_cache c a = a \<lparr> ag_cache := c \<rparr>"

definition load_cache_entry :: "string \<Rightarrow> time \<Rightarrow> agent \<Rightarrow> request_result option \<times> agent" where
  "load_cache_entry key now a =
     (if \<not> cache_enabled a \<or> key = [] then (None, a)
      else (case map_of (ag_cache a) key of
          None \<Rightarrow> (None, a)
        | Some entry \<Rightarrow>
            if en_expires_at entry < now
            then (None, set_cache (AList.delete key (ag_cache a)) a)
            else (Some (clone_result_for_request (en_result entry) (rr_request_id (en_result entry))), a)))"

text \<open>The scan for the entry that expires first: the key found so far and its expiry.\<close>

fun oldest_entry :: "cache_entry gomap \<Rightarrow> string \<Rightarrow> time \<Rightarrow> string" where
  "oldest_entry [] oldest_key oldest_expires = oldest_key"
| "oldest_entry ((k, v) # rest) oldest_key oldest_expires =
     (if oldest_key = [] \<or> en_expires_at v < oldest_expires
      then oldest_entry rest k (en_expires_at v)
      else oldest_entry rest oldest_key oldest_expires)"

definition store_cache_entry :: "string \<Rightarrow> request_result \<Rightarrow> time \<Rightarrow> agent \<Rightarrow> agent" where
  "store_cache_entry key result now a =
     (if \<not> cache_enabled a \<or> key = [] then a
      else (let entry = \<lparr> en_expires_at = now + as_cache_ttl (ag_settings a), en_result = result,
                          en_stored_at = now \<rparr>;
                cache = (if as_cache_max_entries (ag_settings a) \<le> int (length (ag_cache a))
                         then (let oldest = oldest_entry (ag_cache a) [] 0 in
                               if oldest \<noteq> [] then AList.delete oldest (ag_cache a) else ag_cache a)
                         else ag_cache a)
            in set_cache (AList.update key entry cache) a))"

definition load_stale_cache_entry :: "string \<Rightarrow> time \<Rightarrow> agent \<Rightarrow> request_result option" where
  "load_stale_cache_entry key now a =
     (if \<not> cache_enabled a \<or> key = [] \<or> as_stale_if_error_ttl (ag_settings a) \<le> 0 then None
      else (case map_of (ag_cache a) key of
          None \<Rightarrow> None
        | Some entry \<Rightarrow>
            if en_stored_at entry = 0 then None
            else if as_stale_if_error_ttl (ag_settings a) < time_sub now (en_stored_at entry) then None
            else Some (clone_result_for_request (en_result entry) (rr_request_id (en_result entry)))))"

definition evict_expired_cache :: "time \<Rightarrow> agent \<Rightarrow> agent" where
  "evict_expired_cache now a =
     (if \<not> cache_enabled a then a
      else set_cache (filter (\<lambda>(k, v). \<not> en_expires_at v < now) (ag_cache a)) a)"

subsection \<open>Snapshot\<close>

record snapshot =
  sn_started_at :: string
  sn_queue_capacity :: int
  sn_queue_depth :: int
  sn_pending_in_batch_buffer :: int
  sn_dispatch_in_flight :: bool
  sn_last_batch_id :: string
  sn_last_batch_sent_at :: string
  sn_last_batch_request_count :: int
  sn_last_dispatch_error :: string
  sn_last_dispatch_error_code :: string
  sn_last_dispatch_error_at :: string
  sn_last_result_at :: string
  sn_last_batch_completed_at :: string
  sn_last_batch_latency_ms :: int
  sn_total_submitted :: "64 word"
  sn_total_local_rejected :: "64 word"
  sn_total_dispatched_batches :: "64 word"
  sn_total_dispatched_requests :: "64 word"
  sn_total_completed :: "64 word"
  sn_total_failed :: "64 word"
  sn_cache_enabled :: bool
  sn_cache_ttl_ms :: int
  sn_cache_entries :: int
  sn_cache_max_entries :: int
  sn_total_cache_hits :: "64 word"
  sn_total_deduplicated :: "64 word"
  sn_total_fail_open_served :: "64 word"
  sn_backpressure_active :: bool
  sn_backpressure_until :: string
  sn_backpressure_reason :: string

definition take_snapshot :: "agent \<Rightarrow> snapshot \<times> agent" where
  "take_snapshot a =
     (case read_clock a of (now, a) \<Rightarrow>
       (let state = ag_runtime a; until = rt_backpressure_until state in
        (\<lparr> sn_started_at = rt_started_at state,
           sn_queue_capacity = as_max_queue_requests (ag_settings a),
           sn_queue_depth = int (length (ag_queue a)),
           sn_pending_in_batch_buffer = rt_pending_in_batch_buffer state,
           sn_dispatch_in_flight = rt_dispatch_in_flight state,
           sn_last_batch_id = rt_last_batch_id state,
           sn_last_batch_sent_at = rt_last_batch_sent_at state,
           sn_last_batch_request_count = rt_last_batch_request_count state,
           sn_last_dispatch_error = rt_last_dispatch_error state,
           sn_last_dispatch_error_code = rt_last_dispatch_error_code state,
           sn_last_dispatch_error_at = rt_last_dispatch_error_at state,
           sn_last_result_at = rt_last_result_at state,
           sn_last_batch_completed_at = rt_last_batch_completed_at state,
           sn_last_batch_latency_ms = rt_last_batch_latency_ms state,
           sn_total_submitted = rt_total_submitted state,
           sn_total_local_rejected = rt_total_local_rejected state,
           sn_total_dispatched_batches = rt_total_dispatched_batches state,
           sn_total_dispatched_requests = rt_total_dispatched_requests state,
           sn_total_completed = rt_total_completed state,
           sn_total_failed = rt_total_failed state,
           sn_cache_enabled = cache_enabled a,
           sn_cache_ttl_ms = go_quot (as_cache_ttl (ag_settings a)) millisecond,
           sn_cache_entries = int (length (ag_cache a)),
           sn_cache_max_entries = as_cache_max_entries (ag_settings a),
           sn_total_cache_hits = rt_total_cache_hits state,
           sn_total_deduplicated = rt_total_deduplicated state,
           sn_total_fail_open_served = rt_total_fail_open_served state,
           sn_backpressure_active = (until \<noteq> 0 \<and> now < until),
           sn_backpressure_until = (if until \<noteq> 0 then format_rfc3339 until else []),
           sn_backpressure_reason = rt_backpressure_reason state \<rparr>, a)))"

end
