(* ===== verification/Agent_Cache.thy ===== *)
theory Agent_Cache
  imports Agent_State
begin

text \<open>
  Facts about the agent's state operations: what each leaves alone, the counters as an account of
  the answers given, the settings \<^verbatim>\<open>New\<close> accepts, and the response cache. The cache is described
  by an interface, \<open>result_cache\<close>, of which the agent's four cache methods are the
  interpretation; the soundness of hits and the bound on the size are proved against the
  interface.
\<close>

subsection \<open>What the operations leave alone\<close>

lemmas state_defs =
  record_submitted_def record_local_rejection_def record_batch_dispatched_def
  record_dispatch_success_def record_dispatch_error_def set_pending_in_batch_buffer_def
  record_result_def record_cache_hit_def record_deduplicated_def record_fail_open_served_def
  activate_backpressure_def answer_def send_result_def update_runtime_def read_clock_def

lemma frame_settings [relay_simps]:
  "ag_settings (record_submitted a) = ag_settings a"
  "ag_settings (record_local_rejection r a) = ag_settings a"
  "ag_settings (record_batch_dispatched i n a) = ag_settings a"
  "ag_settings (record_dispatch_success d a) = ag_settings a"
  "ag_settings (record_dispatch_error e a) = ag_settings a"
  "ag_settings (set_pending_in_batch_buffer n a) = ag_settings a"
  "ag_settings (record_result r a) = ag_settings a"
  "ag_settings (record_cache_hit a) = ag_settings a"
  "ag_settings (record_deduplicated a) = ag_settings a"
  "ag_settings (record_fail_open_served a) = ag_settings a"
  "ag_settings (activate_backpressure s a) = ag_settings a"
  "ag_settings (answer p r a) = ag_settings a"
  "ag_settings (snd (read_clock a)) = ag_settings a"
  "ag_settings (set_cache c a) = ag_settings a"
  by (simp_all add: state_defs Let_def set_cache_def)

lemma frame_cache [relay_simps]:
  "ag_cache (record_submitted a) = ag_cache a"
  "ag_cache (record_local_rejection r a) = ag_cache a"
  "ag_cache (record_batch_dispatched i n a) = ag_cache a"
  "ag_cache (record_dispatch_success d a) = ag_cache a"
  "ag_cache (record_dispatch_error e a) = ag_cache a"
  "ag_cache (set_pending_in_batch_buffer n a) = ag_cache a"
  "ag_cache (record_result r a) = ag_cache a"
  "ag_cache (record_cache_hit a) = ag_cache a"
  "ag_cache (record_deduplicated a) = ag_cache a"
  "ag_cache (record_fail_open_served a) = ag_cache a"
  "ag_cache (activate_backpressure s a) = ag_cache a"
  "ag_cache (answer p r a) = ag_cache a"
  "ag_cache (snd (read_clock a)) = ag_cache a"
  "ag_cache (set_cache c a) = c"
  by (simp_all add: state_defs Let_def set_cache_def)

lemma frame_sends [relay_simps]:
  "ag_sends (record_submitted a) = ag_sends a"
  "ag_sends (record_local_rejection r a) = ag_sends a"
  "ag_sends (record_batch_dispatched i n a) = ag_sends a"
  "ag_sends (record_dispatch_success d a) = ag_sends a"
  "ag_sends (record_dispatch_error e a) = ag_sends a"
  "ag_sends (set_pending_in_batch_buffer n a) = ag_sends a"
  "ag_sends (record_result r a) = ag_sends a"
  "ag_sends (record_cache_hit a) = ag_sends a"
  "ag_sends (record_deduplicated a) = ag_sends a"
  "ag_sends (record_fail_open_served a) = ag_sends a"
  "ag_sends (activate_backpressure s a) = ag_sends a"
  "ag_sends (answer p r a) = ag_sends a @ [(pr_result_ch p, r)]"
  "ag_sends (snd (read_clock a)) = ag_sends a"
  "ag_sends (set_cache c a) = ag_sends a"
  by (simp_all add: state_defs Let_def set_cache_def)

lemma frame_queue [relay_simps]:
  "ag_queue (record_submitted a) = ag_queue a"
  "ag_queue (record_local_rejection r a) = ag_queue a"
  "ag_queue (record_batch_dispatched i n a) = ag_queue a"
  "ag_queue (record_dispatch_success d a) = ag_queue a"
  "ag_queue (record_dispatch_error e a) = ag_queue a"
  "ag_queue (set_pending_in_batch_buffer n a) = ag_queue a"
  "ag_queue (record_result r a) = ag_queue a"
  "ag_queue (record_cache_hit a) = ag_queue a"
  "ag_queue (record_deduplicated a) = ag_queue a"
  "ag_queue (record_fail_open_served a) = ag_queue a"
  "ag_queue (activate_backpressure s a) = ag_queue a"
  "ag_queue (answer p r a) = ag_queue a"
  "ag_queue (snd (read_clock a)) = ag_queue a"
  "ag_queue (set_cache c a) = ag_queue a"
  by (simp_all add: state_defs Let_def set_cache_def)

lemma read_clock_pair: "read_clock a = (fst (read_clock a), snd (read_clock a))"
  by simp

lemma new_id_frame [relay_simps]:
  "ag_settings (snd (new_id p a)) = ag_settings a" "ag_cache (snd (new_id p a)) = ag_cache a"
  "ag_sends (snd (new_id p a)) = ag_sends a" "ag_queue (snd (new_id p a)) = ag_queue a"
  "ag_runtime (snd (new_id p a)) = ag_runtime a"
  by (simp_all add: new_id_def read_clock_def Let_def split: option.splits)

lemma backpressure_state_frame [relay_simps]:
  "ag_settings (snd (backpressure_state t a)) = ag_settings a"
  "ag_cache (snd (backpressure_state t a)) = ag_cache a"
  "ag_sends (snd (backpressure_state t a)) = ag_sends a"
  "ag_queue (snd (backpressure_state t a)) = ag_queue a"
  by (simp_all add: backpressure_state_def update_runtime_def Let_def)

lemma evict_frame [relay_simps]:
  "ag_settings (evict_expired_cache t a) = ag_settings a"
  "ag_runtime (evict_expired_cache t a) = ag_runtime a"
  "ag_sends (evict_expired_cache t a) = ag_sends a"
  "ag_queue (evict_expired_cache t a) = ag_queue a"
  by (simp_all add: evict_expired_cache_def set_cache_def)

lemma load_frame [relay_simps]:
  "ag_settings (snd (load_cache_entry k t a)) = ag_settings a"
  "ag_runtime (snd (load_cache_entry k t a)) = ag_runtime a"
  "ag_sends (snd (load_cache_entry k t a)) = ag_sends a"
  "ag_queue (snd (load_cache_entry k t a)) = ag_queue a"
  by (simp_all add: load_cache_entry_def set_cache_def split: option.splits)

lemma store_frame [relay_simps]:
  "ag_settings (store_cache_entry k r t a) = ag_settings a"
  "ag_runtime (store_cache_entry k r t a) = ag_runtime a"
  "ag_sends (store_cache_entry k r t a) = ag_sends a"
  "ag_queue (store_cache_entry k r t a) = ag_queue a"
  by (simp_all add: store_cache_entry_def set_cache_def Let_def)

lemma cache_enabled_cong: "ag_settings b = ag_settings a \<Longrightarrow> cache_enabled b = cache_enabled a"
  by (simp add: cache_enabled_def)

subsection \<open>Counters as an account\<close>

text \<open>
  Every answer is counted once, as completed or as failed, and so is every request that
  \<^verbatim>\<open>Submit\<close> turns away itself. The equation is between 64-bit words: it holds across wrap-around.
\<close>

definition counters_balanced :: "agent \<Rightarrow> bool" where
  "counters_balanced a \<longleftrightarrow>
     rt_total_completed (ag_runtime a) + rt_total_failed (ag_runtime a) =
     rt_total_local_rejected (ag_runtime a) + of_nat (length (ag_sends a))"

lemma counters_balanced_ops [relay_simps]:
  "counters_balanced (record_submitted a) = counters_balanced a"
  "counters_balanced (record_batch_dispatched i n a) = counters_balanced a"
  "counters_balanced (record_dispatch_success d a) = counters_balanced a"
  "counters_balanced (record_dispatch_error e a) = counters_balanced a"
  "counters_balanced (set_pending_in_batch_buffer n a) = counters_balanced a"
  "counters_balanced (record_cache_hit a) = counters_balanced a"
  "counters_balanced (record_deduplicated a) = counters_balanced a"
  "counters_balanced (record_fail_open_served a) = counters_balanced a"
  "counters_balanced (activate_backpressure s a) = counters_balanced a"
  "counters_balanced (snd (read_clock a)) = counters_balanced a"
  "counters_balanced (snd (new_id p a)) = counters_balanced a"
  "counters_balanced (snd (backpressure_state t a)) = counters_balanced a"
  "counters_balanced (evict_expired_cache t a) = counters_balanced a"
  "counters_balanced (snd (load_cache_entry k t a)) = counters_balanced a"
  "counters_balanced (store_cache_entry k r t a) = counters_balanced a"
  by (simp_all add: counters_balanced_def relay_simps)
     (simp_all add: state_defs Let_def backpressure_state_def)

lemma counters_balanced_answer [relay_simps]: "counters_balanced (answer p r a) = counters_balanced a"
  by (simp add: counters_balanced_def state_defs Let_def algebra_simps)

lemma counters_balanced_rejection [relay_simps]:
  "counters_balanced (record_local_rejection (error_result i c m) a) = counters_balanced a"
  by (simp add: counters_balanced_def state_defs Let_def algebra_simps)

text \<open>Nothing but \<^verbatim>\<open>recordFailOpenServed\<close> touches its counter.\<close>

lemma fail_open_frame [relay_simps]:
  "rt_total_fail_open_served (ag_runtime (record_submitted a)) = rt_total_fail_open_served (ag_runtime a)"
  "rt_total_fail_open_served (ag_runtime (record_local_rejection r a)) = rt_total_fail_open_served (ag_runtime a)"
  "rt_total_fail_open_served (ag_runtime (record_batch_dispatched i n a)) = rt_total_fail_open_served (ag_runtime a)"
  "rt_total_fail_open_served (ag_runtime (record_dispatch_success d a)) = rt_total_fail_open_served (ag_runtime a)"
  "rt_total_fail_open_served (ag_runtime (record_dispatch_error e a)) = rt_total_fail_open_served (ag_runtime a)"
  "rt_total_fail_open_served (ag_runtime (set_pending_in_batch_buffer n a)) = rt_total_fail_open_served (ag_runtime a)"
  "rt_total_fail_open_served (ag_runtime (record_result r a)) = rt_total_fail_open_served (ag_runtime a)"
  "rt_total_fail_open_served (ag_runtime (record_cache_hit a)) = rt_total_fail_open_served (ag_runtime a)"
  "rt_total_fail_open_served (ag_runtime (record_deduplicated a)) = rt_total_fail_open_served (ag_runtime a)"
  "rt_total_fail_open_served (ag_runtime (activate_backpressure s a)) = rt_total_fail_open_served (ag_runtime a)"
  "rt_total_fail_open_served (ag_runtime (answer p r a)) = rt_total_fail_open_served (ag_runtime a)"
  "rt_total_fail_open_served (ag_runtime (snd (read_clock a))) = rt_total_fail_open_served (ag_runtime a)"
  "rt_total_fail_open_served (ag_runtime (snd (backpressure_state t a))) = rt_total_fail_open_served (ag_runtime a)"
  "rt_total_fail_open_served (ag_runtime (set_cache c a)) = rt_total_fail_open_served (ag_runtime a)"
  by (simp_all add: state_defs Let_def set_cache_def backpressure_state_def)

subsection \<open>The response cache\<close>

datatype cache_op =
    Load string time
  | Store string request_result time
  | Evict time

text \<open>A history of cache operations, on any implementation of the three of them.\<close>

fun cache_step ::
  "(string \<Rightarrow> time \<Rightarrow> 's \<Rightarrow> request_result option \<times> 's) \<Rightarrow>
   (string \<Rightarrow> request_result \<Rightarrow> time \<Rightarrow> 's \<Rightarrow> 's) \<Rightarrow> (time \<Rightarrow> 's \<Rightarrow> 's) \<Rightarrow> cache_op \<Rightarrow> 's \<Rightarrow> 's" where
  "cache_step load store evict (Load k t) s = snd (load k t s)"
| "cache_step load store evict (Store k r t) s = store k r t s"
| "cache_step load store evict (Evict t) s = evict t s"

text \<open>
  The contract: \<open>held s k\<close> is what \<open>s\<close> holds under \<open>k\<close> and until when, \<open>seen r\<close> how a stored
  result is given back.
\<close>

locale result_cache =
  fixes load :: "string \<Rightarrow> time \<Rightarrow> 's \<Rightarrow> request_result option \<times> 's"
    and store :: "string \<Rightarrow> request_result \<Rightarrow> time \<Rightarrow> 's \<Rightarrow> 's"
    and evict :: "time \<Rightarrow> 's \<Rightarrow> 's"
    and held :: "'s \<Rightarrow> string \<Rightarrow> (request_result \<times> time) option"
    and seen :: "request_result \<Rightarrow> request_result"
    and ok :: "'s \<Rightarrow> bool"
    and entries :: "'s \<Rightarrow> nat"
    and capacity :: "'s \<Rightarrow> nat"
    and lifetime :: "'s \<Rightarrow> duration"
  assumes load_ok: "ok s \<Longrightarrow> ok (snd (load k t s))"
    and store_ok: "ok s \<Longrightarrow> ok (store k r t s)"
    and evict_ok: "ok s \<Longrightarrow> ok (evict t s)"
    and size_ok: "ok s \<Longrightarrow> entries s \<le> capacity s"
    and load_hit: "ok s \<Longrightarrow> fst (load k t s) = Some r \<Longrightarrow> \<exists>d. held s k = Some (r, d) \<and> t \<le> d"
    and load_held: "ok s \<Longrightarrow> held (snd (load k t s)) l = Some x \<Longrightarrow> held s l = Some x"
    and store_held: "ok s \<Longrightarrow> held (store k r t s) l = Some x \<Longrightarrow>
      (if l = k then x = (seen r, t + lifetime s) else held s l = Some x)"
    and evict_held: "ok s \<Longrightarrow> held (evict t s) l = Some x \<Longrightarrow> held s l = Some x"
    and step_capacity: "capacity (cache_step load store evict op s) = capacity s"
    and step_lifetime: "lifetime (cache_step load store evict op s) = lifetime s"
begin

abbreviation step :: "cache_op \<Rightarrow> 's \<Rightarrow> 's" where
  "step \<equiv> cache_step load store evict"

lemma step_ok: "ok s \<Longrightarrow> ok (step op s)"
  by (cases op) (simp_all add: load_ok store_ok evict_ok)

lemma run_ok: "ok s \<Longrightarrow> ok (fold step ops s)"
  by (induction ops arbitrary: s) (simp_all add: step_ok)

lemma run_capacity: "capacity (fold step ops s) = capacity s"
  by (induction ops arbitrary: s) (simp_all add: step_capacity)

lemma run_lifetime: "lifetime (fold step ops s) = lifetime s"
  by (induction ops arbitrary: s) (simp_all add: step_lifetime)

lemma run_bounded: "ok s \<Longrightarrow> entries (fold step ops s) \<le> capacity s"
  using size_ok [OF run_ok] by (simp add: run_capacity)

text \<open>What is held under a key was stored under it, and by the last store of the key.\<close>

lemma run_held:
  assumes "ok s" and "\<And>l. held s l = None" and "held (fold step ops s) k = Some (r, d)"
  shows "\<exists>before r0 t0 after. ops = before @ Store k r0 t0 # after \<and>
    r = seen r0 \<and> d = t0 + lifetime s \<and> (\<forall>r' t'. Store k r' t' \<notin> set after)"
  using assms(3)
proof (induction ops arbitrary: r d rule: rev_induct)
  case Nil
  with assms(2) show ?case by simp
next
  case (snoc op ops)
  let ?s = "fold step ops s"
  have ok: "ok ?s" by (rule run_ok [OF assms(1)])
  have h: "held (step op ?s) k = Some (r, d)" using snoc.prems by simp
  show ?case
  proof (cases "\<exists>r0 t0. op = Store k r0 t0")
    case True
    then obtain r0 t0 where "op = Store k r0 t0" by blast
    with h store_held [OF ok, of k r0 t0 k] have "ops @ [op] = ops @ Store k r0 t0 # [] \<and>
        r = seen r0 \<and> d = t0 + lifetime s \<and> (\<forall>r' t'. Store k r' t' \<notin> set [])"
      by (auto simp: run_lifetime)
    then show ?thesis by blast
  next
    case False
    with h have "held ?s k = Some (r, d)"
      by (cases op) (use load_held [OF ok] evict_held [OF ok] store_held [OF ok] in
        \<open>auto split: if_splits\<close>)
    from snoc.IH [OF this] obtain before r0 t0 after where
      "ops = before @ Store k r0 t0 # after" "r = seen r0" "d = t0 + lifetime s"
      "\<forall>r' t'. Store k r' t' \<notin> set after" by blast
    with False have "ops @ [op] = before @ Store k r0 t0 # (after @ [op]) \<and>
        r = seen r0 \<and> d = t0 + lifetime s \<and> (\<forall>r' t'. Store k r' t' \<notin> set (after @ [op]))"
      by auto
    then show ?thesis by blast
  qed
qed

lemma hit_sound:
  assumes "ok s" and "\<And>l. held s l = None" and "fst (load k t (fold step ops s)) = Some r"
  shows "\<exists>before r0 t0 after. ops = before @ Store k r0 t0 # after \<and>
    r = seen r0 \<and> t \<le> t0 + lifetime s \<and> (\<forall>r' t'. Store k r' t' \<notin> set after)"
proof -
  from load_hit [OF run_ok [OF assms(1)] assms(3)] obtain d where
    "held (fold step ops s) k = Some (r, d)" "t \<le> d" by blast
  with run_held [OF assms(1,2)] show ?thesis by metis
qed

end

text \<open>The agent's cache meets the contract.\<close>

definition cache_ok :: "agent \<Rightarrow> bool" where
  "cache_ok a \<longleftrightarrow>
     gomap_ok (ag_cache a) \<and> [] \<notin> fst ` set (ag_cache a) \<and>
     (\<not> cache_enabled a \<longrightarrow> ag_cache a = []) \<and>
     0 \<le> as_cache_max_entries (ag_settings a) \<and>
     int (length (ag_cache a)) \<le> as_cache_max_entries (ag_settings a)"

definition given_back :: "request_result \<Rightarrow> request_result" where
  "given_back r = clone_result_for_request r (rr_request_id r)"

definition cache_held :: "agent \<Rightarrow> string \<Rightarrow> (request_result \<times> time) option" where
  "cache_held a k = map_option (\<lambda>e. (given_back (en_result e), en_expires_at e)) (map_of (ag_cache a) k)"

lemma oldest_entry_in:
  "oldest_entry m k t = [] \<or> oldest_entry m k t = k \<or> oldest_entry m k t \<in> fst ` set m"
  by (induction m k t rule: oldest_entry.induct) auto

lemma oldest_entry_nonempty:
  "[] \<notin> fst ` set m \<Longrightarrow> m \<noteq> [] \<or> k \<noteq> [] \<Longrightarrow> oldest_entry m k t \<noteq> []"
  by (induction m k t rule: oldest_entry.induct) auto

lemma set_delete_subset: "set (AList.delete k m) \<subseteq> set m"
  by (auto simp: AList.delete_eq)

lemma length_delete_le: "length (AList.delete k m) \<le> length m"
  by (simp add: AList.delete_eq)

lemma cache_ok_shrink:
  "cache_ok a \<Longrightarrow> gomap_ok c \<Longrightarrow> set c \<subseteq> set (ag_cache a) \<Longrightarrow> length c \<le> length (ag_cache a) \<Longrightarrow>
     cache_ok (set_cache c a)"
  by (auto simp: cache_ok_def set_cache_def image_iff cache_enabled_def)

lemma cache_ok_load: "cache_ok a \<Longrightarrow> cache_ok (snd (load_cache_entry k t a))"
  by (auto simp: load_cache_entry_def split: option.splits intro!: cache_ok_shrink gomap_ok_delete
      length_delete_le dest: subsetD [OF set_delete_subset]) (auto simp: cache_ok_def)

lemma cache_ok_evict: "cache_ok a \<Longrightarrow> cache_ok (evict_expired_cache t a)"
  by (auto simp: evict_expired_cache_def intro!: cache_ok_shrink gomap_ok_filter)
     (auto simp: cache_ok_def)

lemma cache_ok_store:
  assumes "cache_ok a"
  shows "cache_ok (store_cache_entry k r t a)"
proof (cases "cache_enabled a \<and> k \<noteq> []")
  case False
  with assms show ?thesis by (auto simp: store_cache_entry_def)
next
  case True
  let ?max = "as_cache_max_entries (ag_settings a)"
  let ?old = "oldest_entry (ag_cache a) [] 0"
  from True have pos: "0 < ?max" by (simp add: cache_enabled_def)
  define c where "c = (if ?max \<le> int (length (ag_cache a))
    then (if ?old \<noteq> [] then AList.delete ?old (ag_cache a) else ag_cache a) else ag_cache a)"
  from assms have c: "gomap_ok c" "[] \<notin> fst ` set c"
    using set_delete_subset [of ?old "ag_cache a"]
    by (auto simp: c_def cache_ok_def image_iff)
  have "int (length c) < ?max"
  proof (cases "?max \<le> int (length (ag_cache a))")
    case full: True
    with pos have "ag_cache a \<noteq> []" by auto
    with assms have ne: "?old \<noteq> []" by (intro oldest_entry_nonempty) (auto simp: cache_ok_def)
    with oldest_entry_in [of "ag_cache a" "[]" 0] have "?old \<in> fst ` set (ag_cache a)" by auto
    with assms ne full have "length c = length (ag_cache a) - 1"
      by (simp add: c_def cache_ok_def length_delete_mem)
    with assms full pos show ?thesis by (simp add: cache_ok_def)
  qed (simp add: c_def)
  then have "int (length (AList.update k e c)) \<le> ?max" for e
    using length_update_le [of k e c] by simp
  moreover have "store_cache_entry k r t a = set_cache (AList.update k
      \<lparr> en_expires_at = t + as_cache_ttl (ag_settings a), en_result = r, en_stored_at = t \<rparr> c) a"
    using True by (simp add: store_cache_entry_def c_def Let_def)
  ultimately show ?thesis
    using c True pos
    by (auto simp: cache_ok_def set_cache_def gomap_ok_update dom_update cache_enabled_def)
qed

interpretation agent_cache: result_cache load_cache_entry store_cache_entry evict_expired_cache
  cache_held given_back cache_ok "\<lambda>a. length (ag_cache a)" "\<lambda>a. nat (as_cache_max_entries (ag_settings a))"
  "\<lambda>a. as_cache_ttl (ag_settings a)"
proof (unfold_locales, goal_cases)
  case (1 s k t)
  then show ?case by (rule cache_ok_load)
next
  case (2 s k r t)
  then show ?case by (rule cache_ok_store)
next
  case (3 s t)
  then show ?case by (rule cache_ok_evict)
next
  case (4 s)
  then show ?case by (auto simp: cache_ok_def)
next
  case (5 s k t r)
  then show ?case
    by (auto simp: load_cache_entry_def cache_held_def given_back_def split: if_splits option.splits)
next
  case (6 s k t l x)
  then show ?case
    by (auto simp: load_cache_entry_def cache_held_def set_cache_def delete_conv' split: if_splits option.splits)
next
  case (7 s k r t l x)
  then have "map_of (ag_cache s) [] = None" "\<not> cache_enabled s \<Longrightarrow> ag_cache s = []"
    by (auto simp: cache_ok_def map_of_eq_None_iff)
  with 7(2) show ?case
    by (auto simp: store_cache_entry_def cache_held_def set_cache_def delete_conv' update_conv' Let_def
        split: if_splits)
next
  case (8 s t l x)
  then show ?case
    by (auto simp: evict_expired_cache_def cache_held_def set_cache_def cache_ok_def map_of_filter_key
        split: if_splits option.splits)
next
  case (9 op s)
  then show ?case by (cases op) (simp_all add: relay_simps)
next
  case (10 op s)
  then show ?case by (cases op) (simp_all add: relay_simps)
qed

end
