(* ===== verification/Agent_Batch.thy ===== *)
theory Agent_Batch
  imports Agent_Cache
begin

text \<open>
  From pending requests to a batch: the cache key (\<^verbatim>\<open>cacheKeyForRequest\<close>), the size of a batch
  (\<^verbatim>\<open>batchSizeForPending\<close>, \<^verbatim>\<open>batchSizeBytes\<close>), the choice of a chunk (\<^verbatim>\<open>pickBatchChunk\<close>) and
  the merging of equal requests into units (\<^verbatim>\<open>prepareDispatchUnits\<close>) of
  \<^verbatim>\<open>client/internal/agent/agent.go\<close>. Each operation is described by three facts: what it keeps
  (\<open>keeps\<close>), whom it answers (\<open>answers\<close>), and what becomes of the requests it does not answer.
\<close>

subsection \<open>Keys and sizes\<close>

definition cacheable_methods :: "string list" where
  "cacheable_methods = [''GET'', ''HEAD'']"

definition key_json :: "request_item \<Rightarrow> json" where
  "key_json r = JObj
     ([(''method'', JStr (ri_method r)), (''url'', JStr (ri_url r))] @
      (if ri_headers r = [] then [] else [(''headers'', json_string_map (ri_headers r))]))"

definition cache_key_for_request :: "request_item \<Rightarrow> string \<times> bool" where
  "cache_key_for_request r =
     (if ri_method r \<notin> set cacheable_methods then ([], False)
      else if (case ri_body r of None \<Rightarrow> False | Some b \<Rightarrow> bd_data b \<noteq> []) then ([], False)
      else (json_text (key_json r), True))"

definition safe_cache_status_min :: int where "safe_cache_status_min = 200"
definition safe_cache_status_max :: int where "safe_cache_status_max = 299"

definition should_cache_result :: "request_result \<Rightarrow> bool" where
  "should_cache_result r =
     (if \<not> rr_ok r then False
      else (case rr_response r of
          None \<Rightarrow> False
        | Some resp \<Rightarrow> safe_cache_status_min \<le> hr_status resp \<and> hr_status resp \<le> safe_cache_status_max))"

definition go_min :: "int \<Rightarrow> int \<Rightarrow> int" where
  "go_min left right = (if left < right then left else right)"

definition make_batch :: "string \<Rightarrow> string \<Rightarrow> settings \<Rightarrow> request_item list \<Rightarrow> request_batch" where
  "make_batch batch_id sent_at s requests =
     \<lparr> rb_protocol = request_batch_protocol, rb_batch_id = batch_id, rb_sent_at = sent_at,
       rb_client = \<lparr> batch_interval_ms = go_quot (as_batch_interval s) millisecond,
                     route_mode = route_mode_whole_device \<rparr>,
       rb_limits = \<lparr> max_response_bytes_per_request = as_max_response_bytes s,
                     request_timeout_ms = go_quot (as_request_timeout s) millisecond,
                     worker_concurrency = go_min (as_worker_concurrency s) (as_max_worker_concurrency s) \<rparr>,
       rb_requests = requests \<rparr>"

text \<open>\<^verbatim>\<open>json.Marshal\<close> of a batch, which holds only strings, numbers and flags, cannot fail.\<close>

definition batch_size_bytes :: "request_batch \<Rightarrow> int res" where
  "batch_size_bytes b = Inr (int (length (json_text (batch_json b))))"

definition batch_size_for_pending :: "pending_request list \<Rightarrow> settings \<Rightarrow> int res" where
  "batch_size_for_pending items s =
     batch_size_bytes (make_batch ''batch-sizing-0000000000000000'' ''2026-01-01T00:00:00Z'' s
       (map pr_request items))"

subsection \<open>Choosing a chunk\<close>

definition item_id :: "pending_request \<Rightarrow> string" where
  "item_id p = ri_request_id (pr_request p)"

fun pick_loop ::
  "pending_request list \<Rightarrow> pending_request list \<Rightarrow> pending_request list \<Rightarrow> agent \<Rightarrow>
   (pending_request list \<times> pending_request list) \<times> agent" where
  "pick_loop [] chunk remaining a = ((chunk, remaining), a)"
| "pick_loop (item # rest) chunk remaining a =
     (if as_max_batch_requests (ag_settings a) \<le> int (length chunk)
        then pick_loop rest chunk (remaining @ [item]) a
      else (case batch_size_for_pending (chunk @ [item]) (ag_settings a) of
          Inl e \<Rightarrow> pick_loop rest chunk remaining
            (answer item (error_result (item_id item) ''BATCH_TOO_LARGE'' ''failed to size request'') a)
        | Inr bytes \<Rightarrow>
            if as_max_batch_bytes (ag_settings a) < bytes then
              (if chunk = []
               then pick_loop rest chunk remaining
                 (answer item (error_result (item_id item) ''BATCH_TOO_LARGE'' ''request exceeds max batch bytes'') a)
               else pick_loop rest chunk (remaining @ [item]) a)
            else pick_loop rest (chunk @ [item]) remaining a))"

definition pick_batch_chunk ::
  "pending_request list \<Rightarrow> agent \<Rightarrow> (pending_request list \<times> pending_request list) \<times> agent" where
  "pick_batch_chunk pending a = pick_loop pending [] [] a"

subsection \<open>Dispatch units\<close>

fun prepare_loop ::
  "time \<Rightarrow> pending_request list \<Rightarrow> dispatch_unit list \<Rightarrow> nat gomap \<Rightarrow> agent \<Rightarrow>
   dispatch_unit list \<times> agent" where
  "prepare_loop now [] units dedupe a = (units, a)"
| "prepare_loop now (item # rest) units dedupe a =
     (case cache_key_for_request (pr_request item) of (cache_key, cacheable) \<Rightarrow>
        (case (if cacheable then load_cache_entry cache_key now a else (None, a)) of
           (Some cached, a1) \<Rightarrow>
             prepare_loop now rest units dedupe
               (answer item (clone_result_for_request cached (item_id item)) (record_cache_hit a1))
         | (None, a1) \<Rightarrow>
             (case (if cacheable then map_of dedupe cache_key else None) of
                Some idx \<Rightarrow>
                  prepare_loop now rest
                    (units[idx := (units ! idx) \<lparr> du_duplicates := du_duplicates (units ! idx) @ [item] \<rparr>])
                    dedupe (record_deduplicated a1)
              | None \<Rightarrow>
                  prepare_loop now rest
                    (units @ [\<lparr> du_primary = item, du_duplicates = [], du_cache_key = cache_key,
                                du_cacheable = cacheable \<rparr>])
                    (if cacheable then AList.update cache_key (length units) dedupe else dedupe) a1)))"

definition prepare_dispatch_units :: "pending_request list \<Rightarrow> agent \<Rightarrow> dispatch_unit list \<times> agent" where
  "prepare_dispatch_units requests a =
     (case read_clock a of (now, a) \<Rightarrow> prepare_loop now requests [] [] a)"

subsection \<open>What an operation keeps, and whom it answers\<close>

text \<open>The parts of the state the \<^verbatim>\<open>Run\<close> goroutine never disturbs while it answers requests.\<close>

definition keeps :: "agent \<Rightarrow> agent \<Rightarrow> bool" where
  "keeps a b \<longleftrightarrow>
     ag_settings b = ag_settings a \<and> ag_queue b = ag_queue a \<and>
     (counters_balanced b = counters_balanced a) \<and>
     rt_total_submitted (ag_runtime b) = rt_total_submitted (ag_runtime a) \<and>
     rt_total_fail_open_served (ag_runtime b) = rt_total_fail_open_served (ag_runtime a)"

definition answers_request :: "pending_request \<Rightarrow> nat \<times> request_result \<Rightarrow> bool" where
  "answers_request p s \<longleftrightarrow>
     fst s = pr_result_ch p \<and> rr_request_id (snd s) = item_id p \<and> result_shape (snd s)"

definition answers :: "agent \<Rightarrow> pending_request list \<Rightarrow> agent \<Rightarrow> bool" where
  "answers a ps b \<longleftrightarrow> (\<exists>ss. ag_sends b = ag_sends a @ ss \<and> list_all2 answers_request ps ss)"

definition cache_shape :: "agent \<Rightarrow> bool" where
  "cache_shape a \<longleftrightarrow>
     cache_ok a \<and> (\<forall>e \<in> snd ` set (ag_cache a). result_shape (en_result e) \<and> should_cache_result (en_result e))"

lemma keeps_refl [simp]: "keeps a a"
  by (simp add: keeps_def)

lemma keeps_trans [trans]: "keeps a b \<Longrightarrow> keeps b c \<Longrightarrow> keeps a c"
  by (simp add: keeps_def)

lemma keeps_settings: "keeps a b \<Longrightarrow> ag_settings b = ag_settings a"
  by (simp add: keeps_def)

lemma submitted_frame [relay_simps]:
  "rt_total_submitted (ag_runtime (record_local_rejection r a)) = rt_total_submitted (ag_runtime a)"
  "rt_total_submitted (ag_runtime (record_batch_dispatched i n a)) = rt_total_submitted (ag_runtime a)"
  "rt_total_submitted (ag_runtime (record_dispatch_success d a)) = rt_total_submitted (ag_runtime a)"
  "rt_total_submitted (ag_runtime (record_dispatch_error e a)) = rt_total_submitted (ag_runtime a)"
  "rt_total_submitted (ag_runtime (set_pending_in_batch_buffer n a)) = rt_total_submitted (ag_runtime a)"
  "rt_total_submitted (ag_runtime (record_cache_hit a)) = rt_total_submitted (ag_runtime a)"
  "rt_total_submitted (ag_runtime (record_deduplicated a)) = rt_total_submitted (ag_runtime a)"
  "rt_total_submitted (ag_runtime (activate_backpressure s a)) = rt_total_submitted (ag_runtime a)"
  "rt_total_submitted (ag_runtime (answer p r a)) = rt_total_submitted (ag_runtime a)"
  "rt_total_submitted (ag_runtime (snd (read_clock a))) = rt_total_submitted (ag_runtime a)"
  "rt_total_submitted (ag_runtime (snd (backpressure_state t a))) = rt_total_submitted (ag_runtime a)"
  "rt_total_submitted (ag_runtime (set_cache c a)) = rt_total_submitted (ag_runtime a)"
  by (simp_all add: state_defs Let_def set_cache_def backpressure_state_def)

lemma keeps_ops [intro]:
  "keeps a (record_batch_dispatched i n a)" "keeps a (record_dispatch_success d a)"
  "keeps a (record_dispatch_error e a)" "keeps a (set_pending_in_batch_buffer n a)"
  "keeps a (record_cache_hit a)" "keeps a (record_deduplicated a)"
  "keeps a (activate_backpressure s a)" "keeps a (answer p r a)" "keeps a (snd (read_clock a))"
  "keeps a (snd (new_id f a))" "keeps a (snd (backpressure_state t a))"
  "keeps a (evict_expired_cache t a)" "keeps a (snd (load_cache_entry k t a))"
  "keeps a (store_cache_entry k r t a)"
  by (simp_all add: keeps_def relay_simps)

lemma answers_none: "ag_sends b = ag_sends a \<Longrightarrow> answers a [] b"
  by (simp add: answers_def)

lemma answers_refl [simp]: "answers a [] a"
  by (simp add: answers_def)

lemma answers_trans: "answers a ps b \<Longrightarrow> answers b qs c \<Longrightarrow> answers a (ps @ qs) c"
  unfolding answers_def by (metis append.assoc list_all2_appendI)

lemma answers_step: "answers a ps b \<Longrightarrow> ag_sends c = ag_sends b \<Longrightarrow> answers a ps c"
  by (simp add: answers_def)

lemma answers_answer:
  "rr_request_id r = item_id p \<Longrightarrow> result_shape r \<Longrightarrow> answers a [p] (answer p r a)"
  by (simp add: answers_def answers_request_def relay_simps)

lemma answers_Cons: "answers a [p] b \<Longrightarrow> answers b ps c \<Longrightarrow> answers a (p # ps) c"
  using answers_trans [of a "[p]" b ps c] by simp

subsection \<open>The chunk\<close>

lemma batch_size_Inr: "\<exists>n. batch_size_for_pending items s = Inr n"
  by (simp add: batch_size_for_pending_def batch_size_bytes_def)

text \<open>The three things that can happen to the next pending request.\<close>

lemma pick_loop_cases:
  obtains (later) "pick_loop (item # rest) chunk remaining a = pick_loop rest chunk (remaining @ [item]) a"
      "chunk \<noteq> [] \<or> as_max_batch_requests (ag_settings a) \<le> 0"
  | (reject) r where "pick_loop (item # rest) chunk remaining a = pick_loop rest chunk remaining (answer item r a)"
      "rr_request_id r = item_id item" "result_shape r" "chunk = []"
  | (take) n where "pick_loop (item # rest) chunk remaining a = pick_loop rest (chunk @ [item]) remaining a"
      "int (length chunk) < as_max_batch_requests (ag_settings a)"
      "batch_size_for_pending (chunk @ [item]) (ag_settings a) = Inr n" "n \<le> as_max_batch_bytes (ag_settings a)"
proof -
  obtain n where n: "batch_size_for_pending (chunk @ [item]) (ag_settings a) = Inr n"
    using batch_size_Inr by blast
  consider "as_max_batch_requests (ag_settings a) \<le> int (length chunk)"
    | "int (length chunk) < as_max_batch_requests (ag_settings a)" "as_max_batch_bytes (ag_settings a) < n" "chunk = []"
    | "int (length chunk) < as_max_batch_requests (ag_settings a)" "as_max_batch_bytes (ag_settings a) < n" "chunk \<noteq> []"
    | "int (length chunk) < as_max_batch_requests (ag_settings a)" "n \<le> as_max_batch_bytes (ag_settings a)"
    by linarith
  then show thesis
  proof cases
    case 1
    with later show thesis by (cases chunk) auto
  next
    case 2
    then show thesis
      by (intro reject [of "error_result (item_id item) ''BATCH_TOO_LARGE'' ''request exceeds max batch bytes''"])
         (use n 2 in auto)
  next
    case 3
    then show thesis by (intro later) (auto simp: n)
  next
    case 4
    then show thesis by (intro take [OF _ _ n]) (auto simp: n)
  qed
qed

lemma pick_loop_spec:
  assumes "pick_loop pending chunk remaining a = ((c, r), b)"
  shows "keeps a b \<and> ag_cache b = ag_cache a \<and>
    (\<exists>rejected c' r'. answers a rejected b \<and> c = chunk @ c' \<and> r = remaining @ r' \<and>
       subseq c' pending \<and> subseq r' pending \<and> mset pending = mset c' + mset r' + mset rejected)"
  using assms
proof (induction pending arbitrary: chunk remaining a)
  case Nil
  then show ?case by (auto intro!: exI [of _ "[]"])
next
  case (Cons item rest)
  show ?case
  proof (cases rule: pick_loop_cases [of item rest chunk remaining a])
    case later
    with Cons.prems have "pick_loop rest chunk (remaining @ [item]) a = ((c, r), b)" by simp
    from Cons.IH [OF this] obtain rejected c' r' where
      "keeps a b" "ag_cache b = ag_cache a" "answers a rejected b" "c = chunk @ c'"
      "r = (remaining @ [item]) @ r'" "subseq c' rest" "subseq r' rest"
      "mset rest = mset c' + mset r' + mset rejected" by blast
    then show ?thesis
      by (intro conjI exI [of _ rejected] exI [of _ c'] exI [of _ "item # r'"]) auto
  next
    case (reject e)
    with Cons.prems have "pick_loop rest chunk remaining (answer item e a) = ((c, r), b)" by simp
    from Cons.IH [OF this] obtain rejected c' r' where
      k: "keeps (answer item e a) b" "ag_cache b = ag_cache (answer item e a)"
      "answers (answer item e a) rejected b" "c = chunk @ c'" "r = remaining @ r'"
      "subseq c' rest" "subseq r' rest" "mset rest = mset c' + mset r' + mset rejected" by blast
    from answers_Cons [OF answers_answer k(3)] reject have "answers a (item # rejected) b" by blast
    with k keeps_trans [OF keeps_ops(8) k(1)] show ?thesis
      by (intro conjI exI [of _ "item # rejected"] exI [of _ c'] exI [of _ r']) (auto simp: relay_simps)
  next
    case (take n)
    with Cons.prems have "pick_loop rest (chunk @ [item]) remaining a = ((c, r), b)" by simp
    from Cons.IH [OF this] obtain rejected c' r' where
      "keeps a b" "ag_cache b = ag_cache a" "answers a rejected b" "c = (chunk @ [item]) @ c'"
      "r = remaining @ r'" "subseq c' rest" "subseq r' rest"
      "mset rest = mset c' + mset r' + mset rejected" by blast
    then show ?thesis
      by (intro conjI exI [of _ rejected] exI [of _ "item # c'"] exI [of _ r']) auto
  qed
qed

definition chunk_fits :: "settings \<Rightarrow> pending_request list \<Rightarrow> bool" where
  "chunk_fits s chunk \<longleftrightarrow>
     int (length chunk) \<le> as_max_batch_requests s \<and>
     (\<exists>n. batch_size_for_pending chunk s = Inr n \<and> n \<le> as_max_batch_bytes s)"

lemma pick_loop_fits:
  assumes "pick_loop pending chunk remaining a = ((c, r), b)"
    and "chunk = [] \<or> chunk_fits (ag_settings a) chunk"
  shows "c = [] \<or> chunk_fits (ag_settings a) c"
  using assms
proof (induction pending arbitrary: chunk remaining a)
  case Nil
  then show ?case by auto
next
  case (Cons item rest)
  show ?case
  proof (cases rule: pick_loop_cases [of item rest chunk remaining a])
    case later
    with Cons show ?thesis by metis
  next
    case (reject e)
    with Cons.prems Cons.IH [of chunk remaining "answer item e a"] show ?thesis
      by (simp add: relay_simps)
  next
    case (take n)
    then have "chunk_fits (ag_settings a) (chunk @ [item])" by (simp add: chunk_fits_def)
    with take Cons show ?thesis by metis
  qed
qed

lemma pick_loop_length:
  "pick_loop pending chunk remaining a = ((c, r), b) \<Longrightarrow> length r \<le> length remaining + length pending"
  using pick_loop_spec [of pending chunk remaining a c r b] by (auto dest: list_emb_length)

lemma pick_progress:
  assumes "pick_batch_chunk pending a = ((c, r), b)" and "pending \<noteq> []"
    and "0 < as_max_batch_requests (ag_settings a)"
  shows "length r < length pending"
proof -
  from assms(2) obtain item rest where p: "pending = item # rest" by (cases pending) auto
  show ?thesis
  proof (cases rule: pick_loop_cases [of item rest "[]" "[]" a])
    case later
    with assms(3) show ?thesis by simp
  next
    case (reject e)
    with assms(1) have "pick_loop rest [] [] (answer item e a) = ((c, r), b)"
      by (simp add: p pick_batch_chunk_def)
    from pick_loop_length [OF this] show ?thesis by (simp add: p)
  next
    case (take n)
    with assms(1) have "pick_loop rest [item] [] a = ((c, r), b)"
      by (simp add: p pick_batch_chunk_def)
    from pick_loop_length [OF this] show ?thesis by (simp add: p)
  qed
qed

subsection \<open>The units\<close>

definition unit_items :: "dispatch_unit \<Rightarrow> pending_request list" where
  "unit_items u = du_primary u # du_duplicates u"

definition units_items :: "dispatch_unit list \<Rightarrow> pending_request list" where
  "units_items us = concat (map unit_items us)"

text \<open>
  A unit stands for requests of one cache key: its primary and its duplicates; only a cacheable
  unit has duplicates.
\<close>

definition unit_ok :: "dispatch_unit \<Rightarrow> bool" where
  "unit_ok u \<longleftrightarrow>
     cache_key_for_request (pr_request (du_primary u)) = (du_cache_key u, du_cacheable u) \<and>
     (\<forall>d \<in> set (du_duplicates u). cache_key_for_request (pr_request d) = (du_cache_key u, True) \<and> du_cacheable u)"

definition dedupe_ok :: "dispatch_unit list \<Rightarrow> nat gomap \<Rightarrow> bool" where
  "dedupe_ok us m \<longleftrightarrow>
     (\<forall>u \<in> set us. unit_ok u) \<and>
     (\<forall>k i. map_of m k = Some i \<longrightarrow> i < length us \<and> du_cacheable (us ! i) \<and> du_cache_key (us ! i) = k) \<and>
     (\<forall>i < length us. du_cacheable (us ! i) \<longrightarrow> map_of m (du_cache_key (us ! i)) = Some i)"

definition units_absent :: "dispatch_unit list \<Rightarrow> agent \<Rightarrow> bool" where
  "units_absent us a \<longleftrightarrow> (\<forall>u \<in> set us. du_cacheable u \<longrightarrow> map_of (ag_cache a) (du_cache_key u) = None)"

abbreviation add_duplicate :: "dispatch_unit list \<Rightarrow> nat \<Rightarrow> pending_request \<Rightarrow> dispatch_unit list" where
  "add_duplicate us i p \<equiv> us[i := (us ! i) \<lparr> du_duplicates := du_duplicates (us ! i) @ [p] \<rparr>]"

abbreviation fresh_unit :: "pending_request \<Rightarrow> dispatch_unit" where
  "fresh_unit p \<equiv>
     \<lparr> du_primary = p, du_duplicates = [], du_cache_key = fst (cache_key_for_request (pr_request p)),
       du_cacheable = snd (cache_key_for_request (pr_request p)) \<rparr>"

lemma load_cache_shape: "cache_shape a \<Longrightarrow> cache_shape (snd (load_cache_entry k t a))"
  using cache_ok_load [of a k t] set_delete_subset [of k "ag_cache a"]
  by (auto simp: cache_shape_def load_cache_entry_def set_cache_def split: if_splits option.splits)

lemma load_hit_shape:
  "cache_shape a \<Longrightarrow> load_cache_entry k t a = (Some r, b) \<Longrightarrow> result_shape r \<and> b = a"
  by (auto simp: cache_shape_def load_cache_entry_def split: if_splits option.splits dest!: map_of_SomeD)

lemma load_miss_absent:
  assumes "cache_ok a" and "load_cache_entry k t a = (None, b)"
  shows "map_of (ag_cache b) k = None"
proof -
  from assms(1) have "map_of (ag_cache a) [] = None" "\<not> cache_enabled a \<Longrightarrow> ag_cache a = []"
    by (auto simp: cache_ok_def map_of_eq_None_iff)
  with assms(2) show ?thesis
    by (auto simp: load_cache_entry_def set_cache_def delete_conv' split: if_splits option.splits)
qed

lemma load_shrinks:
  "map_of (ag_cache a) l = None \<Longrightarrow> map_of (ag_cache (snd (load_cache_entry k t a))) l = None"
  by (auto simp: load_cache_entry_def set_cache_def delete_conv' split: option.splits)

lemma prepare_loop_cases:
  assumes "cache_shape a"
  obtains (served) r where
      "prepare_loop now (item # rest) us m a = prepare_loop now rest us m (answer item r (record_cache_hit a))"
      "rr_request_id r = item_id item" "result_shape r"
  | (duplicate) b i where
      "prepare_loop now (item # rest) us m a = prepare_loop now rest (add_duplicate us i item) m (record_deduplicated b)"
      "b = snd (load_cache_entry (fst (cache_key_for_request (pr_request item))) now a)"
      "map_of m (fst (cache_key_for_request (pr_request item))) = Some i"
      "snd (cache_key_for_request (pr_request item))"
  | (fresh) b where
      "prepare_loop now (item # rest) us m a = prepare_loop now rest (us @ [fresh_unit item])
         (if snd (cache_key_for_request (pr_request item))
          then AList.update (fst (cache_key_for_request (pr_request item))) (length us) m else m) b"
      "b = (if snd (cache_key_for_request (pr_request item))
            then snd (load_cache_entry (fst (cache_key_for_request (pr_request item))) now a) else a)"
      "snd (cache_key_for_request (pr_request item)) \<Longrightarrow>
         map_of m (fst (cache_key_for_request (pr_request item))) = None \<and>
         map_of (ag_cache b) (fst (cache_key_for_request (pr_request item))) = None"
proof -
  obtain k c where kc: "cache_key_for_request (pr_request item) = (k, c)" by fastforce
  obtain l b where lb: "load_cache_entry k now a = (l, b)" by fastforce
  consider "\<not> c" | "c" "l \<noteq> None" | i where "c" "l = None" "map_of m k = Some i"
    | "c" "l = None" "map_of m k = None" by (cases c; cases l; cases "map_of m k") auto
  then show thesis
  proof cases
    case 1
    then show thesis by (intro fresh) (auto simp: kc)
  next
    case 2
    then obtain r where r: "l = Some r" by blast
    with load_hit_shape [OF assms, of k now r b] lb have "result_shape r" "b = a" by auto
    with 2 r lb show thesis
      by (intro served [of "clone_result_for_request r (item_id item)"]) (auto simp: kc)
  next
    case 3
    with lb show thesis by (intro duplicate [of i b]) (auto simp: kc)
  next
    case 4
    moreover have "map_of (ag_cache b) k = None"
      using load_miss_absent [of a k now b] assms lb 4 by (simp add: cache_shape_def)
    ultimately show thesis using lb by (intro fresh [of b]) (auto simp: kc)
  qed
qed

lemma units_items_simps [simp]:
  "units_items [] = []" "units_items (us @ [u]) = units_items us @ unit_items u"
  "units_items (u # us) = unit_items u @ units_items us"
  by (simp_all add: units_items_def)

lemma add_duplicate_items:
  "i < length us \<Longrightarrow> mset (units_items (add_duplicate us i p)) = add_mset p (mset (units_items us))"
  using concat_map_list_update [of i us unit_items "(us ! i) \<lparr> du_duplicates := du_duplicates (us ! i) @ [p] \<rparr>"]
  by (simp add: units_items_def unit_items_def)

lemma dedupe_ok_duplicate:
  assumes "dedupe_ok us m" and "map_of m k = Some i" and "cache_key_for_request (pr_request p) = (k, True)"
  shows "dedupe_ok (add_duplicate us i p) m"
proof -
  from assms have i: "i < length us" "du_cacheable (us ! i)" "du_cache_key (us ! i) = k"
    "unit_ok (us ! i)" by (auto simp: dedupe_ok_def)
  with assms(3) have "unit_ok ((us ! i) \<lparr> du_duplicates := du_duplicates (us ! i) @ [p] \<rparr>)"
    by (auto simp: unit_ok_def)
  with assms(1) i show ?thesis
    by (auto simp: dedupe_ok_def nth_list_update dest!: subsetD [OF set_update_subset_insert])
qed

lemma dedupe_ok_fresh:
  assumes "dedupe_ok us m" and "cache_key_for_request (pr_request p) = (k, c)"
    and "c \<Longrightarrow> map_of m k = None"
  shows "dedupe_ok (us @ [fresh_unit p]) (if c then AList.update k (length us) m else m)"
  using assms
  by (auto simp: dedupe_ok_def unit_ok_def nth_append update_conv' less_Suc_eq split: if_splits)

lemma prepare_loop_spec:
  assumes "prepare_loop now requests us m a = (vs, b)" and "cache_shape a" and "dedupe_ok us m"
    and "units_absent us a"
  shows "keeps a b \<and> cache_shape b \<and> units_absent vs b \<and> (\<exists>m'. dedupe_ok vs m') \<and>
    (\<exists>served. answers a served b \<and>
       mset requests + mset (units_items us) = mset served + mset (units_items vs))"
  using assms
proof (induction requests arbitrary: us m a)
  case Nil
  moreover from Nil have "answers a [] b" by simp
  ultimately show ?case by auto
next
  case (Cons item rest)
  from Cons.prems(2) show ?case
  proof (cases rule: prepare_loop_cases [of a now item rest us m])
    case (served r)
    let ?a = "answer item r (record_cache_hit a)"
    from served(1) Cons.prems(1) have "prepare_loop now rest us m ?a = (vs, b)" by simp
    moreover have "cache_shape ?a" "units_absent us ?a"
      using Cons.prems(2,4) by (simp_all add: cache_shape_def cache_ok_def cache_enabled_def units_absent_def relay_simps)
    ultimately obtain s where s: "keeps ?a b" "cache_shape b" "units_absent vs b" "\<exists>m'. dedupe_ok vs m'"
      "answers ?a s b" "mset rest + mset (units_items us) = mset s + mset (units_items vs)"
      using Cons.IH [OF _ _ Cons.prems(3)] by blast
    have k: "keeps a ?a" by (rule keeps_trans [OF keeps_ops(5) keeps_ops(8)])
    have "answers a [item] ?a"
      using answers_trans [OF answers_none answers_answer [OF served(2,3)], of "record_cache_hit a" a]
      by (simp add: relay_simps)
    from answers_Cons [OF this s(5)] have "answers a (item # s) b" .
    with s keeps_trans [OF k s(1)] show ?thesis
      by (intro conjI exI [of _ "item # s"]) auto
  next
    case (duplicate c i)
    let ?a = "record_deduplicated c"
    let ?us = "add_duplicate us i item"
    obtain k where k: "cache_key_for_request (pr_request item) = (k, True)"
      using duplicate(4) by (cases "cache_key_for_request (pr_request item)") auto
    with duplicate have c: "c = snd (load_cache_entry k now a)" "map_of m k = Some i" by auto
    then have i: "i < length us" using Cons.prems(3) by (auto simp: dedupe_ok_def)
    from duplicate(1) Cons.prems(1) have "prepare_loop now rest ?us m ?a = (vs, b)" by simp
    moreover have "cache_shape ?a"
      using load_cache_shape [OF Cons.prems(2), of k now]
      by (simp add: c cache_shape_def cache_ok_def cache_enabled_def relay_simps)
    moreover have "units_absent ?us ?a"
      using Cons.prems(4) i load_shrinks [of a _ k now]
      by (auto simp: units_absent_def c relay_simps dest!: subsetD [OF set_update_subset_insert])
    ultimately obtain s where s: "keeps ?a b" "cache_shape b" "units_absent vs b" "\<exists>m'. dedupe_ok vs m'"
      "answers ?a s b" "mset rest + mset (units_items ?us) = mset s + mset (units_items vs)"
      using Cons.IH [OF _ _ dedupe_ok_duplicate [OF Cons.prems(3) c(2) k]] by blast
    have kp: "keeps a ?a" unfolding c by (rule keeps_trans [OF keeps_ops(13) keeps_ops(6)])
    have "answers a s b"
      using answers_trans [OF answers_none s(5), of a] by (simp add: c relay_simps)
    with s keeps_trans [OF kp s(1)] add_duplicate_items [OF i, of item] show ?thesis
      by (intro conjI exI [of _ s]) auto
  next
    case (fresh c)
    obtain k q where k: "cache_key_for_request (pr_request item) = (k, q)" by fastforce
    let ?us = "us @ [fresh_unit item]"
    let ?m = "if q then AList.update k (length us) m else m"
    have c: "c = (if q then snd (load_cache_entry k now a) else a)"
      "q \<Longrightarrow> map_of m k = None \<and> map_of (ag_cache c) k = None" using fresh(2,3) k by auto
    from fresh(1) Cons.prems(1) k have "prepare_loop now rest ?us ?m c = (vs, b)"
      by (cases q) simp_all
    moreover have "cache_shape c"
      using load_cache_shape [OF Cons.prems(2), of k now] Cons.prems(2) by (simp add: c(1))
    moreover have "units_absent ?us c"
      using Cons.prems(4) load_shrinks [of a _ k now] c(2) k
      by (auto simp: units_absent_def c(1) split: if_splits)
    moreover have "dedupe_ok ?us ?m" using dedupe_ok_fresh [OF Cons.prems(3) k] c(2) by blast
    ultimately obtain s where s: "keeps c b" "cache_shape b" "units_absent vs b" "\<exists>m'. dedupe_ok vs m'"
      "answers c s b" "mset rest + mset (units_items ?us) = mset s + mset (units_items vs)"
      using Cons.IH by blast
    have kp: "keeps a c" unfolding c(1) by auto
    have "answers a s b"
      using answers_trans [OF answers_none s(5), of a] by (simp add: c(1) relay_simps)
    with s keeps_trans [OF kp s(1)] show ?thesis
      by (intro conjI exI [of _ s]) (auto simp: unit_items_def)
  qed
qed

lemma dedupe_ok_distinct: "dedupe_ok us m \<Longrightarrow> distinct (map du_cache_key (filter du_cacheable us))"
proof -
  assume ok: "dedupe_ok us m"
  have "distinct (map du_cache_key (filter du_cacheable vs))"
    if "\<exists>f. \<forall>i < length vs. du_cacheable (vs ! i) \<longrightarrow> f (du_cache_key (vs ! i)) = Some i" for vs
    using that
  proof (induction vs rule: rev_induct)
    case Nil
    then show ?case by simp
  next
    case (snoc u vs)
    then obtain f where f: "\<forall>i < Suc (length vs). du_cacheable ((vs @ [u]) ! i) \<longrightarrow>
      f (du_cache_key ((vs @ [u]) ! i)) = Some i" by auto
    then have fv: "\<forall>i < length vs. du_cacheable (vs ! i) \<longrightarrow> f (du_cache_key (vs ! i)) = Some i"
      by (metis less_Suc_eq nth_append_left)
    with snoc.IH have d: "distinct (map du_cache_key (filter du_cacheable vs))" by blast
    have "du_cacheable u \<Longrightarrow> f (du_cache_key u) = Some (length vs)"
      using f [rule_format, of "length vs"] by simp
    moreover have "w \<in> set vs \<Longrightarrow> du_cacheable w \<Longrightarrow> \<exists>i < length vs. f (du_cache_key w) = Some i" for w
      using fv by (auto simp: in_set_conv_nth)
    ultimately have "du_cacheable u \<Longrightarrow> du_cache_key u \<notin> du_cache_key ` set (filter du_cacheable vs)"
      by fastforce
    with d show ?case by auto
  qed
  with ok show ?thesis unfolding dedupe_ok_def by blast
qed

end
