(* ===== verification/Agent_Dispatch.thy ===== *)
theory Agent_Dispatch
  imports Agent_Batch
begin

text \<open>
  One dispatch of \<^verbatim>\<open>client/internal/agent/agent.go\<close>: \<^verbatim>\<open>dispatchBatch\<close> with \<^verbatim>\<open>failUnits\<close> and the two
  stale-if-error recoveries. The method is cut at its call of \<^verbatim>\<open>Dispatcher.ProcessBatch\<close>:
  \<open>dispatch_begin\<close> is what comes before it and yields the batch in flight, \<open>dispatch_finish\<close> what
  comes after it, given the package or the error the call returned. \<open>dispatch_batch\<close> is their
  composition for a dispatcher that answers at once. The dispatcher is a parameter.
\<close>

subsection \<open>Failing units\<close>

definition recoverable_codes :: "string list" where
  "recoverable_codes = [''RUN_DELAYED'', ''DISPATCH_FAILED'', ''WORKER_ERROR'', ''RESULT_PACKAGE_NOT_FOUND'']"

definition is_recoverable_code :: "string \<Rightarrow> bool" where
  "is_recoverable_code code = (code \<in> set recoverable_codes)"

definition fail_open_enabled :: "agent \<Rightarrow> bool" where
  "fail_open_enabled a = (as_reliability_mode (ag_settings a) = reliability_fail_open)"

definition unit_id :: "dispatch_unit \<Rightarrow> string" where
  "unit_id u = item_id (du_primary u)"

definition recover_stale_for_missing :: "dispatch_unit \<Rightarrow> agent \<Rightarrow> request_result option \<times> agent" where
  "recover_stale_for_missing u a =
     (if \<not> fail_open_enabled a \<or> \<not> du_cacheable u then (None, a)
      else (case read_clock a of (now, a) \<Rightarrow>
        (case load_stale_cache_entry (du_cache_key u) now a of
           None \<Rightarrow> (None, a)
         | Some stale \<Rightarrow> (Some (clone_result_for_request stale (unit_id u)), record_fail_open_served a))))"

definition recover_stale_for_error ::
  "dispatch_unit \<Rightarrow> string \<Rightarrow> agent \<Rightarrow> request_result option \<times> agent" where
  "recover_stale_for_error u code a =
     (if \<not> fail_open_enabled a \<or> \<not> du_cacheable u \<or> \<not> is_recoverable_code code then (None, a)
      else (case read_clock a of (now, a) \<Rightarrow>
        (case load_stale_cache_entry (du_cache_key u) now a of
           None \<Rightarrow> (None, a)
         | Some stale \<Rightarrow> (Some (clone_result_for_request stale (unit_id u)), record_fail_open_served a))))"

definition answer_duplicates :: "pending_request list \<Rightarrow> request_result \<Rightarrow> agent \<Rightarrow> agent" where
  "answer_duplicates ds result =
     fold (\<lambda>d. answer d (clone_result_for_request result (item_id d))) ds"

definition fail_unit :: "string \<Rightarrow> string \<Rightarrow> dispatch_unit \<Rightarrow> agent \<Rightarrow> agent" where
  "fail_unit code safe_message u a =
     (case recover_stale_for_error u code a of (recovered, a) \<Rightarrow>
        let primary_result = (case recovered of
              Some r \<Rightarrow> r | None \<Rightarrow> error_result (unit_id u) code safe_message)
        in answer_duplicates (du_duplicates u) primary_result (answer (du_primary u) primary_result a))"

definition fail_units :: "dispatch_unit list \<Rightarrow> string \<Rightarrow> string \<Rightarrow> agent \<Rightarrow> agent" where
  "fail_units units code message = fold (fail_unit code (redact_secret_text message)) units"

subsection \<open>Before the call\<close>

record flight =
  fl_batch :: request_batch
  fl_units :: "dispatch_unit list"
  fl_dispatched_at :: time

definition request_ids :: "dispatch_unit list \<Rightarrow> string list" where
  "request_ids units = map unit_id units"

definition dispatch_begin :: "pending_request list \<Rightarrow> agent \<Rightarrow> flight option \<times> agent" where
  "dispatch_begin requests a =
     (case prepare_dispatch_units requests a of (units, a) \<Rightarrow>
        if units = [] then (None, a)
        else (case new_id ''batch'' a of (batch_id, a) \<Rightarrow>
          (case read_clock a of (now, a) \<Rightarrow>
            let batch = make_batch batch_id (format_rfc3339 now) (ag_settings a)
                          (map (pr_request \<circ> du_primary) units)
            in (case validate_request_batch batch of
                Some e \<Rightarrow> (None, fail_units units ''WORKER_ERROR''
                                  (''request batch validation failed: '' @ err_text e) a)
              | None \<Rightarrow>
                  (case batch_size_bytes batch of
                     Inl e \<Rightarrow> (None, fail_units units ''BATCH_TOO_LARGE'' ''failed to size request batch'' a)
                   | Inr batch_size \<Rightarrow>
                       if as_max_batch_bytes (ag_settings a) < batch_size
                       then (None, fail_units units ''BATCH_TOO_LARGE'' ''request batch exceeds max bytes'' a)
                       else (case read_clock (record_batch_dispatched batch_id (length units) a) of
                           (dispatched_at, a) \<Rightarrow>
                             (Some \<lparr> fl_batch = batch, fl_units = units, fl_dispatched_at = dispatched_at \<rparr>,
                              a)))))))"

subsection \<open>After the call\<close>

text \<open>The loop that indexes results by id and suppresses duplicates.\<close>

definition results_by_id :: "request_result list \<Rightarrow> request_result gomap" where
  "results_by_id rs =
     fold (\<lambda>r m. if gomap_has m (rr_request_id r) then m else AList.update (rr_request_id r) r m) rs []"

definition deliver_unit :: "request_result gomap \<Rightarrow> dispatch_unit \<Rightarrow> agent \<Rightarrow> agent" where
  "deliver_unit by_id u a =
     (case (case map_of by_id (unit_id u) of
              Some r \<Rightarrow> (r, a)
            | None \<Rightarrow>
                (case recover_stale_for_missing u a of
                   (Some r, a) \<Rightarrow> (r, a)
                 | (None, a) \<Rightarrow>
                     (error_result (unit_id u) ''RESULT_PACKAGE_NOT_FOUND''
                        ''request result missing from package'', a)))
      of (found, a) \<Rightarrow>
        let primary_result = sanitize_result found;
            a = answer (du_primary u) primary_result a;
            a = (if du_cacheable u \<and> should_cache_result primary_result
                 then (case read_clock a of (now, a) \<Rightarrow>
                   store_cache_entry (du_cache_key u)
                     (clone_result_for_request primary_result (unit_id u)) now a)
                 else a)
        in answer_duplicates (du_duplicates u) primary_result a)"

definition dispatch_finish :: "flight \<Rightarrow> result_package res \<Rightarrow> agent \<Rightarrow> agent" where
  "dispatch_finish fl outcome a =
     (case outcome of
        Inl e \<Rightarrow>
          (let a = record_dispatch_error e a in
           if is_run_delayed_error e
           then fail_units (fl_units fl) ''RUN_DELAYED'' (err_text e) (activate_backpressure run_delayed_reason a)
           else fail_units (fl_units fl) ''DISPATCH_FAILED'' (err_text e) a)
      | Inr package \<Rightarrow>
          (case read_clock a of (now, a) \<Rightarrow>
            let a = record_dispatch_success (time_sub now (fl_dispatched_at fl)) a in
            (case verify_result_package_for_batch package (rb_batch_id (fl_batch fl)) (request_ids (fl_units fl)) of
               Some e \<Rightarrow>
                 fail_units (fl_units fl) ''RESULT_PACKAGE_NOT_FOUND''
                   (''result package verification failed: '' @ err_text e) (record_dispatch_error e a)
             | None \<Rightarrow> fold (deliver_unit (results_by_id (rp_results package))) (fl_units fl) a)))"

definition dispatch_batch ::
  "(request_batch \<Rightarrow> result_package res) \<Rightarrow> pending_request list \<Rightarrow> agent \<Rightarrow> agent" where
  "dispatch_batch process requests a =
     (case dispatch_begin requests a of
        (None, a) \<Rightarrow> a
      | (Some fl, a) \<Rightarrow> dispatch_finish fl (process (fl_batch fl)) a)"

subsection \<open>Every request of a unit is answered\<close>

lemma answer_duplicates_spec:
  assumes "result_shape r"
  shows "keeps a (answer_duplicates ds r a) \<and> ag_cache (answer_duplicates ds r a) = ag_cache a \<and>
    answers a ds (answer_duplicates ds r a)"
proof (induction ds arbitrary: a)
  case Nil
  then show ?case by (simp add: answer_duplicates_def)
next
  case (Cons d ds)
  let ?r = "clone_result_for_request r (item_id d)"
  let ?b = "answer d ?r a"
  have e: "answer_duplicates (d # ds) r a = answer_duplicates ds r ?b"
    by (simp add: answer_duplicates_def)
  have "answers a [d] ?b" using assms by (intro answers_answer) simp_all
  with Cons.IH [of ?b] keeps_trans [OF keeps_ops(8)] answers_Cons show ?case
    unfolding e by (metis frame_cache(12))
qed

lemma answer_unit_spec:
  assumes "result_shape r" and "rr_request_id r = unit_id u"
  shows "keeps a (answer_duplicates (du_duplicates u) r (answer (du_primary u) r a)) \<and>
    ag_cache (answer_duplicates (du_duplicates u) r (answer (du_primary u) r a)) = ag_cache a \<and>
    answers a (unit_items u) (answer_duplicates (du_duplicates u) r (answer (du_primary u) r a))"
proof -
  let ?b = "answer (du_primary u) r a"
  note d = answer_duplicates_spec [OF assms(1), of ?b "du_duplicates u"]
  have "answers a [du_primary u] ?b" using assms by (intro answers_answer) (simp_all add: unit_id_def)
  with d answers_Cons have "answers a (unit_items u) (answer_duplicates (du_duplicates u) r ?b)"
    unfolding unit_items_def by blast
  moreover from d keeps_trans [OF keeps_ops(8)]
  have "keeps a (answer_duplicates (du_duplicates u) r ?b)" by blast
  ultimately show ?thesis using d by (simp add: relay_simps)
qed

text \<open>A unit whose key is not in the cache has nothing stale to fall back on.\<close>

lemma stale_absent: "map_of (ag_cache a) k = None \<Longrightarrow> load_stale_cache_entry k t a = None"
  by (simp add: load_stale_cache_entry_def)

lemma recover_error_absent:
  assumes "du_cacheable u \<Longrightarrow> map_of (ag_cache a) (du_cache_key u) = None"
  shows "\<exists>b. recover_stale_for_error u code a = (None, b) \<and> keeps a b \<and> ag_cache b = ag_cache a \<and>
    ag_sends b = ag_sends a"
proof (cases "\<not> fail_open_enabled a \<or> \<not> du_cacheable u \<or> \<not> is_recoverable_code code")
  case True
  then show ?thesis by (auto simp: recover_stale_for_error_def)
next
  case False
  let ?b = "snd (read_clock a)"
  from assms False have "map_of (ag_cache ?b) (du_cache_key u) = None" by (simp add: relay_simps)
  with False have "recover_stale_for_error u code a = (None, ?b)"
    by (simp add: recover_stale_for_error_def stale_absent case_prod_beta)
  then show ?thesis by (auto simp: relay_simps)
qed

lemma fail_unit_spec:
  assumes "du_cacheable u \<Longrightarrow> map_of (ag_cache a) (du_cache_key u) = None"
  shows "keeps a (fail_unit code m u a) \<and> ag_cache (fail_unit code m u a) = ag_cache a \<and>
    answers a (unit_items u) (fail_unit code m u a)"
proof -
  from recover_error_absent [OF assms] obtain b where
    b: "recover_stale_for_error u code a = (None, b)" "keeps a b" "ag_cache b = ag_cache a"
    "ag_sends b = ag_sends a" by blast
  note s = answer_unit_spec [of "error_result (unit_id u) code m" u b]
  from b(1) have e: "fail_unit code m u a = answer_duplicates (du_duplicates u)
      (error_result (unit_id u) code m) (answer (du_primary u) (error_result (unit_id u) code m) b)"
    by (simp add: fail_unit_def Let_def)
  from s answers_trans [OF answers_none [OF b(4)]] have
    "answers a (unit_items u) (fail_unit code m u a)" unfolding e by fastforce
  with s b keeps_trans [OF b(2)] show ?thesis unfolding e by simp
qed

lemma fail_units_spec:
  assumes "units_absent us a"
  shows "keeps a (fail_units us code m a) \<and> ag_cache (fail_units us code m a) = ag_cache a \<and>
    answers a (units_items us) (fail_units us code m a)"
  using assms
proof (induction us arbitrary: a)
  case Nil
  then show ?case by (simp add: fail_units_def)
next
  case (Cons u us)
  let ?b = "fail_unit code (redact_secret_text m) u a"
  from Cons.prems have u: "du_cacheable u \<Longrightarrow> map_of (ag_cache a) (du_cache_key u) = None"
    by (simp add: units_absent_def)
  note f = fail_unit_spec [OF u, of code "redact_secret_text m"]
  have e: "fail_units (u # us) code m a = fail_units us code m ?b" by (simp add: fail_units_def)
  from Cons.prems f have "units_absent us ?b" by (simp add: units_absent_def)
  from Cons.IH [OF this] f show ?case
    unfolding e using keeps_trans answers_trans by (simp, blast)
qed

subsection \<open>Delivering a package\<close>

lemma results_by_id_fold:
  "map_of (fold (\<lambda>r m. if gomap_has m (rr_request_id r) then m else AList.update (rr_request_id r) r m) rs m) i =
     (case map_of m i of Some r \<Rightarrow> Some r | None \<Rightarrow> find (\<lambda>r. rr_request_id r = i) rs)"
proof (induction rs arbitrary: m)
  case Nil
  then show ?case by (simp split: option.split)
next
  case (Cons r rs)
  show ?case
    by (simp only: fold_simps Cons.IH) (auto simp: gomap_has_def update_conv' split: option.splits)
qed

lemma map_of_results_by_id: "map_of (results_by_id rs) i = find (\<lambda>r. rr_request_id r = i) rs"
  by (simp add: results_by_id_def results_by_id_fold)

lemma sanitize_cacheable_shape: "result_shape r \<Longrightarrow> result_shape (clone_result_for_request (sanitize_result r) i)"
  by simp

lemma should_cache_clone [simp]: "should_cache_result (clone_result_for_request r i) = should_cache_result r"
  by (auto simp: should_cache_result_def clone_result_for_request_def split: option.splits)

lemma store_cache_shape:
  assumes "cache_shape a" and "result_shape r" and "should_cache_result r"
  shows "cache_shape (store_cache_entry k r t a)"
proof -
  have ok: "cache_ok (store_cache_entry k r t a)"
    using assms(1) cache_ok_store by (simp add: cache_shape_def)
  let ?e = "\<lparr> en_expires_at = t + as_cache_ttl (ag_settings a), en_result = r, en_stored_at = t \<rparr>"
  have sub: "set (AList.update k ?e c) \<subseteq> insert (k, ?e) (set c)" for c
    by (induction c) auto
  have "set (ag_cache (store_cache_entry k r t a)) \<subseteq> insert (k, ?e) (set (ag_cache a))"
    using sub [of "ag_cache a"] subset_trans [OF sub [of "AList.delete (oldest_entry (ag_cache a) [] 0) (ag_cache a)"]
        insert_mono [OF set_delete_subset]]
    by (auto simp: store_cache_entry_def set_cache_def Let_def)
  with assms ok show ?thesis
    unfolding cache_shape_def by (auto dest!: subsetD)
qed

lemma deliver_unit_spec:
  assumes "map_of by_id (unit_id u) = Some r" and "rr_request_id r = unit_id u" and "result_shape r"
    and "cache_shape a"
  shows "keeps a (deliver_unit by_id u a) \<and> cache_shape (deliver_unit by_id u a) \<and>
    answers a (unit_items u) (deliver_unit by_id u a)"
proof -
  let ?p = "sanitize_result r"
  let ?a1 = "answer (du_primary u) ?p a"
  define b where "b = (if du_cacheable u \<and> should_cache_result ?p
    then (case read_clock ?a1 of (now, a) \<Rightarrow> store_cache_entry (du_cache_key u)
            (clone_result_for_request ?p (unit_id u)) now a) else ?a1)"
  have e: "deliver_unit by_id u a = answer_duplicates (du_duplicates u) ?p b"
    using assms(1) by (simp add: deliver_unit_def b_def Let_def)
  have shape1: "cache_shape ?a1" "cache_shape (snd (read_clock ?a1))"
    using assms(4) by (simp_all add: cache_shape_def cache_ok_def cache_enabled_def relay_simps)
  have b: "keeps ?a1 b" "ag_sends b = ag_sends ?a1" "cache_shape b"
    using shape1 assms(3) keeps_trans [OF keeps_ops(9) keeps_ops(14)]
    by (auto simp: b_def relay_simps case_prod_beta store_cache_shape)
  note d = answer_duplicates_spec [of ?p b "du_duplicates u"]
  have "answers a [du_primary u] ?a1"
    using assms by (intro answers_answer) (simp_all add: unit_id_def)
  then have "answers a [du_primary u] b" by (rule answers_step) (rule b(2))
  with d assms(3) answers_Cons have "answers a (unit_items u) (answer_duplicates (du_duplicates u) ?p b)"
    unfolding unit_items_def by (metis sanitize_shape)
  moreover have "keeps a (answer_duplicates (du_duplicates u) ?p b)"
    using keeps_trans [OF keeps_ops(8) keeps_trans [OF b(1)]] d assms(3) by (metis sanitize_shape)
  moreover have "cache_shape (answer_duplicates (du_duplicates u) ?p b)"
    using d assms(3) b(3) calculation(2) b(1)
    by (simp add: cache_shape_def cache_ok_def cache_enabled_def keeps_def)
  ultimately show ?thesis unfolding e by blast
qed

lemma deliver_units_spec:
  assumes "\<And>u. u \<in> set us \<Longrightarrow> \<exists>r. map_of by_id (unit_id u) = Some r \<and>
      rr_request_id r = unit_id u \<and> result_shape r"
    and "cache_shape a"
  shows "keeps a (fold (deliver_unit by_id) us a) \<and> cache_shape (fold (deliver_unit by_id) us a) \<and>
    answers a (units_items us) (fold (deliver_unit by_id) us a)"
  using assms
proof (induction us arbitrary: a)
  case Nil
  then show ?case by simp
next
  case (Cons u us)
  from Cons.prems(1) [of u] obtain r where
    "map_of by_id (unit_id u) = Some r" "rr_request_id r = unit_id u" "result_shape r" by auto
  note d = deliver_unit_spec [OF this Cons.prems(2)]
  from Cons.IH [of "deliver_unit by_id u a"] Cons.prems(1) d
  have "keeps (deliver_unit by_id u a) (fold (deliver_unit by_id) (u # us) a) \<and>
      cache_shape (fold (deliver_unit by_id) (u # us) a) \<and>
      answers (deliver_unit by_id u a) (units_items us) (fold (deliver_unit by_id) (u # us) a)"
    by simp
  with d keeps_trans answers_trans show ?case unfolding units_items_simps by blast
qed

subsection \<open>One dispatch\<close>

text \<open>What is true of a batch between the two halves of a dispatch.\<close>

definition flight_ok :: "flight \<Rightarrow> agent \<Rightarrow> bool" where
  "flight_ok fl a \<longleftrightarrow>
     batch_wf (fl_batch fl) \<and>
     int (length (json_text (batch_json (fl_batch fl)))) \<le> as_max_batch_bytes (ag_settings a) \<and>
     rb_requests (fl_batch fl) = map (pr_request \<circ> du_primary) (fl_units fl) \<and>
     units_absent (fl_units fl) a \<and> (\<exists>m. dedupe_ok (fl_units fl) m)"

definition in_flight :: "flight option \<Rightarrow> pending_request list" where
  "in_flight f = (case f of None \<Rightarrow> [] | Some fl \<Rightarrow> units_items (fl_units fl))"

lemma in_flight_simps [simp]:
  "in_flight None = []" "in_flight (Some fl) = units_items (fl_units fl)"
  by (simp_all add: in_flight_def)

lemma cache_shape_cong:
  "cache_shape a \<Longrightarrow> ag_cache b = ag_cache a \<Longrightarrow> ag_settings b = ag_settings a \<Longrightarrow> cache_shape b"
  by (simp add: cache_shape_def cache_ok_def cache_enabled_def)

lemma prepare_units_spec:
  assumes "prepare_dispatch_units requests a = (us, b)" and "cache_shape a"
  shows "keeps a b \<and> cache_shape b \<and> units_absent us b \<and> (\<exists>m. dedupe_ok us m) \<and>
    (\<exists>served. answers a served b \<and> mset requests = mset served + mset (units_items us))"
proof -
  let ?a = "snd (read_clock a)"
  from assms(1) have "prepare_loop (fst (read_clock a)) requests [] [] ?a = (us, b)"
    by (simp add: prepare_dispatch_units_def case_prod_beta)
  moreover have "cache_shape ?a" by (rule cache_shape_cong [OF assms(2)]) (simp_all add: relay_simps)
  moreover have "dedupe_ok [] []" "units_absent [] ?a" by (simp_all add: dedupe_ok_def units_absent_def)
  ultimately have "keeps ?a b" "cache_shape b" "units_absent us b" "\<exists>m. dedupe_ok us m"
    "\<exists>served. answers ?a served b \<and> mset requests = mset served + mset (units_items us)"
    using prepare_loop_spec [of "fst (read_clock a)" requests "[]" "[]" ?a us b] by auto
  then show ?thesis
    using keeps_trans [OF keeps_ops(9)] answers_trans [OF answers_none, of ?a a]
    by (metis append_Nil frame_sends(13))
qed

lemma fail_all:
  assumes "units_absent us a" and "cache_shape a"
  shows "keeps a (fail_units us code m a) \<and> cache_shape (fail_units us code m a) \<and>
    answers a (units_items us) (fail_units us code m a)"
  using fail_units_spec [OF assms(1), of code m] assms(2)
  by (auto intro: cache_shape_cong keeps_settings)

lemma dispatch_begin_spec:
  assumes "dispatch_begin requests a = (fo, b)" and "cache_shape a"
  shows "keeps a b \<and> cache_shape b \<and> (\<forall>fl. fo = Some fl \<longrightarrow> flight_ok fl b) \<and>
    (\<exists>served. answers a served b \<and> mset requests = mset served + mset (in_flight fo))"
proof -
  obtain us c where p: "prepare_dispatch_units requests a = (us, c)" by fastforce
  from prepare_units_spec [OF p assms(2)] obtain served where
    s: "keeps a c" "cache_shape c" "units_absent us c" "\<exists>m. dedupe_ok us m"
       "answers a served c" "mset requests = mset served + mset (units_items us)" by blast
  let ?i = "fst (new_id ''batch'' c)" and ?d = "snd (new_id ''batch'' c)"
  let ?t = "format_rfc3339 (fst (read_clock ?d))" and ?e = "snd (read_clock ?d)"
  let ?batch = "make_batch ?i ?t (ag_settings ?e) (map (pr_request \<circ> du_primary) us)"
  have e: "keeps c ?e" "ag_cache ?e = ag_cache c" "ag_sends ?e = ag_sends c"
    using keeps_trans [OF keeps_ops(10) keeps_ops(9)] by (simp_all add: relay_simps)
  have ae: "keeps a ?e" "cache_shape ?e" "units_absent us ?e" "answers a served ?e"
    using keeps_trans [OF s(1) e(1)] s e(2) answers_step [OF s(5) e(3)]
      cache_shape_cong [OF s(2) e(2) keeps_settings [OF e(1)]]
    by (simp_all add: units_absent_def)
  note fails = fail_all [OF ae(3,2)]
  have failed: ?thesis if "fo = None" "b = fail_units us code m ?e" for code m
    using that fails [of code m] keeps_trans [OF ae(1)] answers_trans [OF ae(4)] s(6)
    by (auto intro!: exI [of _ "served @ units_items us"])
  show ?thesis
  proof (cases "us = []")
    case True
    with assms(1) p have "fo = None" "b = c" by (simp_all add: dispatch_begin_def)
    with s True show ?thesis by auto
  next
    case False
    show ?thesis
    proof (cases "validate_request_batch ?batch")
      case (Some err)
      with assms(1) p False have "fo = None" "b = fail_units us ''WORKER_ERROR''
          (''request batch validation failed: '' @ err_text err) ?e"
        by (simp_all add: dispatch_begin_def case_prod_beta Let_def)
      then show ?thesis by (rule failed)
    next
      case None
      show ?thesis
      proof (cases "as_max_batch_bytes (ag_settings ?e) < int (length (json_text (batch_json ?batch)))")
        case True
        with assms(1) p False None have "fo = None"
          "b = fail_units us ''BATCH_TOO_LARGE'' ''request batch exceeds max bytes'' ?e"
          by (simp_all add: dispatch_begin_def case_prod_beta Let_def batch_size_bytes_def)
        then show ?thesis by (rule failed)
      next
        case fits: False
        let ?f = "record_batch_dispatched ?i (length us) ?e" and ?g = "snd (read_clock (record_batch_dispatched ?i (length us) ?e))"
        from assms(1) p False None fits have
          fo: "fo = Some \<lparr> fl_batch = ?batch, fl_units = us, fl_dispatched_at = fst (read_clock ?f) \<rparr>"
          and b: "b = ?g"
          by (simp_all add: dispatch_begin_def case_prod_beta Let_def batch_size_bytes_def)
        have g: "keeps ?e ?g" "ag_cache ?g = ag_cache ?e" "ag_sends ?g = ag_sends ?e"
          using keeps_trans [OF keeps_ops(1) keeps_ops(9)] by (simp_all add: relay_simps)
        have "flight_ok \<lparr> fl_batch = ?batch, fl_units = us, fl_dispatched_at = fst (read_clock ?f) \<rparr> ?g"
          using None fits ae(3) s(4)
          by (simp add: flight_ok_def validate_batch_lemma make_batch_def units_absent_def relay_simps)
        then show ?thesis
          unfolding fo b using keeps_trans [OF ae(1) g(1)] answers_step [OF ae(4) g(3)] s(6)
            cache_shape_cong [OF ae(2) g(2) keeps_settings [OF g(1)]] by auto
      qed
    qed
  qed
qed

text \<open>In a package that passed verification every unit finds its result.\<close>

lemma verified_result:
  assumes "verify_result_package_for_batch p i (request_ids us) = None" and "u \<in> set us"
  shows "\<exists>r. map_of (results_by_id (rp_results p)) (unit_id u) = Some r \<and>
    rr_request_id r = unit_id u \<and> result_shape r"
proof -
  from assms(1) have cov: "package_wf p" "rr_request_id ` set (rp_results p) = set (request_ids us)"
    by (simp_all add: verify_package_lemma package_covers_def)
  from assms(2) have "unit_id u \<in> set (request_ids us)" by (simp add: request_ids_def)
  then have "unit_id u \<in> rr_request_id ` set (rp_results p)" by (simp add: cov(2))
  then have "find (\<lambda>r. rr_request_id r = unit_id u) (rp_results p) \<noteq> None"
    by (auto simp: find_None_iff)
  then obtain r where r: "find (\<lambda>r. rr_request_id r = unit_id u) (rp_results p) = Some r" by blast
  then have "r \<in> set (rp_results p)" "rr_request_id r = unit_id u"
    by (auto simp: find_Some_iff)
  with cov(1) r show ?thesis
    by (auto simp: map_of_results_by_id package_wf_def result_wf_def)
qed

lemma dispatch_finish_spec:
  assumes "flight_ok fl a" and "cache_shape a"
  shows "keeps a (dispatch_finish fl outcome a) \<and> cache_shape (dispatch_finish fl outcome a) \<and>
    answers a (units_items (fl_units fl)) (dispatch_finish fl outcome a)"
proof -
  let ?us = "fl_units fl"
  have chain: "keeps a (fail_units ?us code m b) \<and> cache_shape (fail_units ?us code m b) \<and>
      answers a (units_items ?us) (fail_units ?us code m b)"
    if "keeps a b" "ag_cache b = ag_cache a" "ag_sends b = ag_sends a" for b code m
  proof -
    have "units_absent ?us b" using assms(1) that(2) by (simp add: flight_ok_def units_absent_def)
    from fail_all [OF this cache_shape_cong [OF assms(2) that(2) keeps_settings [OF that(1)]], of code m]
    show ?thesis using keeps_trans [OF that(1)] answers_trans [OF answers_none [OF that(3)]] by fastforce
  qed
  show ?thesis
  proof (cases outcome)
    case (Inl e)
    have "keeps a (record_dispatch_error e a)" "keeps a (activate_backpressure run_delayed_reason (record_dispatch_error e a))"
      using keeps_trans [OF keeps_ops(3) keeps_ops(7)] by blast+
    then show ?thesis
      using chain by (simp add: Inl dispatch_finish_def Let_def relay_simps)
  next
    case (Inr p)
    let ?b = "record_dispatch_success (time_sub (fst (read_clock a)) (fl_dispatched_at fl)) (snd (read_clock a))"
    have b: "keeps a ?b" by (rule keeps_trans [OF keeps_ops(9) keeps_ops(2)])
    show ?thesis
    proof (cases "verify_result_package_for_batch p (rb_batch_id (fl_batch fl)) (request_ids ?us)")
      case (Some e)
      have "keeps a (record_dispatch_error e ?b)" by (rule keeps_trans [OF b keeps_ops(3)])
      with chain Some show ?thesis
        by (simp add: Inr dispatch_finish_def Let_def case_prod_beta relay_simps)
    next
      case None
      have "cache_shape ?b" by (rule cache_shape_cong [OF assms(2)]) (simp_all add: relay_simps)
      from deliver_units_spec [OF verified_result [OF None] this]
      have "keeps ?b (dispatch_finish fl outcome a) \<and> cache_shape (dispatch_finish fl outcome a) \<and>
          answers ?b (units_items ?us) (dispatch_finish fl outcome a)"
        using None by (simp add: Inr dispatch_finish_def Let_def case_prod_beta)
      then show ?thesis
        using keeps_trans [OF b] answers_trans [OF answers_none, of ?b a] by (auto simp: relay_simps)
    qed
  qed
qed

lemma dispatch_batch_spec:
  assumes "cache_shape a"
  shows "keeps a (dispatch_batch process requests a) \<and> cache_shape (dispatch_batch process requests a) \<and>
    (\<exists>ps. mset ps = mset requests \<and> answers a ps (dispatch_batch process requests a))"
proof -
  obtain fo b where start: "dispatch_begin requests a = (fo, b)" by fastforce
  from dispatch_begin_spec [OF start assms] obtain served where
    s: "keeps a b" "cache_shape b" "\<forall>fl. fo = Some fl \<longrightarrow> flight_ok fl b" "answers a served b"
       "mset requests = mset served + mset (in_flight fo)" by blast
  show ?thesis
  proof (cases fo)
    case None
    with s start show ?thesis by (auto simp: dispatch_batch_def)
  next
    case (Some fl)
    with s(3) have "flight_ok fl b" by blast
    note f = dispatch_finish_spec [OF this s(2), of "process (fl_batch fl)"]
    with s start Some show ?thesis
      using keeps_trans [OF s(1)] answers_trans [OF s(4)]
      by (auto simp: dispatch_batch_def intro!: exI [of _ "served @ units_items (fl_units fl)"])
  qed
qed

end
