(* ===== verification/Agent_Classify.thy ===== *)
theory Agent_Classify
  imports Protocol Go_Url
begin

text \<open>
  The admission policy of \<^verbatim>\<open>client/internal/agent/agent.go\<close>: how a submitted request is
  normalised into a protocol item (\<^verbatim>\<open>normalizeRequest\<close>) and which items are turned away before
  they reach the queue (\<^verbatim>\<open>classifyRequest\<close>, \<^verbatim>\<open>validateDestinationHost\<close>,
  \<^verbatim>\<open>isBlockedIPAddress\<close>). The lemmas give the exact set of accepted items, the CIDR form of the
  blocked IPv4 addresses, and that an accepted item passes the batch validator.
\<close>

subsection \<open>Tables\<close>

definition allowed_methods :: "string list" where
  "allowed_methods = [''GET'', ''HEAD'', ''POST'', ''PUT'', ''PATCH'', ''DELETE'', ''OPTIONS'']"

definition rejected_headers :: "string list" where
  "rejected_headers = [''proxy-connection'', ''proxy-authenticate'', ''proxy-authorization'']"

definition metadata_blocked_hosts :: "string list" where
  "metadata_blocked_hosts =
     [''metadata'', ''metadata.google.internal'', ''metadata.google'', ''metadata.azure.internal'',
      ''metadata.aliyun.internal'', ''instance-data.ec2.internal'']"

definition metadata_blocked_ip_texts :: "string list" where
  "metadata_blocked_ip_texts =
     [''169.254.169.254'', ''100.100.100.200'', ''192.0.0.192'', ''192.0.0.170'']"

definition metadata_blocked_ips :: "ip_addr list" where
  "metadata_blocked_ips = List.map_filter parse_addr metadata_blocked_ip_texts"

subsection \<open>Normalisation\<close>

record submit_request =
  sr_method :: string
  sr_url :: string
  sr_body :: string
  sr_header :: "string gomap"

definition to_base64 :: "string \<Rightarrow> string" where
  "to_base64 body = b64_encode body"

text \<open>\<^verbatim>\<open>sort.Strings(keys)\<close>, then the map rebuilt key by key.\<close>

definition stable_headers :: "string gomap \<Rightarrow> string gomap" where
  "stable_headers m = fold (\<lambda>k s. AList.update k (gomap_get m k) s) (sort (map fst m)) []"

fun normalize_header_loop :: "string gomap \<Rightarrow> string gomap \<Rightarrow> string gomap" where
  "normalize_header_loop [] acc = acc"
| "normalize_header_loop ((key, val) # rest) acc =
     (let normalized = go_lower (trim_space key) in
      if normalized = [] then normalize_header_loop rest acc
      else normalize_header_loop rest (AList.update normalized (trim_space val) acc))"

definition normalize_request :: "submit_request \<Rightarrow> request_item" where
  "normalize_request request =
     (let method = (let m = go_upper (trim_space (sr_method request)) in
                    if m = [] then ''GET'' else m);
          headers = normalize_header_loop (sr_header request) [];
          headers = (if headers = [] then [] else stable_headers headers);
          body = (if sr_body request \<noteq> []
                  then Some \<lparr> bd_encoding = ''base64'', bd_data = to_base64 (sr_body request) \<rparr>
                  else None)
      in \<lparr> ri_request_id = [], ri_method = method, ri_url = trim_space (sr_url request),
           ri_headers = headers, ri_body = body \<rparr>)"

subsection \<open>Destination guardrails\<close>

record classification_error =
  ce_code :: string
  ce_message :: string

definition reject :: "string \<Rightarrow> string \<Rightarrow> classification_error option" where
  "reject code message = Some \<lparr> ce_code = code, ce_message = message \<rparr>"

definition is_metadata_ip_address :: "ip_addr \<Rightarrow> bool" where
  "is_metadata_ip_address a = (a \<in> set metadata_blocked_ips)"

definition is_blocked_ip_address :: "ip_addr \<Rightarrow> bool \<times> string" where
  "is_blocked_ip_address a =
     (if is_unspecified a then (True, ''unspecified destinations are blocked'')
      else if is_loopback a then (True, ''loopback destinations are blocked'')
      else if is_private a then (True, ''private network destinations are blocked'')
      else if is_link_local_unicast a \<or> is_link_local_multicast a
        then (True, ''link-local destinations are blocked'')
      else if is_multicast a then (True, ''multicast destinations are blocked'')
      else if is_metadata_ip_address a then (True, ''metadata service destinations are blocked'')
      else (False, ''''))"

definition validate_destination_host :: "go_url \<Rightarrow> classification_error option" where
  "validate_destination_host u =
     (let host = go_lower (trim_space (url_hostname u)) in
      if host = [] then reject ''URL_REJECTED'' ''url host is required''
      else if host = ''localhost'' \<or> has_suffix host ''.localhost''
        then reject ''REQUEST_BLOCKED'' ''localhost destinations are blocked''
      else if host \<in> set metadata_blocked_hosts
        then reject ''REQUEST_BLOCKED'' ''metadata destinations are blocked''
      else (case parse_addr host of
          None \<Rightarrow> None
        | Some a \<Rightarrow>
            (case is_blocked_ip_address a of
               (blocked, reason) \<Rightarrow>
                 if blocked then reject ''REQUEST_BLOCKED'' reason else None)))"

subsection \<open>Classification\<close>

definition token_list_contains :: "string \<Rightarrow> string \<Rightarrow> bool" where
  "token_list_contains raw target =
     (if raw = [] then False
      else (let lowered = go_lower (trim_space target) in
            list_ex (\<lambda>t. go_lower (trim_space t) = lowered) (split_byte CHR '','' raw)))"

fun classify_headers :: "string gomap \<Rightarrow> classification_error option" where
  "classify_headers [] = None"
| "classify_headers ((key, val) # rest) =
     (if key \<in> set rejected_headers
        then reject ''HEADER_REJECTED'' (''header '' @ go_quote key @ '' is not allowed'')
      else if key = ''accept'' \<and> contains_str (go_lower val) ''text/event-stream''
        then reject ''ROUTE_UNSUPPORTED'' ''long-lived streaming responses are not supported''
      else classify_headers rest)"

definition classify_request :: "request_item \<Rightarrow> int \<Rightarrow> int \<Rightarrow> classification_error option" where
  "classify_request request body_bytes max_body_bytes =
     (if ri_method request \<notin> set allowed_methods
        then reject ''METHOD_REJECTED'' (''method '' @ go_quote (ri_method request) @ '' is not supported'')
      else (case url_parse (ri_url request) of
          Inl e \<Rightarrow> reject ''URL_REJECTED'' ''url must be an absolute http or https URL''
        | Inr u \<Rightarrow>
            if u_host u = [] then reject ''URL_REJECTED'' ''url must be an absolute http or https URL''
            else
              (let scheme = go_lower (u_scheme u) in
               if scheme = ''ws'' \<or> scheme = ''wss''
                 then reject ''ROUTE_UNSUPPORTED'' ''websocket traffic is not supported''
               else if scheme \<noteq> ''http'' \<and> scheme \<noteq> ''https''
                 then reject ''URL_REJECTED'' ''only http and https URLs are supported''
               else if u_user u \<noteq> None
                 then reject ''URL_REJECTED'' ''url credentials are not allowed''
               else (case validate_destination_host u of
                   Some failure \<Rightarrow> Some failure
                 | None \<Rightarrow>
                     (case classify_headers (ri_headers request) of
                        Some failure \<Rightarrow> Some failure
                      | None \<Rightarrow>
                          if token_list_contains (gomap_get (ri_headers request) ''connection'') ''upgrade'' \<or>
                             equal_fold (gomap_get (ri_headers request) ''upgrade'') ''websocket''
                            then reject ''ROUTE_UNSUPPORTED'' ''websocket upgrades are not supported''
                          else if max_body_bytes < body_bytes
                            then reject ''BODY_TOO_LARGE''
                              (''request body exceeds max bytes: '' @ itoa body_bytes @ '' > '' @ itoa max_body_bytes)
                          else None)))))"

subsection \<open>Blocked addresses as prefixes\<close>

definition blocked_v4_prefixes :: "(32 word \<times> nat) list" where
  "blocked_v4_prefixes =
     [(0x00000000, 32), (0x7F000000, 8), (0x0A000000, 8), (0xAC100000, 12), (0xC0A80000, 16),
      (0xA9FE0000, 16), (0xE0000000, 4), (0x646464C8, 32), (0xC00000C0, 32), (0xC00000AA, 32)]"

lemma metadata_blocked_ips_eval:
  "metadata_blocked_ips = [V4 0xA9FEA9FE, V4 0x646464C8, V4 0xC00000C0, V4 0xC00000AA]"
  by code_simp

lemma in_cidr_32: "in_cidr a (b, 32) \<longleftrightarrow> a = b"
  by simp

lemma metadata_169_in_prefix: "a = 0xA9FEA9FE \<Longrightarrow> in_cidr a (0xA9FE0000, 16)"
  by simp

lemma octet_224: "octet4 a 0 = 224 \<Longrightarrow> in_cidr a (0xE0000000, 4)"
  by (simp flip: octet_multicast del: in_cidr.simps)

lemmas address_predicates =
  is_unspecified_def is_loopback_def is_private_def is_link_local_unicast_def
  is_link_local_multicast_def is_multicast_def is_metadata_ip_address_def
  metadata_blocked_ips_eval

lemma blocked_v4:
  "fst (is_blocked_ip_address (V4 a)) \<longleftrightarrow> (\<exists>c \<in> set blocked_v4_prefixes. in_cidr a c)"
proof -
  have m: "is_metadata_ip_address (V4 a) \<longleftrightarrow>
      a = 0xA9FEA9FE \<or> a = 0x646464C8 \<or> a = 0xC00000C0 \<or> a = 0xC00000AA"
    by (simp add: is_metadata_ip_address_def metadata_blocked_ips_eval)
  have "fst (is_blocked_ip_address (V4 a)) \<longleftrightarrow>
      is_unspecified (V4 a) \<or> is_loopback (V4 a) \<or> is_private (V4 a) \<or>
      is_link_local_unicast (V4 a) \<or> is_link_local_multicast (V4 a) \<or> is_multicast (V4 a) \<or>
      is_metadata_ip_address (V4 a)"
    by (simp add: is_blocked_ip_address_def)
  also have "\<dots> \<longleftrightarrow> a = 0 \<or> in_cidr a (0x7F000000, 8) \<or>
      (in_cidr a (0x0A000000, 8) \<or> in_cidr a (0xAC100000, 12) \<or> in_cidr a (0xC0A80000, 16)) \<or>
      in_cidr a (0xA9FE0000, 16) \<or> in_cidr a (0xE0000000, 4) \<or>
      (a = 0x646464C8 \<or> a = 0xC00000C0 \<or> a = 0xC00000AA)"
    using octet_224 [of a] metadata_169_in_prefix [of a]
    by (auto simp only: m is_unspecified_def is_loopback_def is_private_def
        is_link_local_unicast_def is_link_local_multicast_def is_multicast_def unmap_addr.simps
        ip_addr.case octet_cidr ip_addr.inject ip_addr.distinct)
  also have "\<dots> \<longleftrightarrow> (\<exists>c \<in> set blocked_v4_prefixes. in_cidr a c)"
    by (simp only: blocked_v4_prefixes_def list.set bex_simps in_cidr_32) blast
  finally show ?thesis .
qed

text \<open>
  The same policy on IPv6: an IPv4-mapped address is held to the prefixes of loopback,
  private, link-local and multicast networks, but not to the single addresses.
\<close>

definition blocked_v4_networks :: "(32 word \<times> nat) list" where
  "blocked_v4_networks =
     [(0x7F000000, 8), (0x0A000000, 8), (0xAC100000, 12), (0xC0A80000, 16), (0xA9FE0000, 16),
      (0xE0000000, 4)]"

lemma blocked_mapped:
  assumes "drop_bit 32 w = 0xFFFF"
  shows "fst (is_blocked_ip_address (V6 w z)) \<longleftrightarrow>
    (\<exists>c \<in> set blocked_v4_networks. in_cidr (ucast w) c)"
proof -
  let ?a = "ucast w :: 32 word"
  from assms have "w \<noteq> 0" by auto
  then have "fst (is_blocked_ip_address (V6 w z)) \<longleftrightarrow>
      is_loopback (V6 w z) \<or> is_private (V6 w z) \<or> is_link_local_unicast (V6 w z) \<or>
      is_link_local_multicast (V6 w z) \<or> is_multicast (V6 w z)"
    by (simp add: is_blocked_ip_address_def is_unspecified_def is_metadata_ip_address_def
        metadata_blocked_ips_eval)
  also have "\<dots> \<longleftrightarrow> in_cidr ?a (0x7F000000, 8) \<or>
      (in_cidr ?a (0x0A000000, 8) \<or> in_cidr ?a (0xAC100000, 12) \<or> in_cidr ?a (0xC0A80000, 16)) \<or>
      in_cidr ?a (0xA9FE0000, 16) \<or> in_cidr ?a (0xE0000000, 4)"
    using octet_224 [of ?a] assms
    by (auto simp only: is_loopback_def is_private_def
        is_link_local_unicast_def is_link_local_multicast_def is_multicast_def unmap_addr.simps
        if_True ip_addr.case octet_cidr simp_thms)
  also have "\<dots> \<longleftrightarrow> (\<exists>c \<in> set blocked_v4_networks. in_cidr ?a c)"
    by (simp only: blocked_v4_networks_def list.set bex_simps) blast
  finally show ?thesis .
qed

subsection \<open>Normalised requests\<close>

lemma normalize_header_loop_keys:
  "k \<in> fst ` set (normalize_header_loop hs acc) \<Longrightarrow>
     k \<in> fst ` set acc \<or> (k \<noteq> [] \<and> (\<exists>k' \<in> fst ` set hs. k = go_lower (trim_space k')))"
proof (induction hs acc rule: normalize_header_loop.induct)
  case (1 acc)
  then show ?case by simp
next
  case (2 key val rest acc)
  show ?case
  proof (cases "go_lower (trim_space key) = []")
    case True
    with 2 show ?thesis by auto
  next
    case False
    with "2.prems" have
      "k \<in> fst ` set (normalize_header_loop rest
         (AList.update (go_lower (trim_space key)) (trim_space val) acc))"
      by (simp add: Let_def)
    from "2.IH"(2) [OF refl False this] False show ?thesis
      by (auto simp: dom_update)
  qed
qed

lemma normalize_header_loop_ok: "gomap_ok acc \<Longrightarrow> gomap_ok (normalize_header_loop hs acc)"
  by (induction hs acc rule: normalize_header_loop.induct) (auto simp: Let_def gomap_ok_update)

lemma stable_headers_keys: "fst ` set (stable_headers m) = fst ` set m"
proof -
  have "fst ` set (fold (\<lambda>k s. AList.update k (gomap_get m k) s) ks acc) = set ks \<union> fst ` set acc"
    for ks :: "string list" and acc
    by (induction ks arbitrary: acc) (auto simp: dom_update)
  then show ?thesis by (simp add: stable_headers_def)
qed

lemma stable_headers_ok: "gomap_ok (stable_headers m)"
proof -
  have "gomap_ok acc \<Longrightarrow> gomap_ok (fold (\<lambda>k s. AList.update k (gomap_get m k) s) ks acc)"
    for ks :: "string list" and acc
    by (induction ks arbitrary: acc) (auto simp: gomap_ok_update)
  then show ?thesis by (simp add: stable_headers_def)
qed

lemma normalize_request_simps [relay_simps]:
  "ri_url (normalize_request r) = trim_space (sr_url r)"
  "ri_body (normalize_request r) =
     (if sr_body r \<noteq> [] then Some \<lparr> bd_encoding = ''base64'', bd_data = to_base64 (sr_body r) \<rparr> else None)"
  "ri_headers (normalize_request r) =
     (if normalize_header_loop (sr_header r) [] = [] then []
      else stable_headers (normalize_header_loop (sr_header r) []))"
  by (simp_all add: normalize_request_def Let_def)

lemma normalize_request_header_keys:
  "k \<in> fst ` set (ri_headers (normalize_request r)) \<Longrightarrow>
     k \<noteq> [] \<and> (\<exists>k'. k = go_lower (trim_space k'))"
  using normalize_header_loop_keys [of k "sr_header r" "[]"]
  by (auto simp: relay_simps stable_headers_keys split: if_splits)

lemma normalize_request_headers_ok: "gomap_ok (ri_headers (normalize_request r))"
  by (simp add: relay_simps stable_headers_ok)

lemma allowed_method_not_blank: "m \<in> set allowed_methods \<Longrightarrow> \<not> blank m"
proof -
  assume "m \<in> set allowed_methods"
  then have "list_ex is_upper m"
    by (auto simp: allowed_methods_def is_upper_def of_char_le_iff)
  then obtain c where "c \<in> set m" "is_upper c" by (auto simp: list_ex_iff)
  then show ?thesis
    using not_blank_if [of c m] space_bytes_not_letter [of c] by (auto simp: blank_def)
qed

lemma url_parse_empty: "url_parse [] = Inr empty_url"
  by (simp add: url_parse_def parse_no_frag_def has_ctl_byte_def get_scheme_def split_query_def
      has_suffix_def parse_hier_def set_path_def url_escape_def empty_url_def)

lemma reject_not_None [simp]: "reject c m \<noteq> None"
  by (simp add: reject_def)

lemma classify_request_acceptedD:
  assumes "classify_request r n mx = None"
  shows "ri_method r \<in> set allowed_methods"
    and "\<exists>u. url_parse (ri_url r) = Inr u \<and> u_host u \<noteq> [] \<and>
           go_lower (u_scheme u) \<in> {''http'', ''https''} \<and> u_user u = None \<and>
           validate_destination_host u = None"
    and "classify_headers (ri_headers r) = None"
    and "n \<le> mx"
  using assms
  by (auto simp: classify_request_def Let_def split: if_splits sum.splits option.splits)

lemma classify_headers_accepted:
  "classify_headers hs = None \<Longrightarrow> k \<in> fst ` set hs \<Longrightarrow> k \<notin> set rejected_headers"
  by (induction hs rule: classify_headers.induct) (auto split: if_splits)

lemma accepted_item_wf:
  assumes "classify_request (normalize_request r) n mx = None" and "\<not> blank i"
  shows "item_wf (normalize_request r \<lparr> ri_request_id := i \<rparr>)"
proof -
  let ?r = "normalize_request r"
  note acc = classify_request_acceptedD [OF assms(1)]
  have "\<not> blank (ri_url ?r)"
  proof
    assume "blank (ri_url ?r)"
    then have "ri_url ?r = []" by (simp add: blank_def relay_simps)
    with acc(2) show False by (auto simp: url_parse_empty empty_url_def)
  qed
  moreover have "\<not> blank k" if "k \<in> fst ` set (ri_headers ?r)" for k
    using normalize_request_header_keys [OF that] go_lower_trim_not_blank
    by (auto simp: blank_def)
  ultimately show ?thesis
    using assms(2) allowed_method_not_blank [OF acc(1)]
    by (auto simp: item_wf_def relay_simps)
qed

text \<open>The guardrail policy over networks, for both address families.\<close>

definition blocked_v6_networks :: "(128 word \<times> nat) list" where
  "blocked_v6_networks =
     [(0xFC * 2 ^ 120, 7), (0xFE80 * 2 ^ 112, 10), (0xFF * 2 ^ 120, 8), (1, 128)]"

fun address_blocked :: "ip_addr \<Rightarrow> bool" where
  "address_blocked (V4 a) = list_ex (in_cidr a) blocked_v4_prefixes"
| "address_blocked (V6 w z) =
     (if drop_bit 32 w = 0xFFFF then list_ex (in_cidr (ucast w)) blocked_v4_networks
      else w = 0 \<and> z = [] \<or> list_ex (in_cidr6 w) blocked_v6_networks)"

lemma in_cidr6_128: "in_cidr6 w (b, 128) \<longleftrightarrow> w = b"
  by simp

lemma blocked_v6:
  assumes "drop_bit 32 w \<noteq> 0xFFFF"
  shows "fst (is_blocked_ip_address (V6 w z)) \<longleftrightarrow>
    w = 0 \<and> z = [] \<or> list_ex (in_cidr6 w) blocked_v6_networks"
proof -
  have "fst (is_blocked_ip_address (V6 w z)) \<longleftrightarrow>
      is_unspecified (V6 w z) \<or> is_loopback (V6 w z) \<or> is_private (V6 w z) \<or>
      is_link_local_unicast (V6 w z) \<or> is_link_local_multicast (V6 w z) \<or> is_multicast (V6 w z)"
    by (simp add: is_blocked_ip_address_def is_metadata_ip_address_def metadata_blocked_ips_eval)
  also have "\<dots> \<longleftrightarrow> (w = 0 \<and> z = []) \<or> w = 1 \<or> in_cidr6 w (0xFC * 2 ^ 120, 7) \<or>
      in_cidr6 w (0xFE80 * 2 ^ 112, 10) \<or> in_cidr6 w (0xFF * 2 ^ 120, 8)"
    using assms group6_multicast [of w]
    by (auto simp only: is_unspecified_def is_loopback_def is_private_def
        is_link_local_unicast_def is_link_local_multicast_def is_multicast_def unmap_addr.simps
        if_False ip_addr.case octet6_private group6_link_local octet6_multicast
        ip_addr.inject ip_addr.distinct simp_thms)
  also have "\<dots> \<longleftrightarrow> w = 0 \<and> z = [] \<or> list_ex (in_cidr6 w) blocked_v6_networks"
    by (simp only: blocked_v6_networks_def list_ex_iff list.set bex_simps in_cidr6_128) blast
  finally show ?thesis .
qed

lemma address_blocked_lemma: "fst (is_blocked_ip_address a) \<longleftrightarrow> address_blocked a"
proof (cases a)
  case (V4 w)
  then show ?thesis by (simp only: blocked_v4 address_blocked.simps list_ex_iff)
next
  case (V6 w z)
  then show ?thesis
    by (cases "drop_bit 32 w = 0xFFFF")
       (simp_all only: blocked_mapped blocked_v6 address_blocked.simps list_ex_iff simp_thms if_True
         if_False not_False_eq_True)
qed

definition destination_allowed :: "string \<Rightarrow> bool" where
  "destination_allowed host \<longleftrightarrow>
     host \<noteq> [] \<and> host \<noteq> ''localhost'' \<and> \<not> has_suffix host ''.localhost'' \<and>
     host \<notin> set metadata_blocked_hosts \<and> (\<forall>a. parse_addr host = Some a \<longrightarrow> \<not> address_blocked a)"

lemma validate_destination_host_iff:
  "validate_destination_host u = None \<longleftrightarrow> destination_allowed (go_lower (trim_space (url_hostname u)))"
proof -
  have "fst p = b \<Longrightarrow> (case p of (blocked, reason) \<Rightarrow>
      if blocked then reject c reason else None) = None \<longleftrightarrow> \<not> b" for p b c
    by (cases p) (auto simp: reject_def)
  from this [OF address_blocked_lemma [THEN iffD2, THEN eqTrueI]] this
  show ?thesis
    by (auto simp: validate_destination_host_def destination_allowed_def Let_def
        address_blocked_lemma [symmetric] reject_def split: option.splits prod.splits if_splits)
qed

text \<open>Headers an accepted request may carry, and the bounds of its body.\<close>

definition header_allowed :: "string \<times> string \<Rightarrow> bool" where
  "header_allowed h \<longleftrightarrow>
     fst h \<notin> set rejected_headers \<and>
     (fst h = ''accept'' \<longrightarrow> \<not> contains_str (go_lower (snd h)) ''text/event-stream'')"

lemma classify_headers_iff: "classify_headers hs = None \<longleftrightarrow> (\<forall>h \<in> set hs. header_allowed h)"
  by (induction hs rule: classify_headers.induct) (auto simp: header_allowed_def reject_def)

definition url_admissible :: "go_url \<Rightarrow> bool" where
  "url_admissible u \<longleftrightarrow>
     u_host u \<noteq> [] \<and> go_lower (u_scheme u) \<in> {''http'', ''https''} \<and> u_user u = None \<and>
     destination_allowed (go_lower (trim_space (url_hostname u)))"

definition asks_websocket :: "request_item \<Rightarrow> bool" where
  "asks_websocket r \<longleftrightarrow>
     token_list_contains (gomap_get (ri_headers r) ''connection'') ''upgrade'' \<or>
     equal_fold (gomap_get (ri_headers r) ''upgrade'') ''websocket''"

definition request_admissible :: "request_item \<Rightarrow> int \<Rightarrow> int \<Rightarrow> bool" where
  "request_admissible r n mx \<longleftrightarrow>
     ri_method r \<in> set allowed_methods \<and> (\<exists>u. url_parse (ri_url r) = Inr u \<and> url_admissible u) \<and>
     (\<forall>h \<in> set (ri_headers r). header_allowed h) \<and> \<not> asks_websocket r \<and> n \<le> mx"

lemma classify_request_lemma: "classify_request r n mx = None \<longleftrightarrow> request_admissible r n mx"
proof (cases "url_parse (ri_url r)")
  case (Inl e)
  then show ?thesis by (simp add: classify_request_def request_admissible_def reject_def)
next
  case (Inr u)
  show ?thesis
  proof (cases "validate_destination_host u")
    case None
    then show ?thesis
      by (auto simp: classify_request_def request_admissible_def Inr Let_def url_admissible_def reject_def
          asks_websocket_def validate_destination_host_iff [symmetric] classify_headers_iff [symmetric]
          split: option.splits)
  next
    case (Some e)
    then have "\<not> destination_allowed (go_lower (trim_space (url_hostname u)))"
      by (simp flip: validate_destination_host_iff)
    with Some show ?thesis
      by (auto simp: classify_request_def request_admissible_def Inr Let_def url_admissible_def reject_def)
  qed
qed

subsection \<open>Properties\<close>

text \<open>
  C10. \<^verbatim>\<open>isBlockedIPAddress\<close> blocks an IPv4 address exactly when it lies in one of the ten
  prefixes of \<open>blocked_v4_prefixes\<close>, an IPv4-mapped IPv6 address exactly when the IPv4 address
  inside lies in one of the six networks of \<open>blocked_v4_networks\<close>, and any other IPv6 address
  exactly when it is \<^verbatim>\<open>::\<close> (without a zone), \<^verbatim>\<open>::1\<close>, or in \<^verbatim>\<open>fc00::/7\<close>, \<^verbatim>\<open>fe80::/10\<close>
  or \<^verbatim>\<open>ff00::/8\<close>.
\<close>

theorem blocked_address_networks: "fst (is_blocked_ip_address a) = address_blocked a"
  by (rule address_blocked_lemma)

text \<open>
  C9. \<^verbatim>\<open>classifyRequest\<close> accepts a request exactly when its method is one of the seven, its URL
  parses to an absolute http or https URL without credentials whose host is neither a local
  name, a metadata name nor a blocked address, no header is a proxy header or asks for an event
  stream, nothing asks for a websocket, and the body is within the limit.
\<close>

theorem classify_request_iff:
  "classify_request r body_bytes max_body_bytes = None \<longleftrightarrow> request_admissible r body_bytes max_body_bytes"
  by (rule classify_request_lemma)

end
