(* ===== verification/Go_Plain.thy ===== *)
theory Go_Plain
  imports Go_Encoding Go_Time
begin

text \<open>
  Texts that JSON writes unchanged: printable ASCII without quotes, backslashes and the three
  HTML characters. Hexadecimal texts and the time stamps of the years 1 to 9999 are of this kind.
\<close>

subsection \<open>Plain JSON strings\<close>

definition json_plain :: "char \<Rightarrow> bool" where
  "json_plain c \<longleftrightarrow>
     CHR '' '' \<le> c \<and> c < CHR 0x80 \<and> c \<notin> set [CHR 0x22, backslash, CHR ''<'', CHR ''>'', CHR ''&'']"

lemma json_escape_plain: "list_all json_plain s \<Longrightarrow> json_escape s = s"
proof (induction s)
  case Nil
  then show ?case by simp
next
  case (Cons c s)
  then have c: "json_plain c" and s: "json_escape s = s" by simp_all
  from c have w: "rune_width (c # s) = 1" by (simp add: rune_width_def json_plain_def)
  from c have p: "CHR '' '' \<le> c" "c \<notin> set [CHR 0x22, backslash, CHR ''<'', CHR ''>'', CHR ''&'']"
    unfolding json_plain_def by blast+
  have "list_all (\<lambda>d. \<not> CHR '' '' \<le> d) [CHR 0x08, CHR 0x0C, CHR 0x0A, CHR 0x0D, CHR 0x09]"
    by code_simp
  with p(1) have "c \<noteq> CHR 0x08" "c \<noteq> CHR 0x0C" "c \<noteq> CHR 0x0A" "c \<noteq> CHR 0x0D" "c \<noteq> CHR 0x09"
    by auto
  moreover from p(1) have "\<not> c < CHR '' ''" by (rule leD)
  ultimately have "json_byte c = [c]" using p(2) by (simp add: json_byte_def)
  with w s show ?case by (subst json_escape.simps) simp
qed

lemma digit_char_plain: "d < 10 \<Longrightarrow> json_plain (digit_char d)"
proof -
  have "list_all (\<lambda>d. json_plain (digit_char d)) [0..<10]" by code_simp
  then show "d < 10 \<Longrightarrow> json_plain (digit_char d)" by (simp add: list_all_iff)
qed

lemma hex_digit_plain: "d < 16 \<Longrightarrow> json_plain (hex_digit d)"
proof -
  have "list_all (\<lambda>d. json_plain (hex_digit d)) [0..<16]" by code_simp
  then show "d < 16 \<Longrightarrow> json_plain (hex_digit d)" by (simp add: list_all_iff)
qed

lemma of_char_256: "of_char (c :: char) < (256 :: nat)"
  using nat_of_char_less_256 .

lemma hex_encode_plain: "list_all json_plain (hex_encode s)"
  by (induction s)
     (simp_all add: hex_encode_def hex_digit_plain of_char_256 less_mult_imp_div_less)

lemma pad2_plain: "0 \<le> n \<Longrightarrow> n < 100 \<Longrightarrow> list_all json_plain (pad2 n)"
  by (simp add: pad2_def digit_char_plain nat_less_iff)

lemma month_lengths_100: "1 \<le> m \<Longrightarrow> m \<le> 12 \<Longrightarrow> month_lengths l ! (m - 1) < 100"
proof -
  assume "1 \<le> m" "m \<le> 12"
  then have "m - 1 < length (month_lengths l)" by (simp add: month_lengths_def)
  then have "month_lengths l ! (m - 1) \<in> set (month_lengths l)" by (rule nth_mem)
  then show ?thesis by (auto simp: month_lengths_def split: if_splits)
qed

lemma format_rfc3339_shape:
  assumes "0 \<le> t" and "t < max_time"
  shows "length (format_rfc3339 t) = 20" and "list_all json_plain (format_rfc3339 t)"
proof -
  obtain y m d where c: "civil_of_days (t div day_ns) = (y, m, d)" by (metis prod_cases3)
  have days: "0 \<le> t div day_ns" "t div day_ns < 3652059"
    using assms by (simp_all add: day_ns_def max_time_def pos_imp_zdiv_nonneg_iff)
  have b: "1 \<le> m" "m \<le> 12" "1 \<le> d" "d < 100" "0 \<le> y" "y < 10000"
    using civil_bounds [OF c] days month_lengths_100 [of m "is_leap y"] by auto
  define s where "s = t mod day_ns div second"
  have s: "0 \<le> s" "s < 86400"
  proof -
    have "0 \<le> t mod day_ns" "t mod day_ns < day_ns" by (simp_all add: day_ns_def)
    then show "0 \<le> s" "s < 86400" by (simp_all add: s_def second_def day_ns_def)
  qed
  show "length (format_rfc3339 t) = 20"
    by (simp add: format_rfc3339_def c pad4_def pad2_def Let_def)
  have "s div 3600 < 100" "0 \<le> s div 3600" using s by auto
  moreover have "json_plain (CHR ''-'')" "json_plain (CHR ''T'')" "json_plain (CHR '':'')" "json_plain (CHR ''Z'')"
    by code_simp+
  ultimately show "list_all json_plain (format_rfc3339 t)"
    using b by (simp add: format_rfc3339_def c pad4_def Let_def pad2_plain s_def [symmetric])
qed

end
