(* ===== verification/Agent_Sizes.thy ===== *)
theory Agent_Sizes
  imports Agent_Dispatch Agent_Classify Go_Plain
begin

text \<open>
  Two facts about the batches of \<^verbatim>\<open>client/internal/agent/agent.go\<close>. A batch built from accepted
  requests under settings of at least a millisecond passes \<^verbatim>\<open>ValidateRequestBatch\<close>, so the
  validation branch of \<^verbatim>\<open>dispatchBatch\<close> is never taken. And the batch that is sent is one byte
  longer than the batch \<^verbatim>\<open>pickBatchChunk\<close> measures, since the placeholder identifier of
  \<^verbatim>\<open>batchSizeForPending\<close> has 29 bytes where an identifier of \<^verbatim>\<open>newID\<close> has 30.
\<close>

subsection \<open>Identifiers\<close>

text \<open>\<^verbatim>\<open>rand.Read\<close> on a 12-byte buffer: it fills the buffer.\<close>

definition entropy_ok :: "agent \<Rightarrow> bool" where
  "entropy_ok a \<longleftrightarrow> (\<forall>n. \<exists>buf. ag_entropy a n = Some buf \<and> length buf = 12)"

lemma new_id_shape:
  assumes "entropy_ok a"
  shows "\<exists>buf. length buf = 12 \<and> fst (new_id p a) = p @ ''-'' @ hex_encode buf"
proof -
  from assms obtain buf where "ag_entropy a (ag_draws a) = Some buf" "length buf = 12"
    unfolding entropy_ok_def by blast
  then show ?thesis by (auto simp: new_id_def Let_def)
qed

lemma new_id_not_blank: "\<not> blank (fst (new_id ''batch'' a))"
proof -
  have "CHR ''b'' \<notin> set space_bytes" by code_simp
  moreover have "CHR ''b'' \<in> set (fst (new_id ''batch'' a))"
    by (simp add: new_id_def read_clock_def Let_def split: option.split)
  ultimately show ?thesis unfolding blank_def by (metis not_blank_if)
qed

subsection \<open>The measured and the sent batch\<close>

lemma batch_text_length:
  "length (json_text (batch_json (make_batch i t s rs))) =
     length (json_text (batch_json (make_batch [] [] s rs))) + length (json_escape i) + length (json_escape t)"
  by (simp add: batch_json_def make_batch_def json_string_def)

lemma sizing_texts:
  "length (json_escape ''batch-sizing-0000000000000000'') = 29"
  "length (json_escape ''2026-01-01T00:00:00Z'') = 20"
  by code_simp+

lemma batch_size_gap_lemma:
  assumes "length buf = 12" and "0 \<le> t" and "t < max_time"
  shows "batch_size_bytes (make_batch (''batch'' @ ''-'' @ hex_encode buf) (format_rfc3339 t) s (map pr_request ps)) =
    map_sum id (\<lambda>n. n + 1) (batch_size_for_pending ps s)"
proof -
  have "list_all json_plain (''batch'' @ ''-'')" by code_simp
  then have "list_all json_plain (''batch'' @ ''-'' @ hex_encode buf)" using hex_encode_plain by simp
  then have "json_escape (''batch'' @ ''-'' @ hex_encode buf) = ''batch'' @ ''-'' @ hex_encode buf"
    by (rule json_escape_plain)
  then have i: "length (json_escape (''batch'' @ ''-'' @ hex_encode buf)) = 30"
    using assms(1) by (simp add: hex_encode_length)
  have t: "length (json_escape (format_rfc3339 t)) = 20"
    using format_rfc3339_shape [OF assms(2,3)] by (simp add: json_escape_plain)
  have "length (json_text (batch_json (make_batch (''batch'' @ ''-'' @ hex_encode buf) (format_rfc3339 t) s
      (map pr_request ps)))) = length (json_text (batch_json (make_batch [] [] s (map pr_request ps)))) + 30 + 20"
    by (subst batch_text_length) (simp only: i t)
  moreover have "length (json_text (batch_json (make_batch ''batch-sizing-0000000000000000'' ''2026-01-01T00:00:00Z'' s
      (map pr_request ps)))) = length (json_text (batch_json (make_batch [] [] s (map pr_request ps)))) + 29 + 20"
    by (subst batch_text_length) (simp only: sizing_texts)
  ultimately show ?thesis
    by (simp only: batch_size_bytes_def batch_size_for_pending_def) simp
qed

text \<open>Settings under which the durations of the envelope do not round to zero.\<close>

definition settings_live :: "settings \<Rightarrow> bool" where
  "settings_live s \<longleftrightarrow>
     millisecond \<le> as_batch_interval s \<and> millisecond \<le> as_request_timeout s \<and>
     0 < as_max_response_bytes s \<and> 0 < as_worker_concurrency s \<and> 0 < as_max_worker_concurrency s"

lemma make_batch_wf:
  assumes "settings_live s" and "\<not> blank i" and "0 \<le> t" and "t < max_time"
    and "rs \<noteq> []" and "distinct (map ri_request_id rs)" and "\<forall>r \<in> set rs. item_wf r"
  shows "batch_wf (make_batch i (format_rfc3339 t) s rs)"
proof -
  from assms(1) have "0 < as_batch_interval s div millisecond" "0 < as_request_timeout s div millisecond"
    by (simp_all add: settings_live_def millisecond_def pos_imp_zdiv_pos_iff)
  with assms(1) have "0 < go_quot (as_batch_interval s) millisecond" "0 < go_quot (as_request_timeout s) millisecond"
    by (simp_all add: settings_live_def millisecond_def)
  with assms parse_format [OF assms(3,4)] show ?thesis
    by (simp add: batch_wf_def make_batch_def settings_live_def go_min_def)
qed

end
