(* ===== verification/Agent_System.thy ===== *)
theory Agent_System
  imports Agent_Sizes
begin

text \<open>
  The agent as a running system (\<^verbatim>\<open>Run\<close> and \<^verbatim>\<open>Submit\<close> of \<^verbatim>\<open>client/internal/agent/agent.go\<close>): any
  number of callers inside \<^verbatim>\<open>Submit\<close>, one goroutine inside \<^verbatim>\<open>Run\<close>. Each segment of the two
  functions between points where they wait is a function on the agent; \<open>sys_step\<close> interleaves
  the segments freely. A call of the dispatcher ends with any package or any error.
\<close>

subsection \<open>Segments of Submit\<close>

text \<open>From the entry to the queue: a result to return at once, or an item to enqueue.\<close>

definition submit_begin :: "submit_request \<Rightarrow> agent \<Rightarrow> (request_result + request_item) \<times> agent" where
  "submit_begin request a =
     (let item = normalize_request request in
      case new_id ''req'' a of (i, a) \<Rightarrow>
        let item = item \<lparr> ri_request_id := i \<rparr> in
        (case classify_request item (int (length (sr_body request)))
                (as_max_request_body_bytes (ag_settings a)) of
           Some failure \<Rightarrow>
             (let result = error_result i (ce_code failure) (ce_message failure)
              in (Inl result, record_local_rejection result a))
         | None \<Rightarrow>
             (case read_clock a of (now, a) \<Rightarrow>
               (case backpressure_state now a of
                  (Some reason, a) \<Rightarrow>
                    (let result = error_result i ''RUN_DELAYED'' reason
                     in (Inl result, record_local_rejection result a))
                | (None, a) \<Rightarrow> (Inr item, a)))))"

definition queue_full :: "agent \<Rightarrow> bool" where
  "queue_full a \<longleftrightarrow> as_max_queue_requests (ag_settings a) \<le> int (length (ag_queue a))"

text \<open>The \<^verbatim>\<open>select\<close> with a default case: the send succeeds exactly when the queue has room.\<close>

definition submit_enqueue :: "request_item \<Rightarrow> nat \<Rightarrow> agent \<Rightarrow> request_result option \<times> agent" where
  "submit_enqueue item ch a =
     (if queue_full a
      then (let result = error_result (ri_request_id item) ''QUEUE_OVERFLOW'' ''local queue is full''
            in (Some result, record_local_rejection result a))
      else (None, a \<lparr> ag_queue := ag_queue a @ [\<lparr> pr_request = item, pr_result_ch = ch \<rparr>] \<rparr>))"

subsection \<open>Segments of Run\<close>

definition stop_result :: "pending_request \<Rightarrow> request_result" where
  "stop_result item = error_result (item_id item) ''WORKER_ERROR'' ''agent stopped before dispatch''"

definition run_stop :: "pending_request list \<Rightarrow> agent \<Rightarrow> agent" where
  "run_stop pending a =
     set_pending_in_batch_buffer 0 (fold (\<lambda>item. answer item (stop_result item)) pending a)"

definition run_receive ::
  "pending_request list \<Rightarrow> agent \<Rightarrow> pending_request list \<times> agent" where
  "run_receive pending a =
     (case ag_queue a of
        [] \<Rightarrow> (pending, a)
      | item # q \<Rightarrow>
          (pending @ [item], set_pending_in_batch_buffer (length (pending @ [item])) (a \<lparr> ag_queue := q \<rparr>)))"

text \<open>The ticker case, up to the call of the dispatcher.\<close>

definition run_tick ::
  "pending_request list \<Rightarrow> agent \<Rightarrow> flight option \<times> pending_request list \<times> agent" where
  "run_tick pending a =
     (case read_clock a of (now, a) \<Rightarrow>
       let a = evict_expired_cache now a in
       if pending = [] then (None, pending, a)
       else (case backpressure_state now a of
           (Some reason, a) \<Rightarrow>
             (case reject_pending_for_backpressure pending reason a of (pending, a) \<Rightarrow>
               (None, pending, set_pending_in_batch_buffer (length pending) a))
         | (None, a) \<Rightarrow>
             (case pick_batch_chunk pending a of ((chunk, remaining), a) \<Rightarrow>
               let a = set_pending_in_batch_buffer (length remaining) a in
               if chunk = [] then (None, remaining, a)
               else (case dispatch_begin chunk a of (fo, a) \<Rightarrow> (fo, remaining, a)))))"

subsection \<open>The system\<close>

record system =
  sy_agent :: agent
  sy_pending :: "pending_request list"
  sy_flight :: "flight option"
  sy_stopped :: bool
  sy_checked :: "request_item list"
  sy_uncounted :: "pending_request list"
  sy_waiting :: "pending_request list"
  sy_next_ch :: nat
  sy_accepted :: "pending_request list"
  sy_rejected :: "request_result list"
  sy_delivered :: "(pending_request \<times> request_result) list"
  sy_cancelled :: "pending_request list"

text \<open>
  \<open>sy_checked\<close>, \<open>sy_uncounted\<close> and \<open>sy_waiting\<close> are the callers between the checks and the queue,
  between the queue and \<^verbatim>\<open>recordSubmitted\<close>, and in the final \<^verbatim>\<open>select\<close>. \<open>sy_accepted\<close>,
  \<open>sy_rejected\<close>, \<open>sy_delivered\<close> and \<open>sy_cancelled\<close> are histories: the requests put in the queue,
  the results \<^verbatim>\<open>Submit\<close> returned without queueing, and how the waits ended.
\<close>

definition sys_init :: "agent \<Rightarrow> system" where
  "sys_init a =
     \<lparr> sy_agent = set_pending_in_batch_buffer 0 a, sy_pending = [], sy_flight = None,
       sy_stopped = False, sy_checked = [], sy_uncounted = [], sy_waiting = [], sy_next_ch = 0,
       sy_accepted = [], sy_rejected = [], sy_delivered = [], sy_cancelled = [] \<rparr>"

definition run_idle :: "system \<Rightarrow> bool" where
  "run_idle s \<longleftrightarrow> \<not> sy_stopped s \<and> sy_flight s = None"

inductive sys_step :: "system \<Rightarrow> system \<Rightarrow> bool" where
  Reject: "submit_begin request (sy_agent s) = (Inl r, a) \<Longrightarrow>
    sys_step s (s \<lparr> sy_agent := a, sy_rejected := sy_rejected s @ [r] \<rparr>)"
| Check: "submit_begin request (sy_agent s) = (Inr item, a) \<Longrightarrow>
    sys_step s (s \<lparr> sy_agent := a, sy_checked := item # sy_checked s \<rparr>)"
| Overflow: "item \<in> set (sy_checked s) \<Longrightarrow>
    submit_enqueue item (sy_next_ch s) (sy_agent s) = (Some r, a) \<Longrightarrow>
    sys_step s (s \<lparr> sy_agent := a, sy_checked := remove1 item (sy_checked s),
                    sy_rejected := sy_rejected s @ [r] \<rparr>)"
| Enqueue: "item \<in> set (sy_checked s) \<Longrightarrow>
    submit_enqueue item (sy_next_ch s) (sy_agent s) = (None, a) \<Longrightarrow>
    p = \<lparr> pr_request = item, pr_result_ch = sy_next_ch s \<rparr> \<Longrightarrow>
    sys_step s (s \<lparr> sy_agent := a, sy_checked := remove1 item (sy_checked s),
                    sy_next_ch := Suc (sy_next_ch s), sy_uncounted := p # sy_uncounted s,
                    sy_accepted := sy_accepted s @ [p] \<rparr>)"
| Count: "p \<in> set (sy_uncounted s) \<Longrightarrow>
    sys_step s (s \<lparr> sy_agent := record_submitted (sy_agent s),
                    sy_uncounted := remove1 p (sy_uncounted s), sy_waiting := p # sy_waiting s \<rparr>)"
| Receive: "run_idle s \<Longrightarrow> run_receive (sy_pending s) (sy_agent s) = (pending, a) \<Longrightarrow>
    ag_queue (sy_agent s) \<noteq> [] \<Longrightarrow>
    sys_step s (s \<lparr> sy_agent := a, sy_pending := pending \<rparr>)"
| Tick: "run_idle s \<Longrightarrow> run_tick (sy_pending s) (sy_agent s) = (fo, pending, a) \<Longrightarrow>
    sys_step s (s \<lparr> sy_agent := a, sy_pending := pending, sy_flight := fo \<rparr>)"
| Complete: "sy_flight s = Some fl \<Longrightarrow>
    sys_step s (s \<lparr> sy_agent := dispatch_finish fl outcome (sy_agent s), sy_flight := None \<rparr>)"
| Stop: "run_idle s \<Longrightarrow>
    sys_step s (s \<lparr> sy_agent := run_stop (sy_pending s) (sy_agent s), sy_pending := [],
                    sy_stopped := True \<rparr>)"
| Deliver: "p \<in> set (sy_waiting s) \<Longrightarrow> (pr_result_ch p, r) \<in> set (ag_sends (sy_agent s)) \<Longrightarrow>
    sys_step s (s \<lparr> sy_waiting := remove1 p (sy_waiting s),
                    sy_delivered := sy_delivered s @ [(p, r)] \<rparr>)"
| Cancel: "p \<in> set (sy_waiting s) \<Longrightarrow>
    sys_step s (s \<lparr> sy_waiting := remove1 p (sy_waiting s),
                    sy_cancelled := sy_cancelled s @ [p] \<rparr>)"
| Observe: "take_snapshot (sy_agent s) = (n, a) \<Longrightarrow> sys_step s (s \<lparr> sy_agent := a \<rparr>)"

inductive reachable :: "agent \<Rightarrow> system \<Rightarrow> bool" for a0 where
  init: "reachable a0 (sys_init a0)"
| step: "reachable a0 s \<Longrightarrow> sys_step s t \<Longrightarrow> reachable a0 t"

inductive_cases sys_stepE: "sys_step s t"

lemmas sys_step_cases = sys_stepE [consumes 1, case_names Reject Check Overflow Enqueue Count Receive
    Tick Complete Stop Deliver Cancel Observe]

subsection \<open>What the segments keep\<close>

text \<open>The callers never disturb the cache or the result channels.\<close>

definition quiet :: "agent \<Rightarrow> agent \<Rightarrow> bool" where
  "quiet a b \<longleftrightarrow> keeps a b \<and> ag_cache b = ag_cache a \<and> ag_sends b = ag_sends a"

lemma quiet_trans: "quiet a b \<Longrightarrow> quiet b c \<Longrightarrow> quiet a c"
  using keeps_trans by (auto simp: quiet_def)

lemma quiet_ops:
  "quiet a (record_local_rejection (error_result i c m) a)" "quiet a (snd (read_clock a))"
  "quiet a (snd (new_id f a))" "quiet a (snd (backpressure_state t a))"
  "quiet a (set_pending_in_batch_buffer n a)" "quiet a (snd (take_snapshot a))"
  by (simp_all add: quiet_def keeps_def relay_simps take_snapshot_def case_prod_beta Let_def)

lemma submit_begin_quiet: "quiet a (snd (submit_begin request a))"
proof -
  let ?b = "snd (new_id ''req'' a)"
  let ?c = "snd (read_clock ?b)"
  let ?d = "snd (backpressure_state (fst (read_clock ?b)) ?c)"
  have b: "quiet a ?b" by (rule quiet_ops)
  have c: "quiet a ?c" by (rule quiet_trans [OF b quiet_ops(2)])
  have d: "quiet a ?d" by (rule quiet_trans [OF c quiet_ops(4)])
  have r: "quiet a x \<Longrightarrow> quiet a (record_local_rejection (error_result i c m) x)" for x i c m
    by (rule quiet_trans [OF _ quiet_ops(1)])
  show ?thesis
    using b d r by (simp add: submit_begin_def Let_def case_prod_beta split: option.split)
qed

text \<open>An item that has passed the checks: normalised, given an identifier, accepted.\<close>

definition admitted :: "settings \<Rightarrow> request_item \<Rightarrow> bool" where
  "admitted s item \<longleftrightarrow>
     (\<exists>q. item = normalize_request q \<lparr> ri_request_id := ri_request_id item \<rparr> \<and>
        classify_request item (int (length (sr_body q))) (as_max_request_body_bytes s) = None)"

lemma submit_begin_admitted:
  assumes "submit_begin request a = (Inr item, b)"
  shows "admitted (ag_settings a) item"
proof -
  let ?item = "normalize_request request \<lparr> ri_request_id := fst (new_id ''req'' a) \<rparr>"
  let ?c = "classify_request ?item (int (length (sr_body request))) (as_max_request_body_bytes (ag_settings a))"
  have c: "?c = None"
  proof (rule ccontr)
    assume "?c \<noteq> None"
    then obtain e where "?c = Some e" by blast
    with assms show False by (simp add: submit_begin_def Let_def case_prod_beta relay_simps)
  qed
  with assms have "item = ?item"
    by (simp add: submit_begin_def Let_def case_prod_beta relay_simps split: option.splits)
  with c have "classify_request item (int (length (sr_body request))) (as_max_request_body_bytes (ag_settings a)) = None"
    by simp
  moreover have "ri_request_id item = fst (new_id ''req'' a)" using \<open>item = ?item\<close> by simp
  then have "item = normalize_request request \<lparr> ri_request_id := ri_request_id item \<rparr>"
    using \<open>item = ?item\<close> by (simp only:)
  ultimately show ?thesis unfolding admitted_def by blast
qed

lemma submit_begin_rejected:
  "submit_begin request a = (Inl r, b) \<Longrightarrow> \<not> rr_ok r \<and> result_shape r"
  by (auto simp: submit_begin_def Let_def case_prod_beta split: option.splits)

lemma submit_enqueue_Some:
  "submit_enqueue item ch a = (Some r, b) \<Longrightarrow> quiet a b \<and> queue_full a \<and> \<not> rr_ok r \<and> result_shape r"
  using quiet_ops(1) by (auto simp: submit_enqueue_def Let_def split: if_splits)

lemma submit_enqueue_None:
  "submit_enqueue item ch a = (None, b) \<Longrightarrow>
     \<not> queue_full a \<and> b = a \<lparr> ag_queue := ag_queue a @ [\<lparr> pr_request = item, pr_result_ch = ch \<rparr>] \<rparr>"
  by (auto simp: submit_enqueue_def Let_def split: if_splits)

lemma answer_all:
  assumes "\<And>p. rr_request_id (f p) = item_id p \<and> result_shape (f p)"
  shows "keeps a (fold (\<lambda>p. answer p (f p)) ps a) \<and> ag_cache (fold (\<lambda>p. answer p (f p)) ps a) = ag_cache a \<and>
    answers a ps (fold (\<lambda>p. answer p (f p)) ps a)"
proof (induction ps arbitrary: a)
  case Nil
  then show ?case by simp
next
  case (Cons p ps)
  have "answers a [p] (answer p (f p) a)" using assms by (intro answers_answer) auto
  with Cons.IH [of "answer p (f p) a"] keeps_trans [OF keeps_ops(8)] answers_Cons show ?case
    by (auto simp: relay_simps)
qed

text \<open>
  A transition of the \<^verbatim>\<open>Run\<close> goroutine: it may move requests between its lists, and answers
  those it drops.
\<close>

definition run_step :: "agent \<Rightarrow> pending_request list \<Rightarrow> agent \<Rightarrow> pending_request list \<Rightarrow> bool" where
  "run_step a held b held' \<longleftrightarrow>
     keeps a b \<and> cache_shape b \<and> (\<exists>ps. answers a ps b \<and> mset held = mset ps + mset held')"

lemma run_stop_step: "cache_shape a \<Longrightarrow> run_step a pending (run_stop pending a) []"
proof -
  assume c: "cache_shape a"
  let ?b = "fold (\<lambda>item. answer item (stop_result item)) pending a"
  have b: "keeps a ?b" "ag_cache ?b = ag_cache a" "answers a pending ?b"
    using answer_all [of stop_result a pending] by (simp_all add: stop_result_def)
  have "keeps a (run_stop pending a)"
    unfolding run_stop_def by (rule keeps_trans [OF b(1) keeps_ops(4)])
  moreover have "cache_shape (run_stop pending a)"
    by (rule cache_shape_cong [OF c]) (use b keeps_settings in \<open>auto simp: run_stop_def relay_simps\<close>)
  moreover have "answers a pending (run_stop pending a)"
    unfolding run_stop_def by (rule answers_step [OF b(3)]) (simp add: relay_simps)
  ultimately show ?thesis by (auto simp: run_step_def)
qed

lemma run_tick_step:
  assumes "run_tick pending a = (fo, pending', b)" and "cache_shape a"
  shows "run_step a pending b (pending' @ in_flight fo) \<and> (\<forall>fl. fo = Some fl \<longrightarrow> flight_ok fl b) \<and>
    (pending \<noteq> [] \<longrightarrow> 0 < as_max_batch_requests (ag_settings a) \<longrightarrow> length pending' < length pending)"
proof -
  let ?c = "evict_expired_cache (fst (read_clock a)) (snd (read_clock a))"
  have k: "keeps a ?c" by (rule keeps_trans [OF keeps_ops(9) keeps_ops(12)])
  have sends: "ag_sends ?c = ag_sends a" by (simp add: relay_simps)
  have shape: "cache_shape ?c"
  proof -
    have "cache_shape (snd (read_clock a))" by (rule cache_shape_cong [OF assms(2)]) (simp_all add: relay_simps)
    then show ?thesis
      using cache_ok_evict by (auto simp: cache_shape_def evict_expired_cache_def set_cache_def)
  qed
  let ?p = "backpressure_state (fst (read_clock a)) ?c"
  let ?d = "snd ?p"
  have d: "keeps a ?d" "ag_sends ?d = ag_sends a" "cache_shape ?d" "ag_settings ?d = ag_settings a"
    using keeps_trans [OF k keeps_ops(11)] cache_shape_cong [OF shape] by (simp_all add: relay_simps)
  show ?thesis
  proof (cases "pending = []")
    case True
    with assms(1) have "fo = None" "pending' = []" "b = ?c"
      by (simp_all add: run_tick_def case_prod_beta Let_def)
    with True k sends shape answers_none [OF sends] show ?thesis by (auto simp: run_step_def)
  next
    case False
    show ?thesis
    proof (cases "fst ?p")
      case (Some reason)
      define msg where "msg = (if reason = [] then run_delayed_reason else reason)"
      let ?f = "\<lambda>p. error_result (item_id p) ''RUN_DELAYED'' msg"
      let ?e = "fold (\<lambda>p. answer p (?f p)) pending ?d"
      from assms(1) False Some have r: "fo = None" "pending' = []" "b = set_pending_in_batch_buffer 0 ?e"
        by (simp_all add: run_tick_def case_prod_beta Let_def reject_pending_for_backpressure_def
            msg_def item_id_def)
      have e: "keeps ?d ?e" "ag_cache ?e = ag_cache ?d" "answers ?d pending ?e"
        using answer_all [of ?f ?d pending] by simp_all
      have kb: "keeps a b" unfolding r(3)
        by (rule keeps_trans [OF d(1) keeps_trans [OF e(1) keeps_ops(4)]])
      have "cache_shape b"
        by (rule cache_shape_cong [OF d(3)])
           (use e(2) keeps_settings [OF kb] d(4) in \<open>simp_all add: r(3) relay_simps\<close>)
      moreover have "answers a pending b"
        using answers_step [OF answers_trans [OF answers_none [OF d(2)] e(3)], of b] by (simp add: r(3) relay_simps)
      ultimately show ?thesis using kb r False by (auto simp: run_step_def)
    next
      case None
      obtain chunk rest e where pick: "pick_batch_chunk pending ?d = ((chunk, rest), e)"
        by (metis prod.collapse)
      from pick_loop_spec [OF pick [unfolded pick_batch_chunk_def]] obtain rejected where
        e: "keeps ?d e" "ag_cache e = ag_cache ?d" "answers ?d rejected e"
           "mset pending = mset chunk + mset rest + mset rejected" by auto
      have less: "0 < as_max_batch_requests (ag_settings a) \<Longrightarrow> length rest < length pending"
        using pick_progress [OF pick False] d(4) by simp
      let ?g = "set_pending_in_batch_buffer (length rest) e"
      have g: "keeps a ?g" "ag_cache ?g = ag_cache ?d" "answers a rejected ?g"
        using keeps_trans [OF d(1) keeps_trans [OF e(1) keeps_ops(4)]] e(2)
          answers_step [OF answers_trans [OF answers_none [OF d(2)] e(3)], of ?g]
        by (simp_all add: relay_simps)
      have gs: "cache_shape ?g"
        by (rule cache_shape_cong [OF d(3) g(2)]) (use keeps_settings [OF g(1)] d(4) in simp)
      show ?thesis
      proof (cases "chunk = []")
        case True
        with assms(1) False None pick have "fo = None" "pending' = rest" "b = ?g"
          by (auto simp: run_tick_def case_prod_beta Let_def)
        with g gs e(4) True less show ?thesis by (auto simp: run_step_def intro!: exI [of _ rejected])
      next
        case chunk: False
        with assms(1) False None pick have start: "dispatch_begin chunk ?g = (fo, b)" "pending' = rest"
          by (auto simp: run_tick_def case_prod_beta Let_def)
        from dispatch_begin_spec [OF start(1) gs] obtain served where
          s: "keeps ?g b" "cache_shape b" "\<forall>fl. fo = Some fl \<longrightarrow> flight_ok fl b" "answers ?g served b"
             "mset chunk = mset served + mset (in_flight fo)" by blast
        with g(1,3) e(4) start(2) less show ?thesis
          using keeps_trans [OF g(1) s(1)] answers_trans [OF g(3) s(4)]
          by (auto simp: run_step_def intro!: exI [of _ "rejected @ served"])
      qed
    qed
  qed
qed

subsection \<open>Invariants of the reachable states\<close>

definition fresh_agent :: "agent \<Rightarrow> bool" where
  "fresh_agent a \<longleftrightarrow>
     cache_shape a \<and> counters_balanced a \<and> ag_sends a = [] \<and> ag_queue a = [] \<and>
     rt_total_submitted (ag_runtime a) = 0 \<and> rt_total_fail_open_served (ag_runtime a) = 0 \<and>
     0 < as_max_queue_requests (ag_settings a) \<and> 0 < as_max_batch_requests (ag_settings a)"

text \<open>What \<^verbatim>\<open>New\<close> requires of the settings it is given, and what it makes of them.\<close>

definition settings_acceptable :: "settings \<Rightarrow> bool" where
  "settings_acceptable s \<longleftrightarrow>
     0 < as_batch_interval s \<and> 0 < as_max_queue_requests s \<and> 0 < as_max_batch_requests s \<and>
     0 < as_max_batch_bytes s \<and> 0 < as_max_request_body_bytes s \<and> 0 < as_max_response_bytes s \<and>
     0 < as_request_timeout s \<and> 0 < as_worker_concurrency s \<and> 0 \<le> as_cache_ttl s \<and>
     0 \<le> as_cache_max_entries s \<and> 0 < as_backpressure_cooldown s \<and> 0 \<le> as_stale_if_error_ttl s \<and>
     go_lower (trim_space (as_reliability_mode s)) \<in> {[], reliability_fail_closed, reliability_fail_open}"

definition settings_ok :: "settings \<Rightarrow> bool" where
  "settings_ok s \<longleftrightarrow>
     settings_acceptable s \<and> 0 < as_max_worker_concurrency s \<and>
     as_worker_concurrency s \<le> as_max_worker_concurrency s \<and>
     as_max_worker_concurrency s \<le> max_worker_concurrency_limit \<and>
     as_reliability_mode s \<in> {reliability_fail_closed, reliability_fail_open}"

lemma modes_fixed:
  "go_lower (trim_space reliability_fail_closed) = reliability_fail_closed"
  "go_lower (trim_space reliability_fail_open) = reliability_fail_open"
  by code_simp+

lemma clamp_workers_simps [simp]:
  "as_max_worker_concurrency (clamp_workers s) \<le> max_worker_concurrency_limit"
  "0 < as_max_worker_concurrency (clamp_workers s)"
  "as_worker_concurrency (clamp_workers s) \<le> as_max_worker_concurrency (clamp_workers s)"
  "0 < as_worker_concurrency s \<Longrightarrow> 0 < as_worker_concurrency (clamp_workers s)"
  "as_batch_interval (clamp_workers s) = as_batch_interval s"
  "as_max_queue_requests (clamp_workers s) = as_max_queue_requests s"
  "as_max_batch_requests (clamp_workers s) = as_max_batch_requests s"
  "as_max_batch_bytes (clamp_workers s) = as_max_batch_bytes s"
  "as_max_request_body_bytes (clamp_workers s) = as_max_request_body_bytes s"
  "as_max_response_bytes (clamp_workers s) = as_max_response_bytes s"
  "as_request_timeout (clamp_workers s) = as_request_timeout s"
  "as_cache_ttl (clamp_workers s) = as_cache_ttl s"
  "as_cache_max_entries (clamp_workers s) = as_cache_max_entries s"
  "as_backpressure_cooldown (clamp_workers s) = as_backpressure_cooldown s"
  "as_stale_if_error_ttl (clamp_workers s) = as_stale_if_error_ttl s"
  "as_reliability_mode (clamp_workers s) = as_reliability_mode s"
  by (auto simp: clamp_workers_def max_worker_concurrency_limit_def Let_def)

lemma check_settings_iff: "(\<exists>s'. check_settings s = Inr s') \<longleftrightarrow> settings_acceptable s"
  by (auto simp: check_settings_def settings_acceptable_def normalize_mode_def Let_def)

lemma check_settings_ok: "check_settings s = Inr s' \<Longrightarrow> settings_ok s'"
  by (auto simp: check_settings_def settings_ok_def settings_acceptable_def normalize_mode_def Let_def
      modes_fixed split: if_splits)

lemma new_agent_fresh: "new_agent d s clock entropy = Inr a \<Longrightarrow> fresh_agent a"
  using check_settings_ok [of s]
  by (auto simp: new_agent_def fresh_agent_def cache_shape_def cache_ok_def counters_balanced_def zero_runtime_def
      settings_ok_def settings_acceptable_def split: if_splits sum.splits)

lemma new_agent_idle: "new_agent d s clock entropy = Inr a \<Longrightarrow> \<not> rt_dispatch_in_flight (ag_runtime a)"
  by (auto simp: new_agent_def zero_runtime_def split: if_splits sum.splits)

text \<open>Where the accepted requests are: queued, buffered, in flight, or answered.\<close>

definition sys_core :: "agent \<Rightarrow> system \<Rightarrow> bool" where
  "sys_core a0 s \<longleftrightarrow>
     ag_settings (sy_agent s) = ag_settings a0 \<and> cache_shape (sy_agent s) \<and>
     counters_balanced (sy_agent s) \<and> rt_total_fail_open_served (ag_runtime (sy_agent s)) = 0 \<and>
     (\<forall>fl. sy_flight s = Some fl \<longrightarrow> flight_ok fl (sy_agent s)) \<and>
     int (length (ag_queue (sy_agent s))) \<le> as_max_queue_requests (ag_settings a0) \<and>
     (\<exists>ps. list_all2 answers_request ps (ag_sends (sy_agent s)) \<and>
        mset (sy_accepted s) = mset (ag_queue (sy_agent s)) + mset (sy_pending s) +
          mset (in_flight (sy_flight s)) + mset ps)"

lemma flight_ok_cong:
  "flight_ok fl a \<Longrightarrow> ag_cache b = ag_cache a \<Longrightarrow> ag_settings b = ag_settings a \<Longrightarrow> flight_ok fl b"
  by (simp add: flight_ok_def units_absent_def)

lemma core_quiet:
  assumes "sys_core a0 s" and "quiet (sy_agent s) a"
    and "sy_agent t = a" "sy_accepted t = sy_accepted s" "sy_pending t = sy_pending s" "sy_flight t = sy_flight s"
  shows "sys_core a0 t"
proof -
  have "cache_shape a" "\<forall>fl. sy_flight s = Some fl \<longrightarrow> flight_ok fl a"
    using assms(1,2) by (auto simp: sys_core_def quiet_def keeps_def intro: cache_shape_cong flight_ok_cong)
  with assms show ?thesis by (auto simp: sys_core_def quiet_def keeps_def)
qed

lemma core_run:
  assumes "sys_core a0 s" and "run_step (sy_agent s) (sy_pending s @ in_flight (sy_flight s)) (sy_agent t) (sy_pending t @ in_flight (sy_flight t))"
    and "sy_accepted t = sy_accepted s" and "\<forall>fl. sy_flight t = Some fl \<longrightarrow> flight_ok fl (sy_agent t)"
  shows "sys_core a0 t"
proof -
  from assms(1) obtain ps where ps: "list_all2 answers_request ps (ag_sends (sy_agent s))"
    "mset (sy_accepted s) = mset (ag_queue (sy_agent s)) + mset (sy_pending s) +
       mset (in_flight (sy_flight s)) + mset ps" by (auto simp: sys_core_def)
  from assms(2) obtain qs where qs: "keeps (sy_agent s) (sy_agent t)" "cache_shape (sy_agent t)"
    "answers (sy_agent s) qs (sy_agent t)"
    "mset (sy_pending s @ in_flight (sy_flight s)) = mset qs + mset (sy_pending t @ in_flight (sy_flight t))"
    by (auto simp: run_step_def)
  from qs(3) ps(1) have "list_all2 answers_request (ps @ qs) (ag_sends (sy_agent t))"
    by (auto simp: answers_def intro: list_all2_appendI)
  moreover have "mset (sy_accepted t) = mset (ag_queue (sy_agent t)) + mset (sy_pending t) +
       mset (in_flight (sy_flight t)) + mset (ps @ qs)"
    using ps(2) qs(1,4) assms(3) by (simp add: keeps_def)
  ultimately show ?thesis
    using assms(1,4) qs(1,2) by (auto simp: sys_core_def keeps_def)
qed

lemma core_step:
  assumes "sys_step s t" and "sys_core a0 s"
  shows "sys_core a0 t"
  using assms(1)
proof (cases rule: sys_step_cases)
  case (Reject request r a)
  then show ?thesis
    using core_quiet [OF assms(2)] submit_begin_quiet [of "sy_agent s" request] by simp
next
  case (Check request item a)
  then show ?thesis
    using core_quiet [OF assms(2)] submit_begin_quiet [of "sy_agent s" request] by simp
next
  case (Overflow item r a)
  then show ?thesis
    using submit_enqueue_Some [OF Overflow(3)] by (intro core_quiet [OF assms(2), of a]) simp_all
next
  case (Enqueue item a)
  let ?p = "\<lparr> pr_request = item, pr_result_ch = sy_next_ch s \<rparr>"
  from submit_enqueue_None [OF Enqueue(3)] have q: "\<not> queue_full (sy_agent s)"
    "a = sy_agent s \<lparr> ag_queue := ag_queue (sy_agent s) @ [?p] \<rparr>" by auto
  from assms(2) obtain ps where ps: "list_all2 answers_request ps (ag_sends (sy_agent s))"
    "mset (sy_accepted s) = mset (ag_queue (sy_agent s)) + mset (sy_pending s) +
       mset (in_flight (sy_flight s)) + mset ps" by (auto simp: sys_core_def)
  moreover have "cache_shape a" "\<forall>fl. sy_flight s = Some fl \<longrightarrow> flight_ok fl a"
    using assms(2) by (auto simp: sys_core_def q(2) intro: cache_shape_cong flight_ok_cong)
  ultimately show ?thesis
    using assms(2) q(1) unfolding Enqueue(1)
    by (auto simp: sys_core_def q(2) queue_full_def counters_balanced_def)
next
  case (Count p)
  have "sys_core a0 (s \<lparr> sy_agent := record_submitted (sy_agent s) \<rparr>)"
    using assms(2) by (auto simp: sys_core_def relay_simps intro: cache_shape_cong flight_ok_cong)
  then show ?thesis unfolding Count(1) by (simp add: sys_core_def)
next
  case (Receive pending a)
  then obtain p q where q: "ag_queue (sy_agent s) = p # q" by (cases "ag_queue (sy_agent s)") auto
  with Receive have a: "pending = sy_pending s @ [p]"
    "a = set_pending_in_batch_buffer (length (sy_pending s @ [p])) (sy_agent s \<lparr> ag_queue := q \<rparr>)"
    by (auto simp: run_receive_def)
  have "counters_balanced a = counters_balanced (sy_agent s)"
    by (simp add: a(2) relay_simps) (simp add: counters_balanced_def)
  moreover have "rt_total_fail_open_served (ag_runtime a) = rt_total_fail_open_served (ag_runtime (sy_agent s))"
    by (simp add: a(2) relay_simps)
  moreover have "cache_shape a" "\<forall>fl. sy_flight s = Some fl \<longrightarrow> flight_ok fl a"
    using assms(2) by (auto simp: sys_core_def a(2) relay_simps intro: cache_shape_cong flight_ok_cong)
  ultimately show ?thesis
    using assms(2) q unfolding Receive(1) by (auto simp: sys_core_def a relay_simps)
next
  case (Tick fo pending a)
  then have "sy_flight s = None" by (simp add: run_idle_def)
  moreover have "cache_shape (sy_agent s)" using assms(2) by (simp add: sys_core_def)
  ultimately show ?thesis
    using run_tick_step [OF Tick(3)] core_run [OF assms(2)] by (simp add: Tick(1))
next
  case (Complete fl outcome)
  then have "flight_ok fl (sy_agent s)" "cache_shape (sy_agent s)" using assms(2) by (auto simp: sys_core_def)
  from dispatch_finish_spec [OF this, of outcome]
  have "run_step (sy_agent s) (sy_pending s @ in_flight (sy_flight s)) (sy_agent t) (sy_pending t @ in_flight (sy_flight t))"
    using Complete by (auto simp: run_step_def)
  then show ?thesis using core_run [OF assms(2)] Complete by simp
next
  case Stop
  then have "sy_flight s = None" "cache_shape (sy_agent s)"
    using assms(2) by (simp_all add: run_idle_def sys_core_def)
  with run_stop_step have "run_step (sy_agent s) (sy_pending s @ in_flight (sy_flight s)) (sy_agent t) (sy_pending t @ in_flight (sy_flight t))"
    by (simp add: Stop(1))
  then show ?thesis using core_run [OF assms(2)] \<open>sy_flight s = None\<close> by (simp add: Stop(1))
next
  case (Deliver p r)
  then show ?thesis using assms(2) by (simp add: sys_core_def)
next
  case (Cancel p)
  then show ?thesis using assms(2) by (simp add: sys_core_def)
next
  case (Observe n a)
  then show ?thesis
    using core_quiet [OF assms(2)] quiet_ops(6) [of "sy_agent s"] by simp
qed

lemma core_init: "fresh_agent a0 \<Longrightarrow> sys_core a0 (sys_init a0)"
  using quiet_ops(5) [of a0 0]
  by (auto simp: sys_core_def sys_init_def fresh_agent_def quiet_def keeps_def intro: cache_shape_cong)

lemma reachable_core: "reachable a0 s \<Longrightarrow> fresh_agent a0 \<Longrightarrow> sys_core a0 s"
  by (induction rule: reachable.induct) (auto intro: core_init core_step)

text \<open>The callers: each accepted request has one caller, and channels are not shared.\<close>

definition sys_callers :: "agent \<Rightarrow> system \<Rightarrow> bool" where
  "sys_callers a0 s \<longleftrightarrow>
     distinct (map pr_result_ch (sy_accepted s)) \<and>
     (\<forall>p \<in> set (sy_accepted s). pr_result_ch p < sy_next_ch s \<and> admitted (ag_settings a0) (pr_request p)) \<and>
     (\<forall>i \<in> set (sy_checked s). admitted (ag_settings a0) i) \<and>
     mset (sy_accepted s) = mset (sy_uncounted s) + mset (sy_waiting s) +
       mset (map fst (sy_delivered s)) + mset (sy_cancelled s) \<and>
     (\<forall>(p, r) \<in> set (sy_delivered s). (pr_result_ch p, r) \<in> set (ag_sends (sy_agent s))) \<and>
     (\<forall>r \<in> set (sy_rejected s). \<not> rr_ok r \<and> result_shape r) \<and>
     rt_total_submitted (ag_runtime (sy_agent s)) + of_nat (length (sy_uncounted s)) =
       of_nat (length (sy_accepted s))"

text \<open>Sends and the submission counter change only as the relevant segments say.\<close>

lemma step_sends: "sys_step s t \<Longrightarrow> sys_core a0 s \<Longrightarrow> \<exists>ss. ag_sends (sy_agent t) = ag_sends (sy_agent s) @ ss"
proof (induction rule: sys_step.induct)
  case (Tick s fo pending a)
  then have "cache_shape (sy_agent s)" by (simp add: sys_core_def)
  from run_tick_step [OF Tick(2) this] show ?case by (auto simp: run_step_def answers_def)
next
  case (Complete s fl outcome)
  then have "flight_ok fl (sy_agent s)" "cache_shape (sy_agent s)" by (auto simp: sys_core_def)
  from dispatch_finish_spec [OF this, of outcome] show ?case by (auto simp: answers_def)
next
  case (Stop s)
  then have "cache_shape (sy_agent s)" by (simp add: sys_core_def)
  from run_stop_step [OF this] show ?case by (auto simp: run_step_def answers_def)
next
  case (Reject request s r a)
  then show ?case using submit_begin_quiet [of "sy_agent s" request] by (simp add: quiet_def)
next
  case (Check request s item a)
  then show ?case using submit_begin_quiet [of "sy_agent s" request] by (simp add: quiet_def)
next
  case (Overflow item s r a)
  then show ?case using submit_enqueue_Some [OF Overflow(2)] by (simp add: quiet_def)
next
  case (Enqueue item s a p)
  then show ?case using submit_enqueue_None [OF Enqueue(2)] by simp
next
  case (Receive s pending a)
  then show ?case by (auto simp: run_receive_def relay_simps split: list.splits)
next
  case (Observe s n a)
  then show ?case using quiet_ops(6) [of "sy_agent s"] by (simp add: quiet_def)
qed (simp_all add: relay_simps)

lemma step_submitted:
  assumes "sys_step s t" and "sys_core a0 s"
  shows "rt_total_submitted (ag_runtime (sy_agent t)) =
    rt_total_submitted (ag_runtime (sy_agent s)) + (if length (sy_uncounted t) < length (sy_uncounted s) then 1 else 0)"
  using assms
proof (induction rule: sys_step.induct)
  case (Tick s fo pending a)
  then have "cache_shape (sy_agent s)" by (simp add: sys_core_def)
  from run_tick_step [OF Tick(2) this] show ?case by (auto simp: run_step_def keeps_def)
next
  case (Complete s fl outcome)
  then have "flight_ok fl (sy_agent s)" "cache_shape (sy_agent s)" by (auto simp: sys_core_def)
  from dispatch_finish_spec [OF this, of outcome] show ?case by (auto simp: keeps_def)
next
  case (Stop s)
  then have "cache_shape (sy_agent s)" by (simp add: sys_core_def)
  from run_stop_step [OF this] show ?case by (auto simp: run_step_def keeps_def)
next
  case (Reject request s r a)
  then show ?case using submit_begin_quiet [of "sy_agent s" request] by (simp add: quiet_def keeps_def)
next
  case (Check request s item a)
  then show ?case using submit_begin_quiet [of "sy_agent s" request] by (simp add: quiet_def keeps_def)
next
  case (Overflow item s r a)
  then show ?case using submit_enqueue_Some [OF Overflow(2)] by (simp add: quiet_def keeps_def)
next
  case (Enqueue item s a p)
  then show ?case using submit_enqueue_None [OF Enqueue(2)] by simp
next
  case (Receive s pending a)
  then show ?case by (auto simp: run_receive_def relay_simps split: list.splits)
next
  case (Observe s n a)
  then show ?case using quiet_ops(6) [of "sy_agent s"] by (simp add: quiet_def keeps_def)
next
  case (Count p s)
  then have "0 < length (sy_uncounted s)" by (cases "sy_uncounted s") auto
  with Count show ?case by (simp add: length_remove1) (simp add: record_submitted_def update_runtime_def)
qed simp_all

lemma callers_step:
  assumes "sys_step s t" and "sys_core a0 s" and "sys_callers a0 s"
  shows "sys_callers a0 t"
proof -
  from step_sends [OF assms(1,2)] obtain ss where ss: "ag_sends (sy_agent t) = ag_sends (sy_agent s) @ ss" by blast
  note sub = step_submitted [OF assms(1,2)]
  have set0: "ag_settings (sy_agent s) = ag_settings a0" using assms(2) by (simp add: sys_core_def)
  from assms(1) show ?thesis
  proof (cases rule: sys_step_cases)
    case (Reject request r a)
    with assms(3) ss sub submit_begin_rejected [OF Reject(2)] show ?thesis
      by (auto simp: sys_callers_def)
  next
    case (Check request item a)
    with assms(3) ss sub submit_begin_admitted [OF Check(2)] set0 show ?thesis
      by (auto simp: sys_callers_def)
  next
    case (Overflow item r a)
    with assms(3) ss sub submit_enqueue_Some [OF Overflow(3)] show ?thesis
      by (auto simp: sys_callers_def dest: notin_set_remove1)
  next
    case (Enqueue item a)
    with assms(3) ss sub show ?thesis
      by (auto simp: sys_callers_def less_Suc_eq dest: notin_set_remove1)
  next
    case (Count p)
    from Count(2) have "0 < length (sy_uncounted s)" by (cases "sy_uncounted s") auto
    with Count(2) have "length (sy_uncounted s) = Suc (length (remove1 p (sy_uncounted s)))"
      by (simp add: length_remove1)
    with Count assms(3) ss sub show ?thesis
      by (auto simp: sys_callers_def algebra_simps)
  next
    case (Receive pending a)
    with assms(3) ss sub show ?thesis by (auto simp: sys_callers_def)
  next
    case (Tick fo pending a)
    with assms(3) ss sub show ?thesis by (auto simp: sys_callers_def)
  next
    case (Complete fl outcome)
    with assms(3) ss sub show ?thesis by (auto simp: sys_callers_def)
  next
    case Stop
    with assms(3) ss sub show ?thesis by (auto simp: sys_callers_def)
  next
    case (Deliver p r)
    with assms(3) show ?thesis by (auto simp: sys_callers_def)
  next
    case (Cancel p)
    with assms(3) show ?thesis by (auto simp: sys_callers_def)
  next
    case (Observe n a)
    with assms(3) ss sub show ?thesis by (auto simp: sys_callers_def)
  qed
qed

lemma callers_init: "fresh_agent a0 \<Longrightarrow> sys_callers a0 (sys_init a0)"
  by (simp add: sys_callers_def sys_init_def fresh_agent_def relay_simps)

lemma reachable_callers: "reachable a0 s \<Longrightarrow> fresh_agent a0 \<Longrightarrow> sys_callers a0 s"
  by (induction rule: reachable.induct) (auto intro: callers_init callers_step reachable_core)

subsection \<open>The gauges\<close>

text \<open>The two gauges of the snapshot: the length of the buffer and whether a batch is in flight.\<close>

definition gauges :: "agent \<Rightarrow> int \<times> bool" where
  "gauges a = (rt_pending_in_batch_buffer (ag_runtime a), rt_dispatch_in_flight (ag_runtime a))"

lemma gauges_ops [relay_simps]:
  "gauges (record_submitted a) = gauges a" "gauges (record_local_rejection r a) = gauges a"
  "gauges (record_batch_dispatched i n a) = (fst (gauges a), True)"
  "gauges (record_dispatch_success d a) = (fst (gauges a), False)"
  "gauges (record_dispatch_error e a) = (fst (gauges a), False)"
  "gauges (set_pending_in_batch_buffer n a) = (int n, snd (gauges a))"
  "gauges (record_cache_hit a) = gauges a" "gauges (record_deduplicated a) = gauges a"
  "gauges (record_fail_open_served a) = gauges a" "gauges (activate_backpressure s a) = gauges a"
  "gauges (answer p r a) = gauges a" "gauges (snd (read_clock a)) = gauges a"
  "gauges (snd (new_id f a)) = gauges a" "gauges (snd (backpressure_state t a)) = gauges a"
  "gauges (evict_expired_cache t a) = gauges a" "gauges (snd (load_cache_entry k t a)) = gauges a"
  "gauges (store_cache_entry k r t a) = gauges a" "gauges (snd (take_snapshot a)) = gauges a"
  by (simp_all add: gauges_def relay_simps take_snapshot_def case_prod_beta Let_def)
     (simp_all add: state_defs Let_def backpressure_state_def)

lemma gauges_queue [relay_simps]: "gauges (a \<lparr> ag_queue := q \<rparr>) = gauges a"
  by (simp add: gauges_def)

lemma gauges_answer_fold: "gauges (fold (\<lambda>p. answer p (f p)) ps a) = gauges a"
  by (induction ps arbitrary: a) (simp_all add: relay_simps)

lemma gauges_pick: "gauges (snd (pick_loop ps c r a)) = gauges a"
  by (induction ps c r a rule: pick_loop.induct)
     (auto simp: relay_simps batch_size_for_pending_def batch_size_bytes_def)

lemma gauges_prepare: "gauges (snd (prepare_loop t ps us m a)) = gauges a"
proof (induction ps arbitrary: us m a)
  case Nil
  then show ?case by simp
next
  case (Cons p ps)
  obtain k c where k: "cache_key_for_request (pr_request p) = (k, c)" by fastforce
  obtain l b where l: "load_cache_entry k t a = (l, b)" by fastforce
  have "gauges b = gauges a" using gauges_ops(16) [of k t a] l by simp
  then show ?case
    by (cases l) (auto simp: k l Cons.IH relay_simps split: option.splits)
qed

lemma gauges_fail_units: "gauges (fail_units us code m a) = gauges a"
proof -
  have "gauges (snd (recover_stale_for_error u code a)) = gauges a" for u a
    by (simp add: recover_stale_for_error_def case_prod_beta relay_simps split: option.split)
  then have "gauges (fail_unit code x u a) = gauges a" for x u a
    by (simp add: fail_unit_def answer_duplicates_def case_prod_beta Let_def gauges_answer_fold relay_simps)
  then have "gauges (fold (fail_unit code x) us a) = gauges a" for x
    by (induction us arbitrary: a) simp_all
  then show ?thesis by (simp add: fail_units_def)
qed

lemma gauges_deliver: "gauges (fold (deliver_unit m) us a) = gauges a"
proof -
  have "gauges (snd (recover_stale_for_missing u a)) = gauges a" for u a
    by (simp add: recover_stale_for_missing_def case_prod_beta relay_simps split: option.split)
  then have "gauges (deliver_unit m u a) = gauges a" for u a
    by (simp add: deliver_unit_def answer_duplicates_def case_prod_beta Let_def gauges_answer_fold
        relay_simps split: option.split)
  then show ?thesis by (induction us arbitrary: a) simp_all
qed

lemma gauges_finish: "gauges (dispatch_finish fl outcome a) = (fst (gauges a), False)"
  by (simp add: dispatch_finish_def case_prod_beta Let_def gauges_fail_units gauges_deliver relay_simps
      split: sum.split option.split)

lemma gauges_begin:
  "dispatch_begin ps a = (fo, b) \<Longrightarrow> \<not> snd (gauges a) \<Longrightarrow> gauges b = (fst (gauges a), fo \<noteq> None)"
proof -
  assume d: "dispatch_begin ps a = (fo, b)" and f: "\<not> snd (gauges a)"
  let ?u = "prepare_dispatch_units ps a"
  have u: "gauges (snd ?u) = gauges a"
    by (simp add: prepare_dispatch_units_def case_prod_beta gauges_prepare relay_simps)
  from f have "gauges a = (fst (gauges a), False)" by (cases "gauges a") simp
  with d u show ?thesis
    by (auto simp: dispatch_begin_def case_prod_beta Let_def batch_size_bytes_def gauges_fail_units
        relay_simps split: if_splits option.splits)
qed

lemma gauges_tick:
  assumes "run_tick ps a = (fo, ps', b)" and "gauges a = (int (length ps), False)"
  shows "gauges b = (int (length ps'), fo \<noteq> None)"
proof -
  let ?c = "evict_expired_cache (fst (read_clock a)) (snd (read_clock a))"
  let ?p = "backpressure_state (fst (read_clock a)) ?c"
  let ?q = "pick_batch_chunk ps (snd ?p)"
  let ?g = "set_pending_in_batch_buffer (length (snd (fst ?q))) (snd ?q)"
  have q: "gauges (snd ?q) = gauges a" by (simp add: pick_batch_chunk_def gauges_pick relay_simps)
  show ?thesis
  proof (cases "ps = [] \<or> fst ?p \<noteq> None \<or> fst (fst ?q) = []")
    case True
    with assms q show ?thesis
      by (auto simp: run_tick_def case_prod_beta Let_def reject_pending_for_backpressure_def
          gauges_answer_fold relay_simps split: option.splits if_splits)
  next
    case False
    with assms(1) have "dispatch_begin (fst (fst ?q)) ?g = (fo, b)" "ps' = snd (fst ?q)"
      by (auto simp: run_tick_def case_prod_beta Let_def split: prod.splits)
    from gauges_begin [OF this(1)] this(2) q assms(2) show ?thesis by (simp add: relay_simps)
  qed
qed

definition gauges_ok :: "system \<Rightarrow> bool" where
  "gauges_ok s \<longleftrightarrow> gauges (sy_agent s) = (int (length (sy_pending s)), sy_flight s \<noteq> None)"

lemma gauges_step:
  assumes "sys_step s t" and "gauges_ok s"
  shows "gauges_ok t"
  using assms
proof (induction rule: sys_step.induct)
  case (Reject request s r a)
  then have "a = snd (submit_begin request (sy_agent s))" by simp
  moreover have "gauges (snd (submit_begin request (sy_agent s))) = gauges (sy_agent s)"
    by (simp add: submit_begin_def Let_def case_prod_beta relay_simps split: option.split)
  ultimately show ?case using Reject by (simp add: gauges_ok_def)
next
  case (Check request s item a)
  then have "a = snd (submit_begin request (sy_agent s))" by simp
  moreover have "gauges (snd (submit_begin request (sy_agent s))) = gauges (sy_agent s)"
    by (simp add: submit_begin_def Let_def case_prod_beta relay_simps split: option.split)
  ultimately show ?case using Check by (simp add: gauges_ok_def)
next
  case (Tick s fo pending a)
  then show ?case using gauges_tick [OF Tick(2)] by (simp add: gauges_ok_def run_idle_def)
next
  case (Stop s)
  then show ?case
    by (simp add: gauges_ok_def run_stop_def run_idle_def gauges_answer_fold relay_simps)
next
  case (Observe s n a)
  then show ?case using gauges_ops(18) [of "sy_agent s"] by (simp add: gauges_ok_def)
qed (auto simp: gauges_ok_def gauges_finish relay_simps submit_enqueue_def run_receive_def Let_def
       split: if_splits list.splits)

lemma reachable_gauges:
  "reachable a0 s \<Longrightarrow> \<not> rt_dispatch_in_flight (ag_runtime a0) \<Longrightarrow> gauges_ok s"
proof (induction rule: reachable.induct)
  case init
  then show ?case by (simp add: gauges_ok_def sys_init_def relay_simps) (simp add: gauges_def)
next
  case (step s t)
  then show ?case using gauges_step by blast
qed

end
