(* ===== verification/Agent_Scenario.thy ===== *)
theory Agent_Scenario
  imports Agent_System
begin

text \<open>
  A concrete run of the agent: one request is submitted, queued, buffered, dispatched, failed by
  the dispatcher, and its result received. It shows that the invariants of the reachable states
  speak about states in which every list is populated.
\<close>

subsection \<open>A dispatch of one request\<close>

definition world_ok :: "agent \<Rightarrow> bool" where
  "world_ok a \<longleftrightarrow> entropy_ok a \<and> (\<forall>n. 0 \<le> ag_clock a n \<and> ag_clock a n < max_time)"

lemma begin_one:
  assumes "ag_cache a = []" and "world_ok a" and "settings_live (ag_settings a)" and "item_wf (pr_request p)"
    and "batch_size_for_pending [p] (ag_settings a) = Inr n" and "n < as_max_batch_bytes (ag_settings a)"
  shows "\<exists>fl b. dispatch_begin [p] a = (Some fl, b) \<and> fl_units fl = [fresh_unit p]"
proof -
  let ?c = "snd (read_clock a)"
  have prep: "prepare_dispatch_units [p] a = ([fresh_unit p], ?c)"
    using assms(1)
    by (cases "cache_key_for_request (pr_request p)")
       (simp add: prepare_dispatch_units_def case_prod_beta load_cache_entry_def relay_simps)
  let ?i = "fst (new_id ''batch'' ?c)" and ?d = "snd (new_id ''batch'' ?c)"
  let ?t = "fst (read_clock ?d)"
  have t: "0 \<le> ?t" "?t < max_time"
    using assms(2) by (auto simp: world_ok_def read_clock_def new_id_def Let_def split: option.splits)
  have "entropy_ok ?c" using assms(2) by (simp add: world_ok_def entropy_ok_def read_clock_def)
  then obtain buf where buf: "length buf = 12" "?i = ''batch'' @ ''-'' @ hex_encode buf"
    using new_id_shape [of ?c "''batch''"] by auto
  let ?b = "make_batch ?i (format_rfc3339 ?t) (ag_settings a) [pr_request p]"
  have size: "batch_size_bytes ?b = Inr (n + 1)"
    using batch_size_gap_lemma [OF buf(1) t, of "ag_settings a" "[p]"] assms(5) buf(2) by simp
  have "validate_request_batch ?b = None"
    using make_batch_wf [OF assms(3) new_id_not_blank [of ?c] t, of "[pr_request p]"] assms(4)
    by (simp add: validate_batch_lemma)
  with prep size assms(6) show ?thesis
    by (simp add: dispatch_begin_def case_prod_beta Let_def relay_simps)
qed

lemma tick_one:
  assumes "ag_cache a = []" and "world_ok a" and "settings_live (ag_settings a)" and "item_wf (pr_request p)"
    and "batch_size_for_pending [p] (ag_settings a) = Inr n" and "n < as_max_batch_bytes (ag_settings a)"
    and "0 < as_max_batch_requests (ag_settings a)" and "rt_backpressure_until (ag_runtime a) = 0"
  shows "\<exists>fl b. run_tick [p] a = (Some fl, [], b) \<and> fl_units fl = [fresh_unit p]"
proof -
  let ?c = "evict_expired_cache (fst (read_clock a)) (snd (read_clock a))"
  have c: "ag_settings ?c = ag_settings a" "ag_cache ?c = []" "ag_runtime ?c = ag_runtime a"
    "ag_entropy ?c = ag_entropy a" "ag_clock ?c = ag_clock a"
    using assms(1) by (simp_all add: evict_expired_cache_def set_cache_def read_clock_def)
  have p: "pick_batch_chunk [p] ?c = (([p], []), ?c)"
    using assms(5-7) c by (simp add: pick_batch_chunk_def)
  let ?g = "set_pending_in_batch_buffer 0 ?c"
  have g: "ag_settings ?g = ag_settings a" "ag_cache ?g = []" "world_ok ?g"
    using assms(2) c
    by (simp_all add: relay_simps world_ok_def entropy_ok_def) (simp_all add: set_pending_in_batch_buffer_def update_runtime_def)
  from begin_one [OF g(2,3), of p n] obtain fl b where
    "dispatch_begin [p] ?g = (Some fl, b)" "fl_units fl = [fresh_unit p]"
    using assms g by auto
  moreover have "backpressure_state (fst (read_clock a)) ?c = (None, ?c)"
    using assms(8) c by (simp add: backpressure_state_def Let_def)
  ultimately show ?thesis using p by (simp add: run_tick_def case_prod_beta Let_def)
qed

subsection \<open>The run\<close>

definition sample_request :: submit_request where
  "sample_request = \<lparr> sr_method = ''get'', sr_url = ''http://a.b/'', sr_body = [], sr_header = [] \<rparr>"

definition sample_item :: request_item where
  "sample_item = normalize_request sample_request \<lparr> ri_request_id := ''req-616161616161616161616161'' \<rparr>"

definition sample_base :: settings where
  "sample_base =
     \<lparr> as_batch_interval = 2000000000, as_request_timeout = 30000000000, as_max_request_body_bytes = 1024,
       as_max_response_bytes = 1024, as_worker_concurrency = 4, as_max_worker_concurrency = 4,
       as_max_batch_requests = 2, as_max_batch_bytes = 1, as_max_queue_requests = 1,
       as_cache_ttl = 60000000000, as_cache_max_entries = 1, as_stale_if_error_ttl = 60000000000,
       as_backpressure_cooldown = 60000000000, as_reliability_mode = ''fail_open'' \<rparr>"

text \<open>Room for a batch of the one item.\<close>

definition sample_settings :: settings where
  "sample_settings = sample_base
     \<lparr> as_max_batch_bytes := int (length (json_text (batch_json
         (make_batch ''batch-sizing-0000000000000000'' ''2026-01-01T00:00:00Z'' sample_base [sample_item])))) + 1 \<rparr>"

definition sample_clock :: "nat \<Rightarrow> time" where
  "sample_clock n = 63900000000000000000"

definition sample_entropy :: "nat \<Rightarrow> string option" where
  "sample_entropy n = Some (replicate 12 (CHR ''a''))"

definition sample_agent :: agent where
  "sample_agent =
     \<lparr> ag_settings = sample_settings, ag_queue = [], ag_runtime = zero_runtime (format_rfc3339 (sample_clock 0)),
       ag_cache = [], ag_sends = [], ag_clock = sample_clock, ag_reads = 1, ag_entropy = sample_entropy,
       ag_draws = 0 \<rparr>"

definition sample_pending :: pending_request where
  "sample_pending = \<lparr> pr_request = sample_item, pr_result_ch = 0 \<rparr>"

lemma sample_new_agent: "new_agent (Some ()) sample_settings sample_clock sample_entropy = Inr sample_agent"
proof -
  have m: "go_lower (trim_space ''fail_open'') = ''fail_open''" by code_simp
  have "check_settings sample_settings = Inr sample_settings"
    by (simp add: check_settings_def sample_settings_def sample_base_def clamp_workers_def normalize_mode_def
        Let_def m max_worker_concurrency_limit_def reliability_fail_open_def)
  then show ?thesis by (simp add: new_agent_def sample_agent_def)
qed

lemma sample_admitted: "classify_request sample_item 0 1024 = None"
  unfolding sample_item_def by code_simp

lemma sample_item_wf: "item_wf sample_item"
proof -
  have "classify_request (normalize_request sample_request) 0 1024 = None" by code_simp
  moreover have "\<not> blank ''req-616161616161616161616161''" by code_simp
  ultimately show ?thesis unfolding sample_item_def by (rule accepted_item_wf)
qed

lemma make_batch_base: "make_batch i t sample_settings rs = make_batch i t sample_base rs"
  by (simp add: make_batch_def sample_settings_def)

lemma sample_size:
  "\<exists>n. batch_size_for_pending [sample_pending] sample_settings = Inr n \<and> n < as_max_batch_bytes sample_settings"
  by (simp add: batch_size_for_pending_def batch_size_bytes_def make_batch_base sample_pending_def)
     (simp add: sample_settings_def)

lemma sample_fields:
  "ag_settings sample_agent = sample_settings" "ag_cache sample_agent = []" "ag_queue sample_agent = []"
  "as_max_request_body_bytes sample_settings = 1024" "as_max_queue_requests sample_settings = 1"
  "as_max_batch_requests sample_settings = 2" "rt_backpressure_until (ag_runtime sample_agent) = 0"
  "ag_sends sample_agent = []"
  by (simp_all add: sample_agent_def sample_settings_def sample_base_def zero_runtime_def)

lemma sample_start: "sy_agent (sys_init sample_agent) = sample_agent"
  by (simp add: sys_init_def set_pending_in_batch_buffer_def update_runtime_def sample_agent_def zero_runtime_def)

lemma sample_begin:
  "submit_begin sample_request sample_agent = (Inr sample_item, sample_agent \<lparr> ag_draws := 1, ag_reads := 2 \<rparr>)"
proof -
  have h: "hex_encode (replicate 12 (CHR ''a'')) = ''616161616161616161616161''" by code_simp
  have n: "new_id ''req'' sample_agent = (''req-616161616161616161616161'', sample_agent \<lparr> ag_draws := 1 \<rparr>)"
    by (simp add: new_id_def sample_agent_def sample_entropy_def h)
  have r: "read_clock (sample_agent \<lparr> ag_draws := 1 \<rparr>) = (sample_clock 1, sample_agent \<lparr> ag_draws := 1, ag_reads := 2 \<rparr>)"
    by (simp add: read_clock_def sample_agent_def)
  have b: "backpressure_state t (sample_agent \<lparr> ag_draws := 1, ag_reads := 2 \<rparr>) =
      (None, sample_agent \<lparr> ag_draws := 1, ag_reads := 2 \<rparr>)" for t
    by (simp add: backpressure_state_def Let_def sample_fields)
  have s: "sr_body sample_request = []" by (simp add: sample_request_def)
  show ?thesis
    unfolding submit_begin_def Let_def n prod.case sample_item_def [symmetric] r b
    using sample_admitted by (simp add: sample_fields s r b)
qed

text \<open>Submit, queue, count, buffer, tick, an error of the dispatcher, delivery.\<close>

lemma sample_run_buffered:
  "\<exists>s. reachable sample_agent s \<and> run_idle s \<and> sy_pending s = [sample_pending] \<and> sy_waiting s = [sample_pending] \<and>
     sy_accepted s = [sample_pending] \<and> sy_delivered s = [] \<and>
     ag_cache (sy_agent s) = [] \<and> ag_settings (sy_agent s) = sample_settings \<and>
     rt_backpressure_until (ag_runtime (sy_agent s)) = 0 \<and> ag_clock (sy_agent s) = sample_clock \<and>
     ag_entropy (sy_agent s) = sample_entropy"
proof -
  define s0 where "s0 = sys_init sample_agent"
  define a1 where "a1 = sample_agent \<lparr> ag_draws := 1, ag_reads := 2 \<rparr>"
  define s1 where "s1 = s0 \<lparr> sy_agent := a1, sy_checked := sample_item # sy_checked s0 \<rparr>"
  define a2 where "a2 = a1 \<lparr> ag_queue := [sample_pending] \<rparr>"
  define s2 where "s2 = s1 \<lparr> sy_agent := a2, sy_checked := remove1 sample_item (sy_checked s1),
    sy_next_ch := Suc (sy_next_ch s1), sy_uncounted := sample_pending # sy_uncounted s1,
    sy_accepted := sy_accepted s1 @ [sample_pending] \<rparr>"
  define s3 where "s3 = s2 \<lparr> sy_agent := record_submitted (sy_agent s2),
    sy_uncounted := remove1 sample_pending (sy_uncounted s2), sy_waiting := sample_pending # sy_waiting s2 \<rparr>"
  define a4 where "a4 = set_pending_in_batch_buffer 1 (record_submitted a2 \<lparr> ag_queue := [] \<rparr>)"
  define s4 where "s4 = s3 \<lparr> sy_agent := a4, sy_pending := [sample_pending] \<rparr>"
  have r0: "reachable sample_agent s0" unfolding s0_def by (rule reachable.init)
  have "sys_step s0 s1"
    unfolding s1_def a1_def
    by (rule sys_step.Check [OF _, of sample_request]) (simp add: s0_def sample_start sample_begin)
  with r0 have r1: "reachable sample_agent s1" by (rule reachable.step)
  have "sys_step s1 s2"
    unfolding s2_def
    by (rule sys_step.Enqueue)
       (simp_all add: s1_def s0_def sys_init_def submit_enqueue_def queue_full_def a2_def a1_def sample_fields
         sample_pending_def)
  with r1 have r2: "reachable sample_agent s2" by (rule reachable.step)
  have "sys_step s2 s3" unfolding s3_def by (rule sys_step.Count) (simp add: s2_def)
  with r2 have r3: "reachable sample_agent s3" by (rule reachable.step)
  have a3: "sy_agent s3 = record_submitted a2" "sy_pending s3 = []" "run_idle s3"
    by (simp_all add: s3_def s2_def s1_def s0_def sys_init_def run_idle_def)
  have "sys_step s3 s4"
    unfolding s4_def
    by (rule sys_step.Receive [OF a3(3)]) (simp_all add: a3 run_receive_def relay_simps a2_def a4_def)
  with r3 have r4: "reachable sample_agent s4" by (rule reachable.step)
  have a4: "ag_cache a4 = []" "ag_settings a4 = sample_settings" "rt_backpressure_until (ag_runtime a4) = 0"
    "ag_clock a4 = sample_clock" "ag_entropy a4 = sample_entropy"
    by (simp_all add: a4_def a2_def a1_def set_pending_in_batch_buffer_def record_submitted_def update_runtime_def
        sample_fields) (simp_all add: sample_agent_def)
  have "run_idle s4" using a3(3) by (simp add: s4_def run_idle_def)
  moreover have "sy_pending s4 = [sample_pending]" "sy_waiting s4 = [sample_pending]"
    "sy_accepted s4 = [sample_pending]" "sy_delivered s4 = []" "sy_agent s4 = a4"
    by (simp_all add: s4_def s3_def s2_def s1_def s0_def sys_init_def)
  ultimately show ?thesis using r4 a4 by blast
qed

lemma sample_run_dispatched:
  "\<exists>s fl. reachable sample_agent s \<and> sy_flight s = Some fl \<and> rb_requests (fl_batch fl) = [sample_item] \<and>
     fl_units fl = [fresh_unit sample_pending] \<and> sy_waiting s = [sample_pending] \<and>
     sy_accepted s = [sample_pending] \<and> sy_delivered s = []"
proof -
  obtain s where s: "reachable sample_agent s" "run_idle s" "sy_pending s = [sample_pending]"
    "sy_waiting s = [sample_pending]" "sy_accepted s = [sample_pending]" "sy_delivered s = []"
    and a: "ag_cache (sy_agent s) = []" "ag_settings (sy_agent s) = sample_settings"
      "rt_backpressure_until (ag_runtime (sy_agent s)) = 0" "ag_clock (sy_agent s) = sample_clock"
      "ag_entropy (sy_agent s) = sample_entropy"
    using sample_run_buffered by blast
  have w: "world_ok (sy_agent s)"
    by (simp add: world_ok_def entropy_ok_def a sample_clock_def sample_entropy_def max_time_def day_ns_def)
  have live: "settings_live (ag_settings (sy_agent s))"
    by (simp add: settings_live_def a sample_settings_def sample_base_def millisecond_def)
  obtain n where n: "batch_size_for_pending [sample_pending] (ag_settings (sy_agent s)) = Inr n"
    "n < as_max_batch_bytes (ag_settings (sy_agent s))" using sample_size a(2) by auto
  have wf: "item_wf (pr_request sample_pending)" by (simp add: sample_pending_def sample_item_wf)
  from tick_one [OF a(1) w live wf n _ a(3)] obtain fl b where
    t: "run_tick [sample_pending] (sy_agent s) = (Some fl, [], b)" "fl_units fl = [fresh_unit sample_pending]"
    by (auto simp: a sample_fields)
  define u where "u = s \<lparr> sy_agent := b, sy_pending := [], sy_flight := Some fl \<rparr>"
  have "sys_step s u" unfolding u_def by (rule sys_step.Tick [OF s(2)]) (simp add: s t)
  with s(1) have "reachable sample_agent u" by (rule reachable.step)
  moreover have "cache_shape (sy_agent s)"
    by (simp add: cache_shape_def cache_ok_def a sample_settings_def sample_base_def)
  with run_tick_step [OF t(1)] have "flight_ok fl b" by blast
  then have "rb_requests (fl_batch fl) = [sample_item]"
    by (simp add: flight_ok_def t(2) sample_pending_def)
  ultimately show ?thesis using t(2) s by (intro exI [of _ u] exI [of _ fl]) (simp add: u_def)
qed

lemma sample_run_delivered:
  "\<exists>s r. reachable sample_agent s \<and> sy_delivered s = [(sample_pending, r)] \<and> sy_accepted s = [sample_pending]"
proof -
  obtain s fl where s: "reachable sample_agent s" "sy_flight s = Some fl"
    "fl_units fl = [fresh_unit sample_pending]" "sy_waiting s = [sample_pending]" "sy_delivered s = []"
    "sy_accepted s = [sample_pending]"
    using sample_run_dispatched by blast
  from reachable_core [OF s(1) new_agent_fresh [OF sample_new_agent]] s(2)
  have "flight_ok fl (sy_agent s)" "cache_shape (sy_agent s)" by (auto simp: sys_core_def)
  from dispatch_finish_spec [OF this, of "Inl (Err ''down'')"]
  have "answers (sy_agent s) [sample_pending] (dispatch_finish fl (Inl (Err ''down'')) (sy_agent s))"
    by (simp add: s(3) unit_items_def)
  then obtain r where r: "(pr_result_ch sample_pending, r) \<in>
      set (ag_sends (dispatch_finish fl (Inl (Err ''down'')) (sy_agent s)))"
    unfolding answers_def by (auto simp: answers_request_def list_all2_Cons1) blast
  define t where "t = s \<lparr> sy_agent := dispatch_finish fl (Inl (Err ''down'')) (sy_agent s), sy_flight := None \<rparr>"
  define u where "u = t \<lparr> sy_waiting := remove1 sample_pending (sy_waiting t),
    sy_delivered := sy_delivered t @ [(sample_pending, r)] \<rparr>"
  have "reachable sample_agent t"
    unfolding t_def using s(1) sys_step.Complete [OF s(2)] by (rule reachable.step)
  moreover have "sys_step t u"
    unfolding u_def by (rule sys_step.Deliver) (simp_all add: t_def s(4) r)
  ultimately have "reachable sample_agent u" by (rule reachable.step)
  moreover have "sy_delivered u = [(sample_pending, r)]" "sy_accepted u = [sample_pending]"
    by (simp_all add: u_def t_def s)
  ultimately show ?thesis by blast
qed

end
