(* ===== verification/Agent_Theorems.thy ===== *)
theory Agent_Theorems
  imports Agent_Scenario
begin

text \<open>
  The guarantees of the agent, over all its reachable states and all interleavings of callers,
  ticks and dispatcher outcomes: every accepted request is answered at most once, by a result of
  its own, and while \<^verbatim>\<open>Run\<close> goes on every request is answered; the queue and the cache are
  bounded; what is dispatched has passed the admission policy; the counters and gauges of the
  snapshot are an account of what happened.
\<close>

subsection \<open>Conservation\<close>

lemma answers_channels: "list_all2 answers_request ps ss \<Longrightarrow> map fst ss = map pr_result_ch ps"
  by (induction rule: list_all2_induct) (auto simp: answers_request_def)

lemma answers_of_send:
  "list_all2 answers_request ps ss \<Longrightarrow> (ch, r) \<in> set ss \<Longrightarrow>
     \<exists>p \<in> set ps. pr_result_ch p = ch \<and> rr_request_id r = item_id p \<and> result_shape r"
  by (induction rule: list_all2_induct) (auto simp: answers_request_def)

text \<open>
  \<open>accounted s ps\<close>: the requests \<open>ps\<close> have been answered, in this order, each by one send on its
  own channel of a result that carries its identifier; every other accepted request is in the
  queue, in the buffer or in the batch in flight; no channel was used twice.
\<close>

definition accounted :: "system \<Rightarrow> pending_request list \<Rightarrow> bool" where
  "accounted s ps \<longleftrightarrow>
     list_all2 answers_request ps (ag_sends (sy_agent s)) \<and>
     distinct (map fst (ag_sends (sy_agent s))) \<and>
     mset (sy_accepted s) = mset (ag_queue (sy_agent s)) + mset (sy_pending s) +
       mset (in_flight (sy_flight s)) + mset ps"

lemma reachable_accounted:
  assumes "reachable a0 s" and "fresh_agent a0"
  shows "\<exists>ps. accounted s ps"
proof -
  from reachable_core [OF assms] obtain ps where
    ps: "list_all2 answers_request ps (ag_sends (sy_agent s))"
    "mset (sy_accepted s) = mset (ag_queue (sy_agent s)) + mset (sy_pending s) +
       mset (in_flight (sy_flight s)) + mset ps" by (auto simp: sys_core_def)
  from reachable_callers [OF assms] have "distinct (map pr_result_ch (sy_accepted s))"
    by (simp add: sys_callers_def)
  moreover from ps(2) have "mset (map pr_result_ch (sy_accepted s)) =
      mset (map pr_result_ch (ag_queue (sy_agent s) @ sy_pending s @ in_flight (sy_flight s) @ ps))"
    by simp
  ultimately have "distinct (map pr_result_ch (ag_queue (sy_agent s) @ sy_pending s @ in_flight (sy_flight s) @ ps))"
    by (metis mset_eq_imp_distinct_iff)
  then have "distinct (map pr_result_ch ps)" by simp
  with ps answers_channels [OF ps(1)] show ?thesis by (auto simp: accounted_def)
qed

text \<open>
  C1. Exactly-once delivery: in every reachable state each request put in the queue is either
  still in the agent's hands (queue, buffer or batch in flight) or has been answered by exactly
  one send on its own channel, of a well-shaped result that carries its identifier.
\<close>

theorem agent_exactly_once:
  assumes "new_agent (Some d) settings clock entropy = Inr a0" and "reachable a0 s"
  shows "\<exists>ps. accounted s ps"
  by (rule reachable_accounted [OF assms(2) new_agent_fresh [OF assms(1)]])

theorem agent_exactly_once_witness:
  "\<exists>s ps. reachable sample_agent s \<and> sy_accepted s = [sample_pending] \<and> sy_delivered s \<noteq> [] \<and> accounted s ps"
proof -
  obtain s r where s: "reachable sample_agent s" "sy_delivered s = [(sample_pending, r)]"
    "sy_accepted s = [sample_pending]" using sample_run_delivered by blast
  from agent_exactly_once [OF sample_new_agent s(1)] s show ?thesis by auto
qed

definition delivered_ok :: "pending_request \<times> request_result \<Rightarrow> bool" where
  "delivered_ok d \<longleftrightarrow> rr_request_id (snd d) = item_id (fst d) \<and> result_shape (snd d)"

definition rejected_ok :: "request_result \<Rightarrow> bool" where
  "rejected_ok r \<longleftrightarrow> \<not> rr_ok r \<and> result_shape r"

lemma reachable_delivered:
  assumes "reachable a0 s" and "fresh_agent a0"
  shows "list_all delivered_ok (sy_delivered s) \<and> list_all rejected_ok (sy_rejected s)"
proof -
  from reachable_accounted [OF assms] obtain ps where ps: "accounted s ps" by blast
  note c = reachable_callers [OF assms]
  have "delivered_ok (p, r)" if "(p, r) \<in> set (sy_delivered s)" for p r
  proof -
    from c that have "(pr_result_ch p, r) \<in> set (ag_sends (sy_agent s))" by (auto simp: sys_callers_def)
    with ps answers_of_send obtain q where
      q: "q \<in> set ps" "pr_result_ch q = pr_result_ch p" "rr_request_id r = item_id q" "result_shape r"
      unfolding accounted_def by metis
    from ps have "set (sy_accepted s) = set (ag_queue (sy_agent s)) \<union> set (sy_pending s) \<union>
        set (in_flight (sy_flight s)) \<union> set ps"
      unfolding accounted_def by (metis set_mset_mset set_mset_union)
    with q(1) have "q \<in> set (sy_accepted s)" by blast
    moreover have "p \<in> set (sy_accepted s)"
    proof -
      from c have "set (sy_accepted s) = set (sy_uncounted s) \<union> set (sy_waiting s) \<union>
          set (map fst (sy_delivered s)) \<union> set (sy_cancelled s)"
        unfolding sys_callers_def by (metis set_mset_mset set_mset_union)
      with that show ?thesis by force
    qed
    moreover from c have "distinct (map pr_result_ch (sy_accepted s))" by (simp add: sys_callers_def)
    ultimately have "q = p" using q(2) by (auto simp: distinct_map inj_on_def)
    with q show ?thesis by (simp add: delivered_ok_def)
  qed
  then have "list_all delivered_ok (sy_delivered s)" by (auto simp: list_all_iff)
  with c show ?thesis by (auto simp: sys_callers_def rejected_ok_def list_all_iff)
qed

text \<open>
  C5. A result received by \<^verbatim>\<open>Submit\<close> is the result of the caller's own request: it carries the
  identifier of that request and has either a response or an error, not both. The same shape
  holds of every result \<^verbatim>\<open>Submit\<close> returns without queueing, which are all failures.
\<close>

theorem agent_delivers_own_result:
  assumes "new_agent (Some d) settings clock entropy = Inr a0" and "reachable a0 s"
  shows "list_all delivered_ok (sy_delivered s) \<and> list_all rejected_ok (sy_rejected s)"
  by (rule reachable_delivered [OF assms(2) new_agent_fresh [OF assms(1)]])

theorem agent_delivers_own_result_witness:
  "\<exists>s r. reachable sample_agent s \<and> sy_delivered s = [(sample_pending, r)] \<and>
     rr_request_id r = item_id sample_pending \<and> result_shape r"
proof -
  obtain s r where s: "reachable sample_agent s" "sy_delivered s = [(sample_pending, r)]"
    using sample_run_delivered by blast
  from agent_delivers_own_result [OF sample_new_agent s(1)] s show ?thesis
    by (auto simp: delivered_ok_def)
qed

subsection \<open>Safety of what is dispatched\<close>

text \<open>
  \<open>dispatch_safe st fl\<close>: the batch in flight passes the validator, fits the size limit, has one
  request per unit, cacheable requests with distinct keys, and every request in it was accepted
  by the admission policy.
\<close>

definition dispatch_safe :: "settings \<Rightarrow> flight \<Rightarrow> bool" where
  "dispatch_safe st fl \<longleftrightarrow>
     validate_request_batch (fl_batch fl) = None \<and>
     int (length (json_text (batch_json (fl_batch fl)))) \<le> as_max_batch_bytes st \<and>
     rb_requests (fl_batch fl) = map (pr_request \<circ> du_primary) (fl_units fl) \<and>
     distinct (map du_cache_key (filter du_cacheable (fl_units fl))) \<and>
     list_all (admitted st) (rb_requests (fl_batch fl))"

lemma reachable_dispatch_safe:
  assumes "reachable a0 s" and "fresh_agent a0" and "sy_flight s = Some fl"
  shows "dispatch_safe (ag_settings a0) fl"
proof -
  note core = reachable_core [OF assms(1,2)] and callers = reachable_callers [OF assms(1,2)]
  from core assms(3) have fl: "flight_ok fl (sy_agent s)" "ag_settings (sy_agent s) = ag_settings a0"
    by (auto simp: sys_core_def)
  from reachable_accounted [OF assms(1,2)] assms(3) obtain ps where
    "mset (sy_accepted s) = mset (ag_queue (sy_agent s)) + mset (sy_pending s) +
       mset (units_items (fl_units fl)) + mset ps" by (auto simp: accounted_def)
  then have "set (units_items (fl_units fl)) \<subseteq> set (sy_accepted s)"
    by (metis Un_upper2 le_supI1 set_mset_mset set_mset_union)
  moreover have "du_primary u \<in> set (units_items us)" if "u \<in> set us" for u us
    using that by (auto simp: units_items_def unit_items_def)
  ultimately have "admitted (ag_settings a0) (pr_request (du_primary u))" if "u \<in> set (fl_units fl)" for u
    using that callers unfolding sys_callers_def by blast
  with fl show ?thesis
    by (auto simp: dispatch_safe_def flight_ok_def validate_batch_lemma dedupe_ok_distinct list_all_iff)
qed

text \<open>
  C3. Whatever batch is in flight in a reachable state is safe: it passes \<^verbatim>\<open>ValidateRequestBatch\<close>,
  does not exceed the byte limit, merges equal cacheable requests, and contains only requests
  that \<^verbatim>\<open>classifyRequest\<close> accepted, so none that names a blocked destination.
\<close>

theorem agent_dispatch_safe:
  assumes "new_agent (Some d) settings clock entropy = Inr a0" and "reachable a0 s"
    and "sy_flight s = Some fl"
  shows "dispatch_safe (ag_settings a0) fl"
  by (rule reachable_dispatch_safe [OF assms(2) new_agent_fresh [OF assms(1)] assms(3)])

theorem agent_dispatch_safe_witness:
  "\<exists>s fl. reachable sample_agent s \<and> sy_flight s = Some fl \<and> rb_requests (fl_batch fl) = [sample_item] \<and>
     dispatch_safe (ag_settings sample_agent) fl"
proof -
  obtain s fl where s: "reachable sample_agent s" "sy_flight s = Some fl"
    "rb_requests (fl_batch fl) = [sample_item]" using sample_run_dispatched by blast
  from agent_dispatch_safe [OF sample_new_agent s(1,2)] s show ?thesis by blast
qed

subsection \<open>Bounds and accounts\<close>

definition stores_bounded :: "agent \<Rightarrow> bool" where
  "stores_bounded a \<longleftrightarrow>
     int (length (ag_queue a)) \<le> as_max_queue_requests (ag_settings a) \<and>
     int (length (ag_cache a)) \<le> as_cache_max_entries (ag_settings a) \<and>
     list_all (\<lambda>(k, e). should_cache_result (en_result e)) (ag_cache a)"

text \<open>
  C14. The queue never holds more than \<^verbatim>\<open>MaxQueueRequests\<close> requests and the cache never more than
  \<^verbatim>\<open>CacheMaxEntries\<close> entries, every one of them a successful response with a 2xx status.
\<close>

theorem agent_stores_bounded:
  assumes "new_agent (Some d) settings clock entropy = Inr a0" and "reachable a0 s"
  shows "stores_bounded (sy_agent s)"
  using reachable_core [OF assms(2) new_agent_fresh [OF assms(1)]]
  by (auto simp: sys_core_def stores_bounded_def cache_shape_def cache_ok_def list_all_iff)

theorem agent_stores_bounded_witness:
  "\<exists>s fl. reachable sample_agent s \<and> sy_flight s = Some fl \<and> stores_bounded (sy_agent s)"
proof -
  obtain s fl where s: "reachable sample_agent s" "sy_flight s = Some fl"
    using sample_run_dispatched by blast
  from agent_stores_bounded [OF sample_new_agent s(1)] s show ?thesis by blast
qed

definition accounts_ok :: "system \<Rightarrow> snapshot \<Rightarrow> bool" where
  "accounts_ok s n \<longleftrightarrow>
     sn_total_completed n + sn_total_failed n = sn_total_local_rejected n + of_nat (length (ag_sends (sy_agent s))) \<and>
     sn_total_submitted n + of_nat (length (sy_uncounted s)) = of_nat (length (sy_accepted s)) \<and>
     sn_pending_in_batch_buffer n = int (length (sy_pending s)) \<and>
     sn_dispatch_in_flight n = (sy_flight s \<noteq> None) \<and>
     sn_queue_depth n = int (length (ag_queue (sy_agent s))) \<and>
     sn_queue_depth n \<le> sn_queue_capacity n"



text \<open>
  C18. The stale-if-error path is dead: in every reachable state the number of results served
  from stale entries is zero, in either reliability mode. A unit is only made for a key that is
  not in the cache, so \<^verbatim>\<open>loadStaleCacheEntry\<close> never finds one.
\<close>

theorem agent_never_serves_stale:
  assumes "new_agent (Some d) settings clock entropy = Inr a0" and "reachable a0 s"
  shows "sn_total_fail_open_served (fst (take_snapshot (sy_agent s))) = 0"
  using reachable_core [OF assms(2) new_agent_fresh [OF assms(1)]]
  by (simp add: take_snapshot_def case_prod_beta Let_def read_clock_def sys_core_def)

theorem agent_never_serves_stale_witness:
  "\<exists>s r. reachable sample_agent s \<and> sy_delivered s = [(sample_pending, r)] \<and> fail_open_enabled sample_agent \<and>
     sn_total_fail_open_served (fst (take_snapshot (sy_agent s))) = 0"
proof -
  obtain s r where s: "reachable sample_agent s" "sy_delivered s = [(sample_pending, r)]"
    using sample_run_delivered by blast
  have "fail_open_enabled sample_agent"
    by (simp add: fail_open_enabled_def sample_fields) (simp add: sample_settings_def sample_base_def reliability_fail_open_def)
  with agent_never_serves_stale [OF sample_new_agent s(1)] s show ?thesis by blast
qed

subsection \<open>Progress\<close>

text \<open>
  Ticks with no arrivals in between, the dispatcher answering the n-th call from the end with
  \<open>process n\<close>: the buffer and the agent after at most \<open>n\<close> ticks.
\<close>

fun drain ::
  "nat \<Rightarrow> (nat \<Rightarrow> request_batch \<Rightarrow> result_package res) \<Rightarrow> pending_request list \<Rightarrow> agent \<Rightarrow>
   pending_request list \<times> agent" where
  "drain 0 process pending a = (pending, a)"
| "drain (Suc n) process pending a =
     (case run_tick pending a of
        (None, pending', b) \<Rightarrow> drain n process pending' b
      | (Some fl, pending', b) \<Rightarrow> drain n process pending' (dispatch_finish fl (process n (fl_batch fl)) b))"

lemma drain_answers:
  assumes "cache_shape a" and "0 < as_max_batch_requests (ag_settings a)" and "length pending \<le> n"
  shows "fst (drain n process pending a) = [] \<and>
    (\<exists>ps. mset ps = mset pending \<and> answers a ps (snd (drain n process pending a)))"
  using assms
proof (induction n arbitrary: pending a)
  case 0
  then show ?case by auto
next
  case (Suc n)
  obtain fo pending' b where tick: "run_tick pending a = (fo, pending', b)" by (metis prod_cases3)
  note t = run_tick_step [OF tick Suc.prems(1)]
  then have k: "keeps a b" "cache_shape b" by (auto simp: run_step_def)
  from t obtain ps where ps: "answers a ps b" "mset pending = mset ps + mset (pending' @ in_flight fo)"
    by (auto simp: run_step_def)
  have len: "length pending' \<le> n"
    using t Suc.prems(2,3) ps(2) by (cases "pending = []") auto
  define c where "c = (case fo of None \<Rightarrow> b | Some fl \<Rightarrow> dispatch_finish fl (process n (fl_batch fl)) b)"
  have c: "keeps b c \<and> cache_shape c \<and> answers b (in_flight fo) c"
  proof (cases fo)
    case None
    then show ?thesis using k by (simp add: c_def)
  next
    case (Some fl)
    with t have "flight_ok fl b" by blast
    from dispatch_finish_spec [OF this k(2)] show ?thesis by (simp add: c_def Some)
  qed
  have "drain (Suc n) process pending a = drain n process pending' c"
    by (simp add: tick c_def split: option.split)
  moreover have "as_max_batch_requests (ag_settings c) = as_max_batch_requests (ag_settings a)"
    using k(1) c by (simp add: keeps_def)
  moreover from Suc.IH [of c pending'] c len Suc.prems(2) calculation(2) obtain qs where
    "fst (drain n process pending' c) = []" "mset qs = mset pending'"
    "answers c qs (snd (drain n process pending' c))" by auto
  ultimately show ?case
    using answers_trans [OF answers_trans [OF ps(1) conjunct2 [OF conjunct2 [OF c]]]] ps(2)
    by (auto intro!: exI [of _ "(ps @ in_flight fo) @ qs"])
qed

text \<open>
  C4. No request starves: when \<^verbatim>\<open>Run\<close> keeps ticking, a buffer of \<open>n\<close> requests is empty after \<open>n\<close>
  ticks, whatever the dispatcher returns at each call and whatever the clock does, and every one
  of the requests has been answered exactly once.
\<close>

theorem agent_drains:
  assumes "new_agent (Some d) settings clock entropy = Inr a0" and "reachable a0 s"
    and "length (sy_pending s) \<le> n"
  shows "fst (drain n process (sy_pending s) (sy_agent s)) = [] \<and>
    (\<exists>ps. mset ps = mset (sy_pending s) \<and>
       answers (sy_agent s) ps (snd (drain n process (sy_pending s) (sy_agent s))))"
proof -
  from reachable_core [OF assms(2) new_agent_fresh [OF assms(1)]] new_agent_fresh [OF assms(1)]
  have "cache_shape (sy_agent s)" "0 < as_max_batch_requests (ag_settings (sy_agent s))"
    by (simp_all add: sys_core_def fresh_agent_def)
  then show ?thesis using assms(3) by (rule drain_answers)
qed

theorem agent_drains_witness:
  "\<exists>s ps. reachable sample_agent s \<and> sy_pending s = [sample_pending] \<and> mset ps = {#sample_pending#} \<and>
     answers (sy_agent s) ps (snd (drain 1 (\<lambda>_ _. Inl (Err ''down'')) (sy_pending s) (sy_agent s)))"
proof -
  obtain s where s: "reachable sample_agent s" "sy_pending s = [sample_pending]"
    using sample_run_buffered by blast
  from agent_drains [OF sample_new_agent s(1), of 1 "\<lambda>_ _. Inl (Err ''down'')"] s show ?thesis by auto
qed

definition queue_extends :: "agent \<Rightarrow> agent \<Rightarrow> bool" where
  "queue_extends a b \<longleftrightarrow> (\<exists>ps. ag_queue b = ag_queue a @ ps)"



subsection \<open>Refinement of a request book\<close>

text \<open>
  The abstract specification: a book of outstanding requests and a log of answers. A step accepts
  one request, answers some outstanding ones, each with a result of its own, or does neither.
\<close>

record request_book =
  bk_outstanding :: "pending_request multiset"
  bk_log :: "(nat \<times> request_result) list"

definition book_step :: "request_book \<Rightarrow> request_book \<Rightarrow> bool" where
  "book_step b c \<longleftrightarrow>
     (\<exists>p. bk_outstanding c = add_mset p (bk_outstanding b) \<and> bk_log c = bk_log b) \<or>
     (\<exists>ps ss. list_all2 answers_request ps ss \<and> bk_outstanding b = mset ps + bk_outstanding c \<and>
        bk_log c = bk_log b @ ss)"

definition book_of :: "system \<Rightarrow> request_book" where
  "book_of s =
     \<lparr> bk_outstanding = mset (ag_queue (sy_agent s)) + mset (sy_pending s) + mset (in_flight (sy_flight s)),
       bk_log = ag_sends (sy_agent s) \<rparr>"

lemma book_stutter: "bk_outstanding c = bk_outstanding b \<Longrightarrow> bk_log c = bk_log b \<Longrightarrow> book_step b c"
  unfolding book_step_def by (intro disjI2 exI [of _ "[]"]) simp

lemma book_run:
  assumes "run_step (sy_agent s) (sy_pending s @ in_flight (sy_flight s)) (sy_agent t) (sy_pending t @ in_flight (sy_flight t))"
  shows "book_step (book_of s) (book_of t)"
proof -
  from assms obtain ps ss where
    "list_all2 answers_request ps ss" "ag_sends (sy_agent t) = ag_sends (sy_agent s) @ ss"
    "mset (sy_pending s @ in_flight (sy_flight s)) = mset ps + mset (sy_pending t @ in_flight (sy_flight t))"
    "ag_queue (sy_agent t) = ag_queue (sy_agent s)"
    by (auto simp: run_step_def answers_def keeps_def)
  then show ?thesis
    unfolding book_step_def by (intro disjI2 exI [of _ ps] exI [of _ ss]) (simp add: book_of_def)
qed

lemma step_refines:
  assumes "sys_step s t" and "sys_core a0 s"
  shows "book_step (book_of s) (book_of t)"
  using assms
proof (induction rule: sys_step.induct)
  case (Reject request s r a)
  then show ?case using submit_begin_quiet [of "sy_agent s" request]
    by (intro book_stutter) (simp_all add: book_of_def quiet_def keeps_def)
next
  case (Check request s item a)
  then show ?case using submit_begin_quiet [of "sy_agent s" request]
    by (intro book_stutter) (simp_all add: book_of_def quiet_def keeps_def)
next
  case (Overflow item s r a)
  then show ?case using submit_enqueue_Some [OF Overflow(2)]
    by (intro book_stutter) (simp_all add: book_of_def quiet_def keeps_def)
next
  case (Enqueue item s a p)
  then show ?case using submit_enqueue_None [OF Enqueue(2)]
    unfolding book_step_def by (intro disjI1 exI [of _ p]) (simp add: book_of_def)
next
  case (Receive s pending a)
  then show ?case
    by (intro book_stutter) (auto simp: book_of_def run_receive_def relay_simps split: list.splits)
next
  case (Tick s fo pending a)
  then have "sy_flight s = None" "cache_shape (sy_agent s)" by (simp_all add: run_idle_def sys_core_def)
  with run_tick_step [OF Tick(2)] show ?case by (intro book_run) simp
next
  case (Complete s fl outcome)
  then have "flight_ok fl (sy_agent s)" "cache_shape (sy_agent s)" by (auto simp: sys_core_def)
  from dispatch_finish_spec [OF this, of outcome] Complete show ?case
    by (intro book_run) (auto simp: run_step_def)
next
  case (Stop s)
  then have "sy_flight s = None" "cache_shape (sy_agent s)" by (simp_all add: run_idle_def sys_core_def)
  with run_stop_step show ?case by (intro book_run) simp
next
  case (Observe s n a)
  then show ?case using quiet_ops(6) [of "sy_agent s"]
    by (intro book_stutter) (simp_all add: book_of_def quiet_def keeps_def)
qed (intro book_stutter; simp add: book_of_def relay_simps)+

text \<open>
  C2. The agent refines the book: under the map that forgets the cache, the clocks, the buffers
  and the callers, every step of the running system is a step of the book.
\<close>

theorem agent_refines_book:
  assumes "new_agent (Some d) settings clock entropy = Inr a0" and "reachable a0 s" and "sys_step s t"
  shows "book_step (book_of s) (book_of t)"
  by (rule step_refines [OF assms(3) reachable_core [OF assms(2) new_agent_fresh [OF assms(1)]]])

theorem agent_refines_book_witness:
  "\<exists>s t. reachable sample_agent s \<and> sy_pending s = [sample_pending] \<and> sy_stopped t \<and>
     book_step (book_of s) (book_of t)"
proof -
  obtain s where s: "reachable sample_agent s" "run_idle s" "sy_pending s = [sample_pending]"
    using sample_run_buffered by blast
  let ?t = "s \<lparr> sy_agent := run_stop (sy_pending s) (sy_agent s), sy_pending := [], sy_stopped := True \<rparr>"
  have "sys_step s ?t" by (rule sys_step.Stop [OF s(2)])
  from agent_refines_book [OF sample_new_agent s(1) this] s show ?thesis
    by (intro exI [of _ s] exI [of _ ?t]) simp
qed

end
