(* ===== verification/Agent_Steps.thy ===== *)
theory Agent_Steps
  imports Agent_Scenario
begin

text \<open>
  The guarantees of single operations of the agent: the cache, the choice of a chunk, the
  merging into units, a whole dispatch, the size and the validity of a batch, the backpressure
  window and \<^verbatim>\<open>New\<close>.
\<close>

subsection \<open>Construction\<close>

definition new_agent_ok :: "settings \<Rightarrow> agent res \<Rightarrow> bool" where
  "new_agent_ok s r =
     (case r of
        Inl e \<Rightarrow> \<not> settings_acceptable s
      | Inr a \<Rightarrow> settings_acceptable s \<and> settings_ok (ag_settings a) \<and> fresh_agent a)"

text \<open>
  C22. \<^verbatim>\<open>New\<close> succeeds exactly on acceptable settings. The agent it returns keeps settings that are
  within bounds (workers between 1 and the limit of 8, a known reliability mode), and is empty.
\<close>

theorem new_agent_spec: "new_agent_ok s (new_agent (Some d) s clock entropy)"
proof (cases "check_settings s")
  case (Inl e)
  then have "\<not> settings_acceptable s" using check_settings_iff [of s] by simp
  with Inl show ?thesis by (simp add: new_agent_ok_def new_agent_def)
next
  case (Inr s')
  then have "settings_acceptable s" "settings_ok s'" using check_settings_iff [of s] check_settings_ok by auto
  moreover obtain a where "new_agent (Some d) s clock entropy = Inr a" "ag_settings a = s'"
    using Inr by (simp add: new_agent_def)
  ultimately show ?thesis using new_agent_fresh by (auto simp: new_agent_ok_def)
qed

subsection \<open>Cache\<close>

text \<open>
  C13. A cache hit is sound: starting from an empty cache, a result that \<^verbatim>\<open>loadCacheEntry\<close> gives
  back under a key was stored under that key, by the last store of the key, and no longer ago
  than the time to live.
\<close>

theorem cache_hit_sound:
  assumes "cache_ok a" and "ag_cache a = []"
    and "fst (load_cache_entry k t (fold (cache_step load_cache_entry store_cache_entry evict_expired_cache) ops a)) = Some r"
  shows "\<exists>before r0 t0 after. ops = before @ Store k r0 t0 # after \<and>
    r = clone_result_for_request r0 (rr_request_id r0) \<and> t \<le> t0 + as_cache_ttl (ag_settings a) \<and>
    (\<forall>r' t'. Store k r' t' \<notin> set after)"
proof -
  have "\<And>l. cache_held a l = None" using assms(2) by (simp add: cache_held_def)
  from agent_cache.hit_sound [OF assms(1) this assms(3)] show ?thesis by (simp add: given_back_def)
qed

lemma sample_cache_ok: "cache_ok sample_agent"
  by (simp add: cache_ok_def sample_fields) (simp add: sample_settings_def sample_base_def)

theorem cache_hit_sound_witness:
  "\<exists>r. fst (load_cache_entry ''k'' 5 (fold (cache_step load_cache_entry store_cache_entry evict_expired_cache)
       [Store ''k'' r 3, Evict 4] sample_agent)) = Some r \<and> (5 :: int) \<le> 3 + as_cache_ttl (ag_settings sample_agent)"
proof -
  define r where "r = error_result ''i'' ''c'' ''m''"
  have c: "clone_result_for_request r (rr_request_id r) = r"
    by (rule trans [OF clone_result_id]) (simp_all add: result_maps_ok_def r_def error_result_def)
  have e: "cache_enabled sample_agent"
    by (simp add: cache_enabled_def sample_fields) (simp add: sample_settings_def sample_base_def)
  have ttl: "as_cache_ttl sample_settings = 60000000000" "as_cache_max_entries sample_settings = 1"
    by (simp_all add: sample_settings_def sample_base_def)
  let ?ops = "[Store ''k'' r 3, Evict 4]"
  have hit: "fst (load_cache_entry ''k'' 5 (fold (cache_step load_cache_entry store_cache_entry evict_expired_cache)
       ?ops sample_agent)) = Some r"
    using e by (simp add: load_cache_entry_def store_cache_entry_def evict_expired_cache_def cache_enabled_def
        set_cache_def sample_fields ttl c Let_def)
  from cache_hit_sound [OF sample_cache_ok sample_fields(2) hit]
  obtain t0 where "Store ''k'' r t0 \<in> set ?ops \<and> 5 \<le> t0 + as_cache_ttl (ag_settings sample_agent) \<or>
      (\<exists>r0 t0. Store ''k'' r0 t0 \<in> set ?ops \<and> 5 \<le> t0 + as_cache_ttl (ag_settings sample_agent))"
    by (metis in_set_conv_decomp)
  then have "5 \<le> 3 + as_cache_ttl (ag_settings sample_agent)" by auto
  with hit show ?thesis by blast
qed

subsection \<open>Chunks and units\<close>

text \<open>
  C7. \<^verbatim>\<open>pickBatchChunk\<close> splits the buffer: the chunk and the rest keep the order of the buffer,
  every request is in the chunk, in the rest, or answered with an error; the chunk is within the
  limits on requests and bytes; and a non-empty buffer gets shorter.
\<close>

theorem pick_batch_chunk_splits:
  assumes "pick_batch_chunk pending a = ((chunk, rest), b)" and "0 < as_max_batch_requests (ag_settings a)"
  shows "(chunk = [] \<or> chunk_fits (ag_settings a) chunk) \<and> subseq chunk pending \<and> subseq rest pending \<and>
    (pending \<noteq> [] \<longrightarrow> length rest < length pending) \<and>
    (\<exists>rejected. answers a rejected b \<and> mset pending = mset chunk + mset rest + mset rejected)"
proof -
  note p = assms(1) [unfolded pick_batch_chunk_def]
  have "pending \<noteq> [] \<Longrightarrow> length rest < length pending" by (rule pick_progress [OF assms(1) _ assms(2)])
  with pick_loop_spec [OF p] pick_loop_fits [OF p] show ?thesis by auto
qed

lemma sample_pick:
  "pick_batch_chunk [sample_pending, sample_pending, sample_pending]
     (sample_agent \<lparr> ag_settings := sample_settings \<lparr> as_max_batch_requests := 1 \<rparr> \<rparr>) =
   (([sample_pending], [sample_pending, sample_pending]),
    sample_agent \<lparr> ag_settings := sample_settings \<lparr> as_max_batch_requests := 1 \<rparr> \<rparr>)"
proof -
  have "batch_size_for_pending ps (s \<lparr> as_max_batch_requests := n \<rparr>) = batch_size_for_pending ps s" for ps s n
    by (simp add: batch_size_for_pending_def make_batch_def)
  moreover obtain n where "batch_size_for_pending [sample_pending] sample_settings = Inr n"
    "n < as_max_batch_bytes sample_settings" using sample_size by blast
  ultimately show ?thesis by (simp add: pick_batch_chunk_def)
qed

theorem pick_batch_chunk_splits_witness:
  "length [sample_pending, sample_pending] < length [sample_pending, sample_pending, sample_pending] \<and>
   chunk_fits (sample_settings \<lparr> as_max_batch_requests := 1 \<rparr>) [sample_pending]"
  using pick_batch_chunk_splits [OF sample_pick] by simp


lemma sample_cache_shape: "cache_shape sample_agent"
  using sample_cache_ok by (simp add: cache_shape_def sample_fields)

lemma load_empty: "ag_cache a = [] \<Longrightarrow> load_cache_entry k t a = (None, a)"
  by (simp add: load_cache_entry_def)

lemma sample_cacheable: "snd (cache_key_for_request sample_item)"
  by code_simp


subsection \<open>Dispatch\<close>

text \<open>
  C6. One dispatch answers every request of the chunk exactly once, whatever package or error the
  dispatcher returns, and leaves the queue, the settings and the counter of stale results alone.
\<close>

theorem dispatch_batch_answers_all:
  assumes "cache_shape a"
  shows "(\<exists>ps. mset ps = mset requests \<and> answers a ps (dispatch_batch process requests a)) \<and>
    keeps a (dispatch_batch process requests a)"
  using dispatch_batch_spec [OF assms] by blast

theorem dispatch_batch_answers_all_witness:
  "\<exists>ps. mset ps = {# sample_pending, sample_pending #} \<and>
     answers sample_agent ps (dispatch_batch (\<lambda>_. Inl (Err ''down'')) [sample_pending, sample_pending] sample_agent)"
  using dispatch_batch_answers_all [OF sample_cache_shape, of "[sample_pending, sample_pending]" "\<lambda>_. Inl (Err ''down'')"]
  by simp

subsection \<open>Backpressure\<close>

definition window :: "agent \<Rightarrow> time \<times> string" where
  "window a = (rt_backpressure_until (ag_runtime a), rt_backpressure_reason (ag_runtime a))"

lemma window_ops [relay_simps]:
  "window (answer p r a) = window a" "window (snd (read_clock a)) = window a"
  "window (record_fail_open_served a) = window a" "window (record_dispatch_error e a) = window a"
  "window (snd (new_id f a)) = window a" "window (evict_expired_cache t a) = window a"
  by (simp_all add: window_def relay_simps) (simp_all add: state_defs Let_def)

lemma window_answer_fold: "window (fold (\<lambda>p. answer p (f p)) ps a) = window a"
  by (induction ps arbitrary: a) (simp_all add: relay_simps)

lemma window_fail_units: "window (fail_units us code m a) = window a"
proof -
  have "window (snd (recover_stale_for_error u code a)) = window a" for u a
    by (simp add: recover_stale_for_error_def case_prod_beta relay_simps split: option.split)
  then have "window (fail_unit code x u a) = window a" for x u a
    by (simp add: fail_unit_def answer_duplicates_def case_prod_beta Let_def window_answer_fold relay_simps)
  then have "window (fold (fail_unit code x) us a) = window a" for x
    by (induction us arbitrary: a) simp_all
  then show ?thesis by (simp add: fail_units_def)
qed

text \<open>
  C17. When the dispatcher reports that a run was delayed, a backpressure window opens: it ends one
  cooldown after the instant read next, with the reason that is later given to callers.
\<close>

theorem run_delayed_opens_window:
  assumes "is_run_delayed_error e"
  shows "window (dispatch_finish fl (Inl e) a) =
    (ag_clock a (Suc (ag_reads a)) + as_backpressure_cooldown (ag_settings a), ''GitHub Actions run start delayed'')"
  using assms
  by (simp add: dispatch_finish_def Let_def window_fail_units)
     (simp add: window_def activate_backpressure_def record_dispatch_error_def read_clock_def update_runtime_def
       run_delayed_reason_def Let_def)

theorem run_delayed_opens_window_witness:
  "\<forall>fl. fst (window (dispatch_finish fl (Inl (Err ''RUN_DELAYED: run did not start'')) sample_agent)) =
     63900000000000000000 + 60000000000"
proof
  fix fl
  have e: "is_run_delayed_error (Err ''RUN_DELAYED: run did not start'')"
    unfolding is_run_delayed_error_def by code_simp
  have "ag_clock sample_agent n = 63900000000000000000" for n
    by (simp add: sample_agent_def sample_clock_def)
  moreover have "as_backpressure_cooldown sample_settings = 60000000000"
    by (simp add: sample_settings_def sample_base_def)
  ultimately show "fst (window (dispatch_finish fl (Inl (Err ''RUN_DELAYED: run did not start'')) sample_agent)) =
     63900000000000000000 + 60000000000"
    using run_delayed_opens_window [OF e, of fl sample_agent] by (simp add: sample_fields)
qed

definition blocked_submit :: "submit_request \<Rightarrow> agent \<Rightarrow> bool" where
  "blocked_submit q a \<longleftrightarrow>
     (\<exists>r e. fst (submit_begin q a) = Inl r \<and> rr_error r = Some e \<and>
        (classify_request (normalize_request q \<lparr> ri_request_id := fst (new_id ''req'' a) \<rparr>)
           (int (length (sr_body q))) (as_max_request_body_bytes (ag_settings a)) \<noteq> None \<or>
         re_code e = ''RUN_DELAYED''))"

text \<open>
  C16. Inside the window nothing reaches the dispatcher: a submission is answered at once with an
  error, \<^verbatim>\<open>RUN_DELAYED\<close> when the request is otherwise admissible, and a tick answers the whole
  buffer instead of starting a batch.
\<close>

theorem backpressure_blocks:
  assumes "fst (window a) \<noteq> 0" and "\<And>n. ag_clock a n < fst (window a)" and "cache_shape a" and "pending \<noteq> []"
  shows "blocked_submit q a \<and> fst (run_tick pending a) = None \<and> fst (snd (run_tick pending a)) = [] \<and>
    (\<exists>ps. mset ps = mset pending \<and> answers a ps (snd (snd (run_tick pending a))))"
proof -
  let ?c = "evict_expired_cache (fst (read_clock a)) (snd (read_clock a))"
  let ?b = "snd (new_id ''req'' a)"
  have act: "fst (backpressure_state t b) = Some (snd (window a))"
    if "window b = window a" "t < fst (window a)" for t b
    using assms(1) that by (simp add: backpressure_state_def window_def Let_def)
  have clock: "ag_clock ?b = ag_clock a"
    by (simp add: new_id_def read_clock_def Let_def split: option.split)
  have t1: "fst (read_clock a) < fst (window a)" "fst (read_clock ?b) < fst (window a)"
    using assms(2) by (simp_all add: read_clock_def clock)
  have w: "window ?c = window a" "window (snd (read_clock ?b)) = window a" by (simp_all add: relay_simps)
  let ?k = "classify_request (normalize_request q \<lparr> ri_request_id := fst (new_id ''req'' a) \<rparr>)
    (int (length (sr_body q))) (as_max_request_body_bytes (ag_settings a))"
  have "blocked_submit q a"
  proof (cases ?k)
    case None
    then show ?thesis
      using act [OF w(2) t1(2)]
      by (simp add: blocked_submit_def submit_begin_def Let_def case_prod_beta relay_simps error_result_def)
  next
    case (Some e)
    then show ?thesis
      by (simp add: blocked_submit_def submit_begin_def Let_def case_prod_beta relay_simps error_result_def)
  qed
  moreover obtain fo pending' b where tick: "run_tick pending a = (fo, pending', b)" by (metis prod_cases3)
  have r: "fo = None" "pending' = []"
    using tick act [OF w(1) t1(1)] assms(4)
    by (simp_all add: run_tick_def Let_def case_prod_beta reject_pending_for_backpressure_def)
  have "\<exists>ps. mset ps = mset pending \<and> answers a ps b"
    using run_tick_step [OF tick assms(3)] r by (auto simp: run_step_def)
  ultimately show ?thesis using tick r by simp
qed

theorem backpressure_blocks_witness:
  "\<exists>a. blocked_submit sample_request a \<and> fst (run_tick [sample_pending] a) = None \<and>
     fst (snd (run_tick [sample_pending] a)) = []"
proof -
  define a where "a = sample_agent \<lparr> ag_runtime := (ag_runtime sample_agent)
    \<lparr> rt_backpressure_until := 63900000060000000000, rt_backpressure_reason := ''delayed'' \<rparr> \<rparr>"
  have w: "fst (window a) = 63900000060000000000" by (simp add: a_def window_def)
  have c: "ag_clock a n < fst (window a)" for n by (simp add: w) (simp add: a_def sample_agent_def sample_clock_def)
  have "cache_shape a" by (rule cache_shape_cong [OF sample_cache_shape]) (simp_all add: a_def)
  from backpressure_blocks [OF _ c this, of "[sample_pending]" sample_request] w show ?thesis by auto
qed

subsection \<open>Size and validity of a batch\<close>

text \<open>
  C20. The batch that is sent is exactly one byte longer than the batch \<^verbatim>\<open>pickBatchChunk\<close> measures:
  the placeholder identifier has 29 bytes, an identifier of \<^verbatim>\<open>newID\<close> 30.
\<close>

theorem batch_size_gap:
  assumes "length buf = 12" and "0 \<le> t" and "t < max_time"
  shows "batch_size_bytes (make_batch (''batch-'' @ hex_encode buf) (format_rfc3339 t) s (map pr_request ps)) =
    map_sum id (\<lambda>n. n + 1) (batch_size_for_pending ps s)"
  using batch_size_gap_lemma [OF assms] by simp

theorem batch_size_gap_witness:
  "batch_size_bytes (make_batch (''batch-'' @ hex_encode (replicate 12 (CHR ''a''))) (format_rfc3339 0)
     sample_settings (map pr_request [sample_pending])) =
   map_sum id (\<lambda>n. n + 1) (batch_size_for_pending [sample_pending] sample_settings)"
  by (rule batch_size_gap) (simp_all add: max_time_def day_ns_def)

text \<open>
  So a chunk that was measured at exactly the byte limit is not dispatched: every request in it
  is failed, although it passed \<^verbatim>\<open>pickBatchChunk\<close>.
\<close>

lemma full_chunk_not_dispatched:
  assumes "prepare_dispatch_units requests a = (us, c)" and "map du_primary us = requests"
    and "batch_size_for_pending requests (ag_settings c) = Inr (as_max_batch_bytes (ag_settings c))"
    and "world_ok c"
  shows "fst (dispatch_begin requests a) = None"
proof (cases "us = []")
  case True
  with assms(1) show ?thesis by (simp add: dispatch_begin_def)
next
  case False
  let ?d = "snd (new_id ''batch'' c)"
  have t: "0 \<le> fst (read_clock ?d)" "fst (read_clock ?d) < max_time"
    using assms(4) by (auto simp: world_ok_def read_clock_def new_id_def Let_def split: option.splits)
  obtain buf where buf: "length buf = 12" "fst (new_id ''batch'' c) = ''batch'' @ ''-'' @ hex_encode buf"
    using new_id_shape [of c "''batch''"] assms(4) by (auto simp: world_ok_def)
  have "map (pr_request \<circ> du_primary) us = map pr_request requests"
    using assms(2) by (metis map_map)
  with False batch_size_gap_lemma [OF buf(1) t, of "ag_settings c" requests] assms(1,3) buf(2) show ?thesis
    by (simp add: dispatch_begin_def case_prod_beta Let_def relay_simps split: option.split)
qed

text \<open>
  C21. A batch built from accepted requests always passes \<^verbatim>\<open>ValidateRequestBatch\<close>, when the interval
  and the timeout are at least a millisecond and the identifiers differ.
\<close>

theorem accepted_batch_validates:
  assumes "settings_live s" and "0 \<le> t" and "t < max_time" and "qs \<noteq> []"
    and "distinct (map snd qs)" and "list_all (\<lambda>(q, i). \<not> blank i \<and> classify_request (normalize_request q) n mx = None) qs"
  shows "validate_request_batch (make_batch (fst (new_id ''batch'' a)) (format_rfc3339 t) s
    (map (\<lambda>(q, i). normalize_request q \<lparr> ri_request_id := i \<rparr>) qs)) = None"
proof -
  let ?rs = "map (\<lambda>(q, i). normalize_request q \<lparr> ri_request_id := i \<rparr>) qs"
  have ids: "map ri_request_id ?rs = map snd qs" by (simp add: case_prod_beta)
  have "distinct (map ri_request_id ?rs)" unfolding ids by (rule assms(5))
  moreover have "\<forall>r \<in> set ?rs. item_wf r"
    using assms(6) accepted_item_wf by (fastforce simp: list_all_iff)
  moreover have "?rs \<noteq> []" using assms(4) by simp
  ultimately show ?thesis
    unfolding validate_batch_lemma by (intro make_batch_wf [OF assms(1) new_id_not_blank assms(2,3)])
qed

theorem accepted_batch_validates_witness:
  "validate_request_batch (make_batch (fst (new_id ''batch'' sample_agent)) (format_rfc3339 0) sample_settings
     (map (\<lambda>(q, i). normalize_request q \<lparr> ri_request_id := i \<rparr>) [(sample_request, ''r1''), (sample_request, ''r2'')])) = None"
proof -
  have c: "classify_request (normalize_request sample_request) 0 1024 = None" by code_simp
  have b: "\<not> blank ''r1''" "\<not> blank ''r2''" by code_simp+
  have "settings_live sample_settings"
    by (simp add: settings_live_def sample_settings_def sample_base_def millisecond_def)
  then show ?thesis
    by (rule accepted_batch_validates [where n = 0 and mx = 1024]) (simp_all add: max_time_def day_ns_def b c)
qed

end
