(* ===== verification/Go_Json.thy ===== *)
theory Go_Json
  imports Go_Encoding Go_Net
begin

text \<open>
  The reading half of \<^verbatim>\<open>encoding/json\<close> and its indented printer.

  \<open>json_prefix\<close> reads the first value of a text, as \<^verbatim>\<open>Decoder.Decode\<close> does, and \<open>json_read\<close>
  demands that nothing but white space follows, as \<^verbatim>\<open>json.Unmarshal\<close> does. Both refuse nesting
  deeper than 10000. The recursion is on a fuel argument that starts at the length of the text
  plus one; \<open>value_fuel\<close> shows that more fuel never changes the outcome. \<open>json_layout\<close> covers the
  compact and the indented printer, and \<open>json_read_layout\<close> is the round trip: what is read back is
  the value printed, with invalid UTF-8 in its strings replaced.

  \<open>set_fields\<close> is the decoding of an object into a struct: each member is matched to a field by
  its exact name, else by its case-folded name, unknown members are skipped (or refused, for
  \<^verbatim>\<open>DisallowUnknownFields\<close>), later members overwrite earlier ones.
\<close>

subsection \<open>Strings\<close>

definition is_ws :: "char \<Rightarrow> bool" where
  "is_ws c = (c \<in> {CHR '' '', CHR 0x09, CHR 0x0A, CHR 0x0D})"

definition skip_ws :: "string \<Rightarrow> string" where
  "skip_ws s = dropWhile is_ws s"

definition replacement :: string where
  "replacement = [CHR 0xEF, CHR 0xBF, CHR 0xBD]"

text \<open>\<^verbatim>\<open>utf8.AppendRune\<close> for a code point.\<close>

definition utf8_encode :: "nat \<Rightarrow> string" where
  "utf8_encode n =
     (if n < 0x80 then [char_of n]
      else if n < 0x800 then [char_of (0xC0 + n div 64), char_of (0x80 + n mod 64)]
      else if n < 0x10000 then
        [char_of (0xE0 + n div 4096), char_of (0x80 + n div 64 mod 64), char_of (0x80 + n mod 64)]
      else
        [char_of (0xF0 + n div 262144), char_of (0x80 + n div 4096 mod 64),
         char_of (0x80 + n div 64 mod 64), char_of (0x80 + n mod 64)])"

text \<open>The four digits of a \<^verbatim>\<open>\u\<close> escape.\<close>

definition read_hex4 :: "string \<Rightarrow> (nat \<times> string) option" where
  "read_hex4 s =
     (if 4 \<le> length s \<and> list_all is_hex (take 4 s)
      then Some (foldl (\<lambda>n c. 16 * n + hex_val c) 0 (take 4 s), drop 4 s) else None)"

text \<open>A \<^verbatim>\<open>\u\<close> escape after its \<^verbatim>\<open>u\<close>, joined with the one that follows when the two are a surrogate pair.\<close>

definition read_u :: "string \<Rightarrow> (string \<times> string) option" where
  "read_u s =
     (case read_hex4 s of
        None \<Rightarrow> None
      | Some (n, r) \<Rightarrow>
          if n < 0xD800 \<or> 0xDFFF < n then Some (utf8_encode n, r)
          else
            (case (if has_prefix r [backslash, CHR ''u''] then read_hex4 (drop 2 r) else None) of
               Some (m, r') \<Rightarrow>
                 if n < 0xDC00 \<and> 0xDC00 \<le> m \<and> m \<le> 0xDFFF
                 then Some (utf8_encode ((n - 0xD800) * 1024 + (m - 0xDC00) + 0x10000), r')
                 else Some (replacement, r)
             | None \<Rightarrow> Some (replacement, r)))"

text \<open>An escape after its backslash.\<close>

definition read_esc :: "string \<Rightarrow> (string \<times> string) option" where
  "read_esc s =
     (case s of
        [] \<Rightarrow> None
      | c # t \<Rightarrow>
          if c = CHR 0x22 \<or> c = backslash \<or> c = CHR ''/'' then Some ([c], t)
          else if c = CHR ''b'' then Some ([CHR 0x08], t)
          else if c = CHR ''f'' then Some ([CHR 0x0C], t)
          else if c = CHR ''n'' then Some ([CHR 0x0A], t)
          else if c = CHR ''r'' then Some ([CHR 0x0D], t)
          else if c = CHR ''t'' then Some ([CHR 0x09], t)
          else if c = CHR ''u'' then read_u t
          else None)"

lemma read_hex4_shorter: "read_hex4 s = Some (n, r) \<Longrightarrow> length r < length s"
  by (auto simp: read_hex4_def split: if_splits)

lemma read_u_shorter: "read_u s = Some (b, r) \<Longrightarrow> length r < length s"
  by (auto simp: read_u_def split: option.splits if_splits dest!: read_hex4_shorter)

lemma read_esc_shorter: "read_esc s = Some (b, r) \<Longrightarrow> length r < length s"
  by (auto simp: read_esc_def split: list.splits if_splits dest: read_u_shorter)

text \<open>The body of a string up to its closing quote.\<close>

function read_str :: "string \<Rightarrow> (string \<times> string) option" where
  "read_str s =
     (if s = [] then None
      else if hd s = CHR 0x22 then Some ([], tl s)
      else if hd s = backslash then
        (case read_esc (tl s) of
           None \<Rightarrow> None
         | Some (b, r) \<Rightarrow> map_option (apfst ((@) b)) (read_str r))
      else if hd s < CHR '' '' then None
      else if rune_width s = 0 then map_option (apfst ((@) replacement)) (read_str (tl s))
      else map_option (apfst ((@) (take (rune_width s) s))) (read_str (drop (rune_width s) s)))"
  by pat_completeness auto
termination
  by (relation "measure length") (auto dest: read_esc_shorter simp: neq_Nil_conv less_Suc_eq)

declare read_str.simps [simp del]

text \<open>Invalid UTF-8 replaced, byte by byte: what a string is after one trip through JSON.\<close>

function utf8_fix :: "string \<Rightarrow> string" where
  "utf8_fix s =
     (if s = [] then []
      else if rune_width s = 0 then replacement @ utf8_fix (tl s)
      else take (rune_width s) s @ utf8_fix (drop (rune_width s) s))"
  by pat_completeness auto
termination
  by (relation "measure length") auto

declare utf8_fix.simps [simp del]

lemma rune_width_length: "rune_width s \<le> length s"
  by (auto simp: rune_width_def split: list.splits)

lemma rune_width_2:
  "rune_width s = 2 \<longleftrightarrow> (\<exists>a b t. s = a # b # t \<and> CHR 0xC2 \<le> a \<and> a \<le> CHR 0xDF \<and> cont_byte b)"
  by (auto simp: rune_width_def less_char_def less_eq_char_def split: list.splits if_splits)

lemma rune_width_3:
  "rune_width s = 3 \<longleftrightarrow> (\<exists>a b c t. s = a # b # c # t \<and> CHR 0xE0 \<le> a \<and> a \<le> CHR 0xEF \<and>
     cont_byte b \<and> cont_byte c \<and> (a = CHR 0xE0 \<longrightarrow> CHR 0xA0 \<le> b) \<and> (a = CHR 0xED \<longrightarrow> b \<le> CHR 0x9F))"
  by (auto simp: rune_width_def less_char_def less_eq_char_def split: list.splits if_splits)

lemma rune_width_4:
  "rune_width s = 4 \<longleftrightarrow> (\<exists>a b c d t. s = a # b # c # d # t \<and> CHR 0xF0 \<le> a \<and> a \<le> CHR 0xF4 \<and>
     cont_byte b \<and> cont_byte c \<and> cont_byte d \<and> (a = CHR 0xF0 \<longrightarrow> CHR 0x90 \<le> b) \<and>
     (a = CHR 0xF4 \<longrightarrow> b \<le> CHR 0x8F))"
  by (auto simp: rune_width_def less_char_def less_eq_char_def split: list.splits if_splits)

lemma rune_width_le_4: "rune_width s \<le> 4"
  by (auto simp: rune_width_def split: list.splits)

lemma rune_width_ascii: "rune_width s = 1 \<longleftrightarrow> s \<noteq> [] \<and> hd s < CHR 0x80"
  by (auto simp: rune_width_def split: list.splits if_splits)

lemma rune_width_take: "0 < rune_width s \<Longrightarrow> rune_width (take (rune_width s) s @ r) = rune_width s"
proof -
  assume "0 < rune_width s"
  then consider "rune_width s = 1" | "rune_width s = 2" | "rune_width s = 3" | "rune_width s = 4"
    using rune_width_le_4 [of s] by linarith
  then show ?thesis
  proof cases
    case 1
    with rune_width_ascii [of s] obtain a t where "s = a # t" "a < CHR 0x80" by (cases s) auto
    then show ?thesis using 1 rune_width_ascii [of "take 1 s @ r"] by simp
  next
    case 2
    then obtain a b t where "s = a # b # t" by (auto simp: rune_width_2)
    with 2 show ?thesis using rune_width_2 [of s] rune_width_2 [of "take 2 s @ r"] by auto
  next
    case 3
    then obtain a b c t where "s = a # b # c # t" by (auto simp: rune_width_3)
    with 3 show ?thesis using rune_width_3 [of s] rune_width_3 [of "take 3 s @ r"] by auto
  next
    case 4
    then obtain a b c d t where "s = a # b # c # d # t" by (auto simp: rune_width_4)
    with 4 show ?thesis using rune_width_4 [of s] rune_width_4 [of "take 4 s @ r"] by auto
  qed
qed

lemma rune_width_wide: "2 \<le> rune_width s \<Longrightarrow> s \<noteq> [] \<and> CHR 0x80 \<le> hd s"
  by (auto simp: rune_width_def split: list.splits if_splits)

lemma hex_digit_back:
  "d < 16 \<Longrightarrow> is_hex (hex_digit d) \<and> hex_val (hex_digit d) = d"
proof -
  have "list_all (\<lambda>d. is_hex (hex_digit d) \<and> hex_val (hex_digit d) = d) [0..<16]" by code_simp
  then show "d < 16 \<Longrightarrow> ?thesis" by (simp add: list_all_iff)
qed

lemma read_hex4_cons:
  "read_hex4 (a # b # c # d # r) =
     (if is_hex a \<and> is_hex b \<and> is_hex c \<and> is_hex d
      then Some (4096 * hex_val a + 256 * hex_val b + 16 * hex_val c + hex_val d, r) else None)"
  by (simp add: read_hex4_def)

lemma read_hex4_u00:
  "read_hex4 (CHR ''0'' # CHR ''0'' # hex_digit (of_char c div 16) # hex_digit (of_char c mod 16) # r) =
     Some (of_char c, r)"
proof -
  have "of_char c div 16 < (16 :: nat)" by (simp add: less_mult_imp_div_less)
  moreover have "of_char c mod 16 < (16 :: nat)" by simp
  moreover have "is_hex CHR ''0''" "hex_val CHR ''0'' = 0" by code_simp+
  moreover have "16 * (of_char c div 16) + of_char c mod 16 = (of_char c :: nat)" by simp
  ultimately show ?thesis by (simp add: read_hex4_cons hex_digit_back)
qed

lemma utf8_encode_ascii: "c < CHR 0x80 \<Longrightarrow> utf8_encode (of_char c) = [c]"
  by (simp add: utf8_encode_def less_char_def)

lemma read_esc_u00:
  "c < CHR 0x80 \<Longrightarrow> read_esc (tl (u00 c) @ r) = Some ([c], r)"
  by (simp add: read_esc_def u00_def backslash_def read_u_def read_hex4_u00 utf8_encode_ascii less_char_def)

lemma read_str_esc:
  "read_esc (e @ t) = Some (b, t) \<Longrightarrow>
     read_str (backslash # e @ t) = map_option (apfst ((@) b)) (read_str t)"
  by (subst read_str.simps) (simp add: backslash_def)

lemma read_str_json_byte:
  "c < CHR 0x80 \<Longrightarrow> read_str (json_byte c @ t) = map_option (apfst ((@) [c])) (read_str t)"
proof -
  assume c: "c < CHR 0x80"
  show ?thesis
  proof (cases "json_byte c = [c]")
    case True
    with c have p: "c \<noteq> CHR 0x22" "c \<noteq> backslash" "\<not> c < CHR '' ''"
      by (auto simp: json_byte_def u00_def backslash_def split: if_splits)
    have "rune_width (c # t) = 1" by (subst rune_width_ascii) (simp add: c)
    with p True show ?thesis by (subst read_str.simps) simp
  next
    case False
    then obtain e where e: "json_byte c = backslash # e" and "read_esc (e @ t) = Some ([c], t)"
      using read_esc_u00 [OF c, of t]
      by (auto simp: json_byte_def read_esc_def u00_def backslash_def split: if_splits)
    then show ?thesis using read_str_esc [of e t "[c]"] by simp
  qed
qed

lemma utf8_encode_escaped:
  "utf8_encode 65533 = replacement"
  "utf8_encode 8232 = [CHR 0xE2, CHR 0x80, CHR 0xA8]"
  "utf8_encode 8233 = [CHR 0xE2, CHR 0x80, CHR 0xA9]"
  by (simp_all add: utf8_encode_def replacement_def char_of_eq_iff)

lemma hex_letters:
  "is_hex CHR ''f''" "is_hex CHR ''d''" "is_hex CHR ''2''" "is_hex CHR ''0''" "is_hex CHR ''8''" "is_hex CHR ''9''"
  "hex_val CHR ''f'' = 15" "hex_val CHR ''d'' = 13" "hex_val CHR ''2'' = 2" "hex_val CHR ''0'' = 0"
  "hex_val CHR ''8'' = 8" "hex_val CHR ''9'' = 9"
  by code_simp+

lemma read_esc_unicode:
  "read_esc (''ufffd'' @ t) = Some (replacement, t)"
  "read_esc (''u2028'' @ t) = Some ([CHR 0xE2, CHR 0x80, CHR 0xA8], t)"
  "read_esc (''u2029'' @ t) = Some ([CHR 0xE2, CHR 0x80, CHR 0xA9], t)"
  by (simp_all add: read_esc_def read_u_def read_hex4_cons backslash_def hex_letters utf8_encode_escaped)

lemmas read_str_unicode = read_esc_unicode [THEN read_str_esc]

lemma read_str_wide:
  "2 \<le> rune_width s \<Longrightarrow>
     read_str (take (rune_width s) s @ t) = map_option (apfst ((@) (take (rune_width s) s))) (read_str t)"
proof -
  assume w: "2 \<le> rune_width s"
  then have l: "length (take (rune_width s) s) = rune_width s" using rune_width_length [of s] by simp
  from w rune_width_wide [OF w] have h: "take (rune_width s) s @ t \<noteq> []"
    "hd (take (rune_width s) s @ t) = hd s" "CHR 0x80 \<le> hd s" by (auto simp: neq_Nil_conv take_Cons')
  then have n: "hd s \<noteq> CHR 0x22" "hd s \<noteq> backslash" "\<not> hd s < CHR '' ''"
    by (auto simp: backslash_def less_char_def less_eq_char_def)
  from w have r: "rune_width (take (rune_width s) s @ t) = rune_width s" by (intro rune_width_take) simp
  show ?thesis
    by (subst read_str.simps, simp only: r h n if_False) (use w l in simp)
qed

text \<open>The text the printer puts for a rune of two or more bytes.\<close>

definition wide_text :: "string \<Rightarrow> string" where
  "wide_text s =
     (if has_prefix s [CHR 0xE2, CHR 0x80, CHR 0xA8] then backslash # ''u2028''
      else if has_prefix s [CHR 0xE2, CHR 0x80, CHR 0xA9] then backslash # ''u2029''
      else take (rune_width s) s)"

lemma read_str_wide_text:
  assumes "2 \<le> rune_width s"
  shows "read_str (wide_text s @ t) = map_option (apfst ((@) (take (rune_width s) s))) (read_str t)"
proof -
  have "has_prefix s [CHR 0xE2, CHR 0x80, x] \<Longrightarrow> take (rune_width s) s = [CHR 0xE2, CHR 0x80, x]" for x
    using assms by (auto simp: has_prefix_iff rune_width_def split: if_splits)
  then show ?thesis
    using read_str_unicode [of t] read_str_wide [OF assms, of t] by (auto simp: wide_text_def)
qed

lemma read_str_escape: "read_str (json_escape s @ CHR 0x22 # r) = Some (utf8_fix s, r)"
proof (induction s rule: json_escape.induct)
  case (1 s)
  show ?case
  proof (cases "s = []")
    case True
    then show ?thesis by (simp add: read_str.simps utf8_fix.simps)
  next
    case False
    consider "rune_width s = 0" | "rune_width s = 1" | "2 \<le> rune_width s" by linarith
    then show ?thesis
    proof cases
      case 1
      with False "1.IH"(1) have "read_str (json_escape (tl s) @ CHR 0x22 # r) = Some (utf8_fix (tl s), r)"
        by simp
      with False 1 read_str_unicode(1) [of "json_escape (tl s) @ CHR 0x22 # r"] show ?thesis
        by (subst json_escape.simps, subst utf8_fix.simps) simp
    next
      case 2
      with rune_width_ascii [of s] have "hd s < CHR 0x80" by simp
      moreover have "take (Suc 0) s = [hd s]" "drop (Suc 0) s = tl s" using False by (cases s; simp)+
      moreover have "read_str (json_escape (tl s) @ CHR 0x22 # r) = Some (utf8_fix (tl s), r)"
        using False 2 "1.IH"(1) by simp
      ultimately show ?thesis using False 2
        by (subst json_escape.simps, subst utf8_fix.simps) (simp add: read_str_json_byte)
    next
      case 3
      with False "1.IH"(2) have ih: "read_str (json_escape (drop (rune_width s) s) @ CHR 0x22 # r) =
        Some (utf8_fix (drop (rune_width s) s), r)" by simp
      have "json_escape s = wide_text s @ json_escape (drop (rune_width s) s)"
        using 3 False by (subst json_escape.simps) (simp add: wide_text_def)
      moreover have "utf8_fix s = take (rune_width s) s @ utf8_fix (drop (rune_width s) s)"
        using 3 False by (subst utf8_fix.simps) simp
      ultimately show ?thesis
        using ih read_str_wide_text [OF 3, of "json_escape (drop (rune_width s) s) @ CHR 0x22 # r"] by simp
    qed
  qed
qed

subsection \<open>Numbers\<close>

text \<open>The integer part, the fraction and the exponent of a number literal.\<close>

definition scan_int :: "string \<Rightarrow> (string \<times> string) option" where
  "scan_int s =
     (let sg = (if has_prefix s ''-'' then ''-'' else []); r = drop (length sg) s in
      case r of
        [] \<Rightarrow> None
      | c # t \<Rightarrow>
          if c = CHR ''0'' then Some (sg @ [c], t)
          else if is_digit c then Some (sg @ takeWhile is_digit r, dropWhile is_digit r)
          else None)"

definition scan_digits :: "string \<Rightarrow> string \<Rightarrow> (string \<times> string) option" where
  "scan_digits lead s =
     (if takeWhile is_digit s = [] then None
      else Some (lead @ takeWhile is_digit s, dropWhile is_digit s))"

definition scan_frac :: "string \<Rightarrow> (string \<times> string) option" where
  "scan_frac s = (if has_prefix s ''.'' then scan_digits ''.'' (tl s) else Some ([], s))"

definition scan_exp :: "string \<Rightarrow> (string \<times> string) option" where
  "scan_exp s =
     (if s \<noteq> [] \<and> hd s \<in> {CHR ''e'', CHR ''E''} then
        (if tl s \<noteq> [] \<and> hd (tl s) \<in> {CHR ''+'', CHR ''-''}
         then scan_digits (take 2 s) (drop 2 s) else scan_digits (take 1 s) (tl s))
      else Some ([], s))"

definition read_number :: "string \<Rightarrow> (json \<times> string) option" where
  "read_number s =
     (case scan_int s of
        None \<Rightarrow> None
      | Some (i, r1) \<Rightarrow>
          (case scan_frac r1 of
             None \<Rightarrow> None
           | Some (fr, r2) \<Rightarrow>
               (case scan_exp r2 of
                  None \<Rightarrow> None
                | Some (ex, r3) \<Rightarrow>
                    Some (if fr = [] \<and> ex = []
                          then JNum (if has_prefix i ''-'' then - int (digits_val (tl i)) else int (digits_val i))
                          else JFrac (i @ fr @ ex), r3))))"

subsection \<open>Values\<close>

fun read_value :: "nat \<Rightarrow> nat \<Rightarrow> string \<Rightarrow> (json \<times> string) option"
and read_elems :: "nat \<Rightarrow> nat \<Rightarrow> string \<Rightarrow> (json list \<times> string) option"
and read_members :: "nat \<Rightarrow> nat \<Rightarrow> string \<Rightarrow> ((string \<times> json) list \<times> string) option" where
  "read_value 0 d s = None"
| "read_value (Suc f) d s =
     (case skip_ws s of
        [] \<Rightarrow> None
      | c # t \<Rightarrow>
          if c = CHR 0x22 then map_option (apfst JStr) (read_str t)
          else if c = CHR ''['' then
            (if d = 0 then None
             else if has_prefix (skip_ws t) '']'' then Some (JArr [], tl (skip_ws t))
             else map_option (apfst JArr) (read_elems f (d - 1) t))
          else if c = CHR ''{'' then
            (if d = 0 then None
             else if has_prefix (skip_ws t) ''}'' then Some (JObj [], tl (skip_ws t))
             else map_option (apfst JObj) (read_members f (d - 1) t))
          else if has_prefix (c # t) ''null'' then Some (JNull, drop 4 (c # t))
          else if has_prefix (c # t) ''true'' then Some (JBool True, drop 4 (c # t))
          else if has_prefix (c # t) ''false'' then Some (JBool False, drop 5 (c # t))
          else read_number (c # t))"
| "read_elems 0 d s = None"
| "read_elems (Suc f) d s =
     (case read_value f d s of
        None \<Rightarrow> None
      | Some (v, r) \<Rightarrow>
          (case skip_ws r of
             [] \<Rightarrow> None
           | c # t \<Rightarrow>
               if c = CHR '']'' then Some ([v], t)
               else if c = CHR '','' then map_option (apfst ((#) v)) (read_elems f d t)
               else None))"
| "read_members 0 d s = None"
| "read_members (Suc f) d s =
     (if \<not> has_prefix (skip_ws s) [CHR 0x22] then None
      else (case read_str (tl (skip_ws s)) of
          None \<Rightarrow> None
        | Some (k, r) \<Rightarrow>
            if \<not> has_prefix (skip_ws r) '':'' then None
            else (case read_value f d (tl (skip_ws r)) of
                None \<Rightarrow> None
              | Some (v, r) \<Rightarrow>
                  (case skip_ws r of
                     [] \<Rightarrow> None
                   | c # t \<Rightarrow>
                       if c = CHR ''}'' then Some ([(k, v)], t)
                       else if c = CHR '','' then map_option (apfst ((#) (k, v))) (read_members f d t)
                       else None))))"

definition json_max_depth :: nat where "json_max_depth = 10000"

text \<open>\<^verbatim>\<open>Decoder.Decode\<close> reads the first value of its input; \<^verbatim>\<open>Unmarshal\<close> demands that it is the only one.\<close>

definition json_prefix :: "string \<Rightarrow> (json \<times> string) option" where
  "json_prefix s = read_value (2 * length s + 1) json_max_depth s"

definition json_decode :: "string \<Rightarrow> json option" where
  "json_decode s = map_option fst (json_prefix s)"

definition json_read :: "string \<Rightarrow> json option" where
  "json_read s =
     (case json_prefix s of
        None \<Rightarrow> None | Some (v, r) \<Rightarrow> if skip_ws r = [] then Some v else None)"

subsection \<open>Reading consumes, and fuel never runs out\<close>

lemma skip_ws_length: "length (skip_ws s) \<le> length s"
  by (simp add: skip_ws_def length_dropWhile_le)

lemma read_str_shorter: "read_str s = Some (x, r) \<Longrightarrow> length r < length s"
proof (induction s arbitrary: x r rule: read_str.induct)
  case (1 s)
  have step: "read_str u = Some (y, q) \<Longrightarrow> length q < length u \<Longrightarrow> length u < length s \<Longrightarrow>
      length q < length s" for u y q by simp
  show ?case
  proof (cases "s = []")
    case True
    with 1 show ?thesis by (simp add: read_str.simps)
  next
    case False
    note ne = this
    show ?thesis
    proof (cases "hd s = CHR 0x22")
      case True
      with ne "1.prems" show ?thesis by (subst (asm) read_str.simps) (cases s; auto)
    next
      case False
      note nq = this
      show ?thesis
      proof (cases "hd s = backslash")
        case True
        with ne nq "1.prems" obtain b u y where u: "read_esc (tl s) = Some (b, u)" "read_str u = Some (y, r)"
          by (subst (asm) read_str.simps) (auto split: option.splits)
        with "1.IH"(1) [OF ne nq True u(1)] read_esc_shorter [OF u(1)] show ?thesis by fastforce
      next
        case False
        note nb = this
        with ne nq "1.prems" have c: "\<not> hd s < CHR '' ''" by (subst (asm) read_str.simps) (auto split: if_splits)
        show ?thesis
        proof (cases "rune_width s = 0")
          case True
          with ne nq nb c "1.prems" obtain y where "read_str (tl s) = Some (y, r)"
            by (subst (asm) read_str.simps) auto
          with "1.IH"(2) [OF ne nq nb c True] have "length r < length (tl s)" by simp
          then show ?thesis by simp
        next
          case False
          with ne nq nb c "1.prems" obtain y where "read_str (drop (rune_width s) s) = Some (y, r)"
            by (subst (asm) read_str.simps) auto
          with "1.IH"(3) [OF ne nq nb c False] have "length r < length (drop (rune_width s) s)" by simp
          then show ?thesis by simp
        qed
      qed
    qed
  qed
qed

lemma scan_shorter:
  "scan_digits l s = Some (x, r) \<Longrightarrow> length r \<le> length s"
  "scan_frac s = Some (x, r) \<Longrightarrow> length r \<le> length s"
  "scan_exp s = Some (x, r) \<Longrightarrow> length r \<le> length s"
  by (auto simp: scan_digits_def scan_frac_def scan_exp_def split: if_splits
      intro: le_trans [OF length_dropWhile_le])

lemma scan_int_shorter: "scan_int s = Some (x, r) \<Longrightarrow> length r < length s"
proof -
  assume sc: "scan_int s = Some (x, r)"
  define q where "q = (if has_prefix s ''-'' then drop 1 s else s)"
  have l: "length q \<le> length s" by (simp add: q_def)
  from sc obtain c t where "q = c # t" "r = t \<or> (is_digit c \<and> r = dropWhile is_digit q)"
    by (auto simp: scan_int_def q_def Let_def split: if_splits list.splits)
  then have "length r < length q" using length_dropWhile_le [of is_digit t] by auto
  with l show ?thesis by simp
qed

lemma read_number_shorter: "read_number s = Some (v, r) \<Longrightarrow> length r < length s"
  by (auto simp: read_number_def split: option.splits dest!: scan_int_shorter scan_shorter(2,3))

lemma read_shorter:
  "read_value f d s = Some (v, r) \<Longrightarrow> length r < length s"
  "read_elems f d s = Some (vs, r) \<Longrightarrow> length r < length s"
  "read_members f d s = Some (ms, r) \<Longrightarrow> length r < length s"
proof (induction f d s and f d s and f d s arbitrary: v r and vs r and ms r
    rule: read_value_read_elems_read_members.induct)
  case (2 f d s)
  obtain c t where ct: "skip_ws s = c # t" using "2.prems" by (auto split: list.splits)
  then have l: "length t < length s" using skip_ws_length [of s] by simp
  have k: "length (tl (skip_ws t)) < length s" using l skip_ws_length [of t] by simp
  from "2.prems" ct l k show ?case
    using "2.IH" [OF ct] read_str_shorter [of t] read_number_shorter [of "c # t" v r]
    by (fastforce split: if_splits simp: has_prefix_iff)
next
  case (4 f d s)
  from "4.prems" obtain v r' c t where v: "read_value f d s = Some (v, r')" and ct: "skip_ws r' = c # t"
    by (auto split: option.splits list.splits)
  from "4.IH"(1) [OF v] ct have l: "length t < length s" using skip_ws_length [of r'] by simp
  with "4.prems" v ct "4.IH"(2) [OF v refl ct] show ?case by (fastforce split: if_splits)
next
  case (6 f d s)
  from "6.prems" obtain k r1 v r2 c t where k: "read_str (tl (skip_ws s)) = Some (k, r1)"
    and p: "has_prefix (skip_ws s) [CHR 0x22]" "has_prefix (skip_ws r1) '':''"
    and v: "read_value f d (tl (skip_ws r1)) = Some (v, r2)" and ct: "skip_ws r2 = c # t"
    by (auto split: option.splits list.splits if_splits)
  from read_str_shorter [OF k] "6.IH"(1) [OF _ k refl _ v] p ct
  have l: "length t < length s"
    using skip_ws_length [of s] skip_ws_length [of r1] skip_ws_length [of r2] by simp
  with "6.prems" k p v ct "6.IH"(2) [OF _ k refl _ v refl ct] show ?case by (fastforce split: if_splits)
qed auto

text \<open>With fuel above the bound, one unit more changes nothing.\<close>

lemma value_fuel_step:
  "2 * length s < f \<Longrightarrow> read_value (Suc f) d s = read_value f d s"
  "2 * length s + 1 < f \<Longrightarrow> read_elems (Suc f) d s = read_elems f d s"
  "2 * length s + 1 < f \<Longrightarrow> read_members (Suc f) d s = read_members f d s"
proof (induction f d s and f d s and f d s rule: read_value_read_elems_read_members.induct)
  case (2 f d s)
  show ?case
  proof (cases "skip_ws s")
    case Nil
    then show ?thesis by simp
  next
    case (Cons c t)
    then have l: "2 * length t + 1 < f" using skip_ws_length [of s] "2.prems" by simp
    with Cons "2.IH" [OF Cons] show ?thesis by (auto simp del: read_value.simps simp: read_value.simps(2))
  qed
next
  case (4 f d s)
  from "4.prems" "4.IH"(1) have v: "read_value (Suc f) d s = read_value f d s" by simp
  show ?case
  proof (cases "read_value f d s")
    case None
    with v show ?thesis by simp
  next
    case (Some p)
    then obtain v' r where r: "read_value f d s = Some (v', r)" by (cases p) auto
    show ?thesis
    proof (cases "skip_ws r")
      case Nil
      with r v show ?thesis by simp
    next
      case (Cons c t)
      have "2 * length t + 1 < f"
        using read_shorter(1) [OF r] skip_ws_length [of r] Cons "4.prems" by simp
      with r v Cons "4.IH"(2) [OF r refl Cons] show ?thesis by auto
    qed
  qed
next
  case (6 f d s)
  show ?case
  proof (cases "has_prefix (skip_ws s) [CHR 0x22] \<and> read_str (tl (skip_ws s)) \<noteq> None")
    case False
    then show ?thesis by (cases "read_str (tl (skip_ws s))") auto
  next
    case True
    then obtain k r where k: "has_prefix (skip_ws s) [CHR 0x22]" "read_str (tl (skip_ws s)) = Some (k, r)" by auto
    then have lr: "length r + 2 \<le> length s"
      using read_str_shorter [OF k(2)] skip_ws_length [of s] by (auto simp: has_prefix_iff)
    show ?thesis
    proof (cases "has_prefix (skip_ws r) '':''")
      case False
      with k show ?thesis by simp
    next
      case True
      let ?q = "tl (skip_ws r)"
      have lq: "length ?q < length r" using True skip_ws_length [of r] by (auto simp: has_prefix_iff)
      have v: "read_value (Suc f) d ?q = read_value f d ?q"
        using "6.IH"(1) [OF _ k(2) refl] True k lr lq "6.prems" by simp
      show ?thesis
      proof (cases "read_value f d ?q")
        case None
        with k True v show ?thesis by simp
      next
        case (Some p)
        then obtain w r2 where w: "read_value f d ?q = Some (w, r2)" by (cases p) auto
        show ?thesis
        proof (cases "skip_ws r2")
          case Nil
          with k True v w show ?thesis by simp
        next
          case (Cons c t)
          have "2 * length t + 1 < f"
            using read_shorter(1) [OF w] lq lr skip_ws_length [of r2] Cons "6.prems" by simp
          with k True v w Cons "6.IH"(2) [OF _ k(2) refl _ w refl Cons] show ?thesis by auto
        qed
      qed
    qed
  qed
qed auto

lemma value_fuel:
  assumes "f \<le> g" and "2 * length s < f"
  shows "read_value g d s = read_value f d s"
  using assms(1)
proof (induction rule: dec_induct)
  case base
  show ?case by simp
next
  case (step n)
  then show ?case using value_fuel_step(1) [of s n d] assms(2) by simp
qed

subsection \<open>Printing\<close>

text \<open>
  The printer with a line break and indentation \<open>nl i\<close> in front of every item at depth \<open>i\<close>, and
  \<open>sp\<close> after a colon. \<^verbatim>\<open>json.Marshal\<close> puts nothing there; \<^verbatim>\<open>json.MarshalIndent(v, "", "  ")\<close>
  starts a new line with two spaces a level and writes one space after a colon.
\<close>

fun json_layout :: "(nat \<Rightarrow> string) \<Rightarrow> string \<Rightarrow> nat \<Rightarrow> json \<Rightarrow> string" where
  "json_layout nl sp i JNull = ''null''"
| "json_layout nl sp i (JBool b) = (if b then ''true'' else ''false'')"
| "json_layout nl sp i (JNum n) = itoa n"
| "json_layout nl sp i (JFrac t) = t"
| "json_layout nl sp i (JStr s) = json_string s"
| "json_layout nl sp i (JArr xs) =
     (if xs = [] then ''[]''
      else ''['' @ nl (Suc i) @ join_str ('','' @ nl (Suc i)) (map (json_layout nl sp (Suc i)) xs) @ nl i @ '']'')"
| "json_layout nl sp i (JObj kvs) =
     (if kvs = [] then ''{}''
      else ''{'' @ nl (Suc i) @
        join_str ('','' @ nl (Suc i))
          (map (\<lambda>(k, v). json_string k @ '':'' @ sp @ json_layout nl sp (Suc i) v) kvs) @ nl i @ ''}'')"

definition line_break :: "nat \<Rightarrow> string" where
  "line_break i = CHR 0x0A # replicate (2 * i) CHR '' ''"

definition json_indent :: "json \<Rightarrow> string" where
  "json_indent v = json_layout line_break '' '' 0 v"

lemma json_text_layout: "json_text v = json_layout (\<lambda>_. []) [] i v"
  by (induction v arbitrary: i rule: json_text.induct)
    (auto simp: case_prod_beta intro!: arg_cong [where f = "join_str _"] map_cong)

subsection \<open>Round trip\<close>

text \<open>A value without fractional numbers, and how deep it nests.\<close>

fun no_frac :: "json \<Rightarrow> bool" where
  "no_frac (JFrac t) = False"
| "no_frac (JArr xs) = list_all no_frac xs"
| "no_frac (JObj kvs) = list_all (\<lambda>(k, v). no_frac v) kvs"
| "no_frac v = True"

fun json_depth :: "json \<Rightarrow> nat" where
  "json_depth (JArr xs) = Suc (foldr max (map json_depth xs) 0)"
| "json_depth (JObj kvs) = Suc (foldr max (map (\<lambda>(k, v). json_depth v) kvs) 0)"
| "json_depth v = 0"

fun json_fix :: "json \<Rightarrow> json" where
  "json_fix (JStr s) = JStr (utf8_fix s)"
| "json_fix (JArr xs) = JArr (map json_fix xs)"
| "json_fix (JObj kvs) = JObj (map (\<lambda>(k, v). (utf8_fix k, json_fix v)) kvs)"
| "json_fix v = v"

definition number_ends :: "string \<Rightarrow> bool" where
  "number_ends r \<longleftrightarrow> r = [] \<or> (\<not> is_digit (hd r) \<and> hd r \<notin> set ''.eE'')"

lemma nat_digits_lead: "0 < n \<Longrightarrow> hd (nat_digits n) \<noteq> CHR ''0''"
proof (induction n rule: nat_digits.induct)
  case (1 n)
  show ?case
  proof (cases "n < 10")
    case True
    have "list_all (\<lambda>n. digit_char n \<noteq> CHR ''0'') [1..<10]" by code_simp
    with True 1 show ?thesis by (subst nat_digits.simps) (simp add: list_all_iff del: nat_digits.simps)
  next
    case False
    with 1 have "hd (nat_digits (n div 10)) \<noteq> CHR ''0''" by simp
    with False show ?thesis by (subst nat_digits.simps) (simp del: nat_digits.simps)
  qed
qed

lemma takeWhile_digits:
  assumes "list_all is_digit ds" and "r = [] \<or> \<not> is_digit (hd r)"
  shows "takeWhile is_digit (ds @ r) = ds" and "dropWhile is_digit (ds @ r) = r"
  using assms by (induction ds) (cases r; simp)+

lemma scan_int_digits:
  assumes "r = [] \<or> \<not> is_digit (hd r)" and "sg = [] \<or> sg = ''-''"
  shows "scan_int (sg @ nat_digits n @ r) = Some (sg @ nat_digits n, r)"
proof -
  obtain c t where ct: "nat_digits n = c # t" by (cases "nat_digits n") simp_all
  from nat_digits_all_digits [of n] ct have d: "is_digit c" "list_all is_digit (c # t)" by simp_all
  then have "c \<noteq> CHR ''-''" by (auto simp: is_digit_def less_eq_char_def)
  moreover have "t = []" if "c = CHR ''0''"
  proof (cases "n = 0")
    case True
    then have "nat_digits n = [digit_char 0]" by (subst nat_digits.simps) simp
    with ct show ?thesis by simp
  next
    case False
    with nat_digits_lead [of n] ct that show ?thesis by simp
  qed
  ultimately show ?thesis
    using d assms takeWhile_digits [OF d(2) assms(1)] by (auto simp: scan_int_def ct Let_def)
qed

lemma read_number_itoa:
  assumes "number_ends r"
  shows "read_number (itoa n @ r) = Some (JNum n, r)"
proof -
  define sg where "sg = (if n < 0 then ''-'' else [])"
  have it: "itoa n = sg @ nat_digits (nat \<bar>n\<bar>)" by (simp add: itoa_def sg_def)
  from assms have e: "r = [] \<or> \<not> is_digit (hd r)" by (auto simp: number_ends_def)
  have "scan_int (itoa n @ r) = Some (itoa n, r)"
    unfolding it using scan_int_digits [OF e, of sg "nat \<bar>n\<bar>"] by (auto simp: sg_def)
  moreover have "scan_frac r = Some ([], r)" "scan_exp r = Some ([], r)"
    using assms by (auto simp: scan_frac_def scan_exp_def number_ends_def has_prefix_iff)
  moreover have "has_prefix (itoa n) ''-'' \<longleftrightarrow> n < 0"
    using digits_no_sign [OF nat_digits_all_digits, of "nat n"] by (auto simp: itoa_def)
  ultimately show ?thesis
    by (simp add: read_number_def it sg_def digits_val_nat_digits del: nat_digits.simps)
qed

lemma skip_ws_append: "list_all is_ws w \<Longrightarrow> skip_ws (w @ s) = skip_ws s"
  by (induction w) (simp_all add: skip_ws_def)

lemma skip_ws_start: "\<not> is_ws c \<Longrightarrow> skip_ws (c # s) = c # s"
  by (simp add: skip_ws_def)

lemma read_value_skip: "list_all is_ws w \<Longrightarrow> read_value f d (w @ s) = read_value f d s"
  by (cases f) (simp_all add: skip_ws_append)

lemma ws_number_ends: "list_all is_ws w \<Longrightarrow> c \<in> set '',]}'' \<Longrightarrow> number_ends (w @ c # r)"
  by (cases w) (auto simp: number_ends_def is_ws_def is_digit_def less_eq_char_def)

lemma itoa_start: "\<exists>c t. itoa n = c # t \<and> (is_digit c \<or> c = CHR ''-'')"
proof (cases "n < 0")
  case True
  then show ?thesis by (simp add: itoa_def)
next
  case False
  obtain c t where "nat_digits (nat n) = c # t" by (cases "nat_digits (nat n)") simp_all
  moreover from this nat_digits_all_digits [of "nat n"] have "is_digit c" by simp
  ultimately show ?thesis using False by (simp add: itoa_def)
qed

lemma layout_start:
  assumes "no_frac v"
  shows "\<exists>c t. json_layout nl sp i v = c # t \<and> \<not> is_ws c \<and> c \<noteq> CHR '']'' \<and> c \<noteq> CHR ''}''"
proof (cases v)
  case (JNum n)
  then show ?thesis using itoa_start [of n] by (auto simp: is_ws_def is_digit_def less_eq_char_def)
qed (use assms in \<open>auto simp: is_ws_def json_string_def\<close>)

text \<open>What it means that a printed value is read back wherever it stands.\<close>

definition reads_back :: "string \<Rightarrow> json \<Rightarrow> nat \<Rightarrow> bool" where
  "reads_back t v d \<longleftrightarrow>
     (\<forall>f r. number_ends r \<longrightarrow> 2 * length (t @ r) < f \<longrightarrow> read_value f d (t @ r) = Some (v, r))"

lemma reads_backD:
  assumes "reads_back t v d" and "number_ends r" and "list_all is_ws w" and "2 * length (t @ r) < f"
  shows "read_value f d (w @ t @ r) = Some (v, r)"
  using assms by (simp add: reads_back_def read_value_skip)

lemma read_elems_layout:
  assumes nl: "list_all is_ws a" "list_all is_ws b" and "xs \<noteq> []"
    and "\<And>x. x \<in> set xs \<Longrightarrow> reads_back (p x) (g x) d"
  shows "list_all is_ws w \<Longrightarrow>
    2 * length (w @ join_str ('','' @ a) (map p xs) @ b @ '']'' @ r) + 1 < f \<Longrightarrow>
    read_elems f d (w @ join_str ('','' @ a) (map p xs) @ b @ '']'' @ r) = Some (map g xs, r)"
  using assms(3,4)
proof (induction xs arbitrary: w f)
  case Nil
  then show ?case by simp
next
  case (Cons x xs)
  then obtain f' where f: "f = Suc f'" by (cases f) auto
  from Cons.prems have x: "reads_back (p x) (g x) d" by simp
  show ?case
  proof (cases xs)
    case Nil
    have "number_ends (b @ '']'' @ r)" using ws_number_ends [OF nl(2), of "CHR '']''" r] by simp
    then have "read_value f' d (w @ p x @ b @ '']'' @ r) = Some (g x, b @ '']'' @ r)"
      by (rule reads_backD [OF x _ Cons.prems(1)]) (use Cons.prems(2) Nil f in simp_all)
    moreover have "skip_ws (b @ '']'' @ r) = '']'' @ r"
      using nl(2) by (simp add: skip_ws_append skip_ws_start is_ws_def)
    ultimately show ?thesis using Nil f by simp
  next
    case (Cons y ys)
    let ?t = "join_str ('','' @ a) (map p xs) @ b @ '']'' @ r"
    have j: "join_str ('','' @ a) (map p (x # xs)) @ b @ '']'' @ r = p x @ '','' @ a @ ?t"
      using Cons by simp
    have "number_ends ('','' @ a @ ?t)" using ws_number_ends [of "[]" "CHR '',''" "a @ ?t"] by simp
    then have "read_value f' d (w @ p x @ '','' @ a @ ?t) = Some (g x, '','' @ a @ ?t)"
      by (rule reads_backD [OF x _ Cons.prems(1)]) (use Cons.prems(2) f j in simp_all)
    moreover have "skip_ws ('','' @ a @ ?t) = CHR '','' # a @ ?t" by (simp add: skip_ws_start is_ws_def)
    moreover have "read_elems f' d (a @ ?t) = Some (map g xs, r)"
      by (rule Cons.IH [OF nl(1)]) (use Cons.prems Cons f j in auto)
    ultimately show ?thesis unfolding j f by simp
  qed
qed

lemma read_members_layout:
  assumes nl: "list_all is_ws a" "list_all is_ws b" "list_all is_ws sp" and "kvs \<noteq> []"
    and "\<And>k v. (k, v) \<in> set kvs \<Longrightarrow> reads_back (p v) (g v) d"
  shows "list_all is_ws w \<Longrightarrow>
    2 * length (w @ join_str ('','' @ a) (map (\<lambda>(k, v). json_string k @ '':'' @ sp @ p v) kvs) @ b @ ''}'' @ r) + 1 < f \<Longrightarrow>
    read_members f d (w @ join_str ('','' @ a) (map (\<lambda>(k, v). json_string k @ '':'' @ sp @ p v) kvs) @ b @ ''}'' @ r) =
      Some (map (\<lambda>(k, v). (utf8_fix k, g v)) kvs, r)"
  using assms(4,5)
proof (induction kvs arbitrary: w f)
  case Nil
  then show ?case by simp
next
  case (Cons kv kvs)
  obtain k v where kv: "kv = (k, v)" by fastforce
  have x: "reads_back (p v) (g v) d" by (rule Cons.prems(4) [of k v]) (simp add: kv)
  let ?m = "\<lambda>(k, v). json_string k @ '':'' @ sp @ p v"
  define rest where "rest = (if kvs = [] then b @ ''}'' @ r
     else '','' @ a @ join_str ('','' @ a) (map ?m kvs) @ b @ ''}'' @ r)"
  have j: "join_str ('','' @ a) (map ?m (kv # kvs)) @ b @ ''}'' @ r = json_string k @ '':'' @ sp @ p v @ rest"
    by (cases kvs) (simp_all add: kv rest_def)
  from Cons.prems obtain f' where f: "f = Suc f'" by (cases f) auto
  have ne: "number_ends rest"
    using ws_number_ends [OF nl(2), of "CHR ''}''" r] ws_number_ends [of "[]" "CHR '',''"]
    by (simp add: rest_def)
  have l: "2 * length (p v @ rest) < f'" using Cons.prems(2) unfolding j f by simp
  have key: "skip_ws (w @ json_string k @ '':'' @ sp @ p v @ rest) = json_string k @ '':'' @ sp @ p v @ rest"
    unfolding skip_ws_append [OF Cons.prems(1)] by (simp add: json_string_def skip_ws_start is_ws_def)
  have str: "read_str (tl (json_string k @ '':'' @ sp @ p v @ rest)) = Some (utf8_fix k, '':'' @ sp @ p v @ rest)"
    by (simp add: json_string_def read_str_escape)
  have colon: "skip_ws ('':'' @ sp @ p v @ rest) = '':'' @ sp @ p v @ rest" by (simp add: skip_ws_start is_ws_def)
  have val: "read_value f' d (sp @ p v @ rest) = Some (g v, rest)"
    by (rule reads_backD [OF x ne nl(3) l])
  have q: "has_prefix (json_string k @ t) [CHR 0x22]" for t by (simp add: json_string_def)
  have step: "read_members f d (w @ json_string k @ '':'' @ sp @ p v @ rest) =
     (case skip_ws rest of [] \<Rightarrow> None | c # t \<Rightarrow>
        if c = CHR ''}'' then Some ([(utf8_fix k, g v)], t)
        else if c = CHR '','' then map_option (apfst ((#) (utf8_fix k, g v))) (read_members f' d t) else None)"
    unfolding f read_members.simps key str using q colon val by simp
  show ?case
  proof (cases "kvs = []")
    case True
    have "skip_ws (b @ ''}'' @ r) = ''}'' @ r"
      using nl(2) by (simp add: skip_ws_append skip_ws_start is_ws_def)
    then have "skip_ws rest = CHR ''}'' # r" using True by (simp add: rest_def)
    with step show ?thesis unfolding j using True kv by simp
  next
    case False
    let ?u = "a @ join_str ('','' @ a) (map ?m kvs) @ b @ ''}'' @ r"
    have "skip_ws rest = CHR '','' # ?u" using False by (simp add: rest_def skip_ws_start is_ws_def)
    moreover have "read_members f' d ?u = Some (map (\<lambda>(k, v). (utf8_fix k, g v)) kvs, r)"
      by (rule Cons.IH [OF nl(1)]) (use Cons.prems False l in \<open>auto simp: rest_def\<close>)
    ultimately show ?thesis using step unfolding j using kv by simp
  qed
qed

lemma reads_backI:
  "(\<And>f r. number_ends r \<Longrightarrow> 2 * length (t @ r) \<le> f \<Longrightarrow> read_value (Suc f) d (t @ r) = Some (v, r)) \<Longrightarrow>
     reads_back t v d"
  unfolding reads_back_def by (metis less_imp_Suc_add le_add1 add_Suc_right less_Suc_eq_le)

lemma layout_not_closing:
  assumes "no_frac v" and "list_all is_ws w"
  shows "\<not> has_prefix (skip_ws (w @ json_layout nl sp i v @ r)) '']''"
  using layout_start [OF assms(1), of nl sp i] by (auto simp: skip_ws_append [OF assms(2)] skip_ws_start)

lemma depth_mem: "x \<in> set xs \<Longrightarrow> h x \<le> foldr max (map h xs) (0 :: nat)"
  by (induction xs) auto

lemma reads_back_array:
  assumes ws: "\<And>i. list_all is_ws (nl i)" and frac: "no_frac (JArr xs)" and depth: "json_depth (JArr xs) \<le> d"
    and each: "\<And>x. x \<in> set xs \<Longrightarrow> reads_back (json_layout nl sp (Suc i) x) (json_fix x) (d - 1)"
  shows "reads_back (json_layout nl sp i (JArr xs)) (json_fix (JArr xs)) d"
proof (rule reads_backI)
  fix f r
  assume l: "2 * length (json_layout nl sp i (JArr xs) @ r) \<le> f"
  from depth have d: "d \<noteq> 0" by auto
  show "read_value (Suc f) d (json_layout nl sp i (JArr xs) @ r) = Some (json_fix (JArr xs), r)"
  proof (cases xs)
    case Nil
    with d show ?thesis by (simp add: skip_ws_start is_ws_def)
  next
    case (Cons x ys)
    let ?t = "nl (Suc i) @ join_str ('','' @ nl (Suc i)) (map (json_layout nl sp (Suc i)) xs) @ nl i @ '']''"
    obtain u where "?t @ r = nl (Suc i) @ json_layout nl sp (Suc i) x @ u" using Cons by (cases ys) auto
    with layout_not_closing [OF _ ws, of x "Suc i" nl sp "Suc i" u] frac Cons
    have "\<not> has_prefix (skip_ws (?t @ r)) '']''" by simp
    moreover have "xs \<noteq> []" "2 * length (?t @ r) + 1 < f" using l Cons by (simp_all del: list.map)
    then have "read_elems f (d - 1) (?t @ r) = Some (map json_fix xs, r)"
      using read_elems_layout [of "nl (Suc i)" "nl i" xs "json_layout nl sp (Suc i)" json_fix "d - 1"
          "nl (Suc i)" r f] ws each by simp
    ultimately show ?thesis using d Cons by (simp add: skip_ws_start is_ws_def)
  qed
qed

lemma reads_back_object:
  assumes ws: "\<And>i. list_all is_ws (nl i)" "list_all is_ws sp" and depth: "json_depth (JObj kvs) \<le> d"
    and each: "\<And>k v. (k, v) \<in> set kvs \<Longrightarrow> reads_back (json_layout nl sp (Suc i) v) (json_fix v) (d - 1)"
  shows "reads_back (json_layout nl sp i (JObj kvs)) (json_fix (JObj kvs)) d"
proof (rule reads_backI)
  fix f r
  assume l: "2 * length (json_layout nl sp i (JObj kvs) @ r) \<le> f"
  from depth have d: "d \<noteq> 0" by auto
  show "read_value (Suc f) d (json_layout nl sp i (JObj kvs) @ r) = Some (json_fix (JObj kvs), r)"
  proof (cases kvs)
    case Nil
    with d show ?thesis by (simp add: skip_ws_start is_ws_def)
  next
    case (Cons kv rest)
    let ?m = "\<lambda>(k, v). json_string k @ '':'' @ sp @ json_layout nl sp (Suc i) v"
    let ?t = "nl (Suc i) @ join_str ('','' @ nl (Suc i)) (map ?m kvs) @ nl i @ ''}''"
    obtain k v where kv: "kv = (k, v)" by fastforce
    have "\<exists>u. ?t @ r = nl (Suc i) @ CHR 0x22 # u" using Cons kv by (cases rest) (auto simp: json_string_def)
    then have "\<not> has_prefix (skip_ws (?t @ r)) ''}''"
      by (auto simp: skip_ws_append [OF ws(1)] skip_ws_start is_ws_def)
    moreover have "kvs \<noteq> []" "2 * length (?t @ r) + 1 < f" using l Cons by (simp_all del: list.map)
    then have "read_members f (d - 1) (?t @ r) = Some (map (\<lambda>(k, v). (utf8_fix k, json_fix v)) kvs, r)"
      using read_members_layout [of "nl (Suc i)" "nl i" sp kvs "json_layout nl sp (Suc i)" json_fix "d - 1"
          "nl (Suc i)" r f] ws each by simp
    ultimately show ?thesis using d Cons by (simp add: skip_ws_start is_ws_def)
  qed
qed

lemma read_number_layout:
  assumes r: "number_ends r"
  shows "read_value (Suc f) d (json_layout nl sp i (JNum n) @ r) = Some (json_fix (JNum n), r)"
proof -
  obtain c t where ct: "itoa n = c # t" "is_digit c \<or> c = CHR ''-''" using itoa_start by blast
  then have c: "\<not> is_ws c" "c \<noteq> CHR 0x22" "c \<noteq> CHR ''[''" "c \<noteq> CHR ''{''" "c \<noteq> CHR ''n''"
    "c \<noteq> CHR ''t''" "c \<noteq> CHR ''f''"
    by (auto simp: is_ws_def is_digit_def less_eq_char_def)
  then have "skip_ws (itoa n @ r) = c # t @ r" by (simp add: ct skip_ws_start)
  with c read_number_itoa [OF r, of n] ct(1)
  show "read_value (Suc f) d (json_layout nl sp i (JNum n) @ r) = Some (json_fix (JNum n), r)"
    by simp
qed

lemma reads_back_layout:
  assumes ws: "\<And>i. list_all is_ws (nl i)" "list_all is_ws sp"
  shows "no_frac v \<Longrightarrow> json_depth v \<le> d \<Longrightarrow> reads_back (json_layout nl sp i v) (json_fix v) d"
proof (induction v arbitrary: i d rule: json_fix.induct)
  case (1 s)
  show ?case
    by (rule reads_backI) (simp add: json_string_def skip_ws_start is_ws_def read_str_escape)
next
  case (2 xs)
  show ?case
  proof (rule reads_back_array [OF ws(1) "2.prems"])
    fix x
    assume "x \<in> set xs"
    with "2.IH" "2.prems" depth_mem [of x xs json_depth]
    show "reads_back (json_layout nl sp (Suc i) x) (json_fix x) (d - 1)"
      by (simp add: list_all_iff le_diff_conv)
  qed
next
  case (3 kvs)
  show ?case
  proof (rule reads_back_object [OF ws "3.prems"(2)])
    fix k v
    assume "(k, v) \<in> set kvs"
    with "3.IH" "3.prems" depth_mem [of "(k, v)" kvs "\<lambda>(k, v). json_depth v"]
    show "reads_back (json_layout nl sp (Suc i) v) (json_fix v) (d - 1)"
      by (auto simp: list_all_iff)
  qed
next
  case "4_1"
  show ?case by (rule reads_backI) (simp add: skip_ws_start is_ws_def)
next
  case "4_2"
  show ?case by (rule reads_backI) (simp add: skip_ws_start is_ws_def)
next
  case "4_3"
  show ?case
    by (rule reads_backI [OF read_number_layout])
next
  case "4_4"
  then show ?case by simp
qed

text \<open>What is printed, compactly or indented, is read back.\<close>

lemma json_prefix_layout:
  assumes "\<And>i. list_all is_ws (nl i)" and "list_all is_ws sp" and "number_ends r"
    and "no_frac v" and "json_depth v \<le> json_max_depth"
  shows "json_prefix (json_layout nl sp i v @ r) = Some (json_fix v, r)"
proof -
  have "reads_back (json_layout nl sp i v) (json_fix v) json_max_depth"
    by (rule reads_back_layout) (use assms in simp_all)
  with assms(3) show ?thesis unfolding reads_back_def json_prefix_def by (metis less_add_one)
qed

lemma json_read_text:
  assumes "no_frac v" and "json_depth v \<le> json_max_depth"
  shows "json_read (json_text v) = Some (json_fix v)" and "json_decode (json_text v) = Some (json_fix v)"
  using json_prefix_layout [of "\<lambda>_. []" "[]" "[]" v 0] assms
  by (simp_all add: json_read_def json_decode_def json_text_layout [symmetric] number_ends_def skip_ws_def)

lemma json_read_indent:
  assumes "no_frac v" and "json_depth v \<le> json_max_depth"
  shows "json_read (json_indent v @ [CHR 0x0A]) = Some (json_fix v)"
proof -
  have "list_all is_ws (line_break i)" for i by (simp add: line_break_def is_ws_def list_all_iff)
  then show ?thesis
    using json_prefix_layout [of line_break "'' ''" "[CHR 0x0A]" v 0] assms
    by (simp add: json_read_def json_indent_def number_ends_def skip_ws_def is_ws_def is_digit_def less_eq_char_def)
qed

end
