(* ===== verification/Go_Struct.thy ===== *)
theory Go_Struct
  imports Go_Json
begin

text \<open>
  How \<^verbatim>\<open>encoding/json\<close> moves a struct in and out of an object.

  A decoder takes a value and what the variable held before, as \<^verbatim>\<open>Unmarshal\<close> does: \<^verbatim>\<open>null\<close>
  leaves a variable as it is. A struct is a list of members, one per field and in the order of
  the declaration: the name of its tag, what is written for it (\<open>None\<close> when \<^verbatim>\<open>omitempty\<close> drops
  it), and its decoder. \<open>struct_round_trip\<close> reduces the round trip of a struct to its members.
  A type mismatch makes the whole decoding fail, as every caller treats it.
\<close>

subsection \<open>Decoders of single values\<close>

type_synonym 'a decoder = "json \<Rightarrow> 'a \<Rightarrow> 'a option"

fun dec_string :: "string decoder" where
  "dec_string JNull s = Some s"
| "dec_string (JStr t) s = Some t"
| "dec_string _ s = None"

fun dec_bool :: "bool decoder" where
  "dec_bool JNull b = Some b"
| "dec_bool (JBool c) b = Some c"
| "dec_bool _ b = None"

text \<open>\<^verbatim>\<open>int\<close> and \<^verbatim>\<open>int64\<close>: an integer literal that fits in 64 bits.\<close>

fun dec_int :: "int decoder" where
  "dec_int JNull i = Some i"
| "dec_int (JNum n) i = (if - (2 ^ 63) \<le> n \<and> n < 2 ^ 63 then Some n else None)"
| "dec_int _ i = None"

text \<open>\<^verbatim>\<open>uint64\<close>.\<close>

fun dec_uint :: "64 word decoder" where
  "dec_uint JNull w = Some w"
| "dec_uint (JNum n) w = (if 0 \<le> n \<and> n < 2 ^ 64 then Some (of_int n) else None)"
| "dec_uint _ w = None"

text \<open>A \<^verbatim>\<open>map[string]string\<close>: members are added to the map that is there.\<close>

fun dec_entries :: "(string \<times> json) list \<Rightarrow> string gomap \<Rightarrow> string gomap option" where
  "dec_entries [] m = Some m"
| "dec_entries ((k, j) # r) m =
     (case dec_string j [] of None \<Rightarrow> None | Some v \<Rightarrow> dec_entries r (AList.update k v m))"

fun dec_string_map :: "string gomap decoder" where
  "dec_string_map JNull m = Some []"
| "dec_string_map (JObj kvs) m = dec_entries kvs m"
| "dec_string_map _ m = None"

text \<open>A pointer: \<^verbatim>\<open>null\<close> makes it nil, anything else is decoded into what it points to.\<close>

fun dec_pointer :: "'a \<Rightarrow> 'a decoder \<Rightarrow> 'a option decoder" where
  "dec_pointer z d JNull p = Some None"
| "dec_pointer z d j p = map_option Some (d j (case p of None \<Rightarrow> z | Some x \<Rightarrow> x))"

text \<open>A slice: each element is decoded into a zero value.\<close>

fun dec_all :: "'a \<Rightarrow> 'a decoder \<Rightarrow> json list \<Rightarrow> 'a list option" where
  "dec_all z d [] = Some []"
| "dec_all z d (j # js) =
     (case d j z of None \<Rightarrow> None | Some x \<Rightarrow> map_option ((#) x) (dec_all z d js))"

fun dec_slice :: "'a \<Rightarrow> 'a decoder \<Rightarrow> 'a list decoder" where
  "dec_slice z d JNull xs = Some []"
| "dec_slice z d (JArr js) xs = dec_all z d js"
| "dec_slice z d _ xs = None"

subsection \<open>Structs\<close>

type_synonym 'r member = "string \<times> ('r \<Rightarrow> json option) \<times> 'r decoder"

definition in_field :: "('r \<Rightarrow> 'a) \<Rightarrow> (('a \<Rightarrow> 'a) \<Rightarrow> 'r \<Rightarrow> 'r) \<Rightarrow> 'a decoder \<Rightarrow> 'r decoder" where
  "in_field get upd d j r = map_option (\<lambda>x. upd (\<lambda>_. x) r) (d j (get r))"

definition str_member :: "string \<Rightarrow> ('r \<Rightarrow> string) \<Rightarrow> ((string \<Rightarrow> string) \<Rightarrow> 'r \<Rightarrow> 'r) \<Rightarrow> 'r member" where
  "str_member n get upd = (n, \<lambda>r. Some (JStr (get r)), in_field get upd dec_string)"

definition opt_str_member :: "string \<Rightarrow> ('r \<Rightarrow> string) \<Rightarrow> ((string \<Rightarrow> string) \<Rightarrow> 'r \<Rightarrow> 'r) \<Rightarrow> 'r member" where
  "opt_str_member n get upd =
     (n, \<lambda>r. if get r = [] then None else Some (JStr (get r)), in_field get upd dec_string)"

definition int_member :: "string \<Rightarrow> ('r \<Rightarrow> int) \<Rightarrow> ((int \<Rightarrow> int) \<Rightarrow> 'r \<Rightarrow> 'r) \<Rightarrow> 'r member" where
  "int_member n get upd = (n, \<lambda>r. Some (JNum (get r)), in_field get upd dec_int)"

definition bool_member :: "string \<Rightarrow> ('r \<Rightarrow> bool) \<Rightarrow> ((bool \<Rightarrow> bool) \<Rightarrow> 'r \<Rightarrow> 'r) \<Rightarrow> 'r member" where
  "bool_member n get upd = (n, \<lambda>r. Some (JBool (get r)), in_field get upd dec_bool)"

definition marshal_members :: "'r member list \<Rightarrow> 'r \<Rightarrow> (string \<times> json) list" where
  "marshal_members ms r = List.map_filter (\<lambda>(n, e, d). map_option (Pair n) (e r)) ms"

definition marshal_struct :: "'r member list \<Rightarrow> 'r \<Rightarrow> json" where
  "marshal_struct ms r = JObj (marshal_members ms r)"

text \<open>The field of a member: by exact name, else the first whose name is equal under case folding.\<close>

definition member_for :: "'r member list \<Rightarrow> string \<Rightarrow> 'r decoder option" where
  "member_for ms k =
     (case map_of ms k of
        Some (e, d) \<Rightarrow> Some d
      | None \<Rightarrow> map_option (\<lambda>(n, e, d). d) (find (\<lambda>(n, e, d). equal_fold k n) ms))"

text \<open>The flag refuses unknown members (\<^verbatim>\<open>DisallowUnknownFields\<close>).\<close>

fun set_members :: "bool \<Rightarrow> 'r member list \<Rightarrow> (string \<times> json) list \<Rightarrow> 'r \<Rightarrow> 'r option" where
  "set_members strict ms [] r = Some r"
| "set_members strict ms ((k, j) # kvs) r =
     (case member_for ms k of
        None \<Rightarrow> if strict then None else set_members strict ms kvs r
      | Some d \<Rightarrow>
          (case d j r of None \<Rightarrow> None | Some r' \<Rightarrow> set_members strict ms kvs r'))"

fun dec_struct :: "bool \<Rightarrow> 'r member list \<Rightarrow> 'r decoder" where
  "dec_struct strict ms JNull r = Some r"
| "dec_struct strict ms (JObj kvs) r = set_members strict ms kvs r"
| "dec_struct strict ms _ r = None"

definition json_error :: go_error where
  "json_error = Err ''json: cannot unmarshal''"

text \<open>\<^verbatim>\<open>json.Unmarshal\<close> of a text into a struct that holds \<open>r\<close>.\<close>

definition unmarshal :: "'r decoder \<Rightarrow> string \<Rightarrow> 'r \<Rightarrow> 'r res" where
  "unmarshal d s r =
     (case json_read s of
        None \<Rightarrow> Inl json_error
      | Some j \<Rightarrow> (case d j r of None \<Rightarrow> Inl json_error | Some r' \<Rightarrow> Inr r'))"

subsection \<open>Round trip of a struct\<close>

text \<open>What the members written for \<open>r\<close> do to \<open>r0\<close>, one after the other.\<close>

fun apply_members :: "'r member list \<Rightarrow> 'r \<Rightarrow> 'r \<Rightarrow> 'r option" where
  "apply_members [] r r0 = Some r0"
| "apply_members ((n, e, d) # ms) r r0 =
     (case e r of
        None \<Rightarrow> apply_members ms r r0
      | Some j \<Rightarrow> (case d (json_fix j) r0 of None \<Rightarrow> None | Some r1 \<Rightarrow> apply_members ms r r1))"

lemma utf8_fix_ascii: "list_all is_ascii s \<Longrightarrow> utf8_fix s = s"
proof (induction s)
  case Nil
  then show ?case by (simp add: utf8_fix.simps)
next
  case (Cons c s)
  then have "rune_width (c # s) = 1" by (subst rune_width_ascii) (simp add: is_ascii_def less_char_def)
  with Cons show ?case by (subst utf8_fix.simps) simp
qed

lemma utf8_fix_Nil [simp]: "utf8_fix [] = []"
  by (simp add: utf8_fix_ascii)

lemma struct_members_apply:
  assumes "distinct (map fst ms)" and "\<And>n. n \<in> fst ` set ms \<Longrightarrow> utf8_fix n = n"
  shows "set sub \<subseteq> set ms \<Longrightarrow>
    set_members strict ms (map (\<lambda>(k, v). (utf8_fix k, json_fix v)) (marshal_members sub r)) r0 =
    apply_members sub r r0"
proof (induction sub r r0 rule: apply_members.induct)
  case (1 r r0)
  then show ?case by (simp add: marshal_members_def List.map_filter_def)
next
  case (2 n e d sub r r0)
  from 2 have m: "(n, e, d) \<in> set ms" by simp
  with assms(1) have "map_of ms n = Some (e, d)" by (simp add: map_of_eq_Some_iff)
  then have f: "member_for ms n = Some d" by (simp add: member_for_def)
  have n: "utf8_fix n = n" using assms(2) m by force
  show ?case
  proof (cases "e r")
    case None
    with 2 show ?thesis by (simp add: marshal_members_def List.map_filter_simps)
  next
    case (Some j)
    with 2 f n show ?thesis
      by (auto simp: marshal_members_def List.map_filter_simps split: option.splits)
  qed
qed

lemma struct_round_trip:
  assumes "distinct (map fst ms)" and "list_all (\<lambda>(n, e, d). list_all is_ascii n) ms"
  shows "dec_struct strict ms (json_fix (marshal_struct ms r)) r0 = apply_members ms r r0"
  using struct_members_apply [OF assms(1), of ms strict r r0] assms(2) utf8_fix_ascii
  by (fastforce simp: marshal_struct_def list_all_iff)

text \<open>A struct of plain members prints as a flat object, which is read back.\<close>

lemma flat_struct:
  assumes "list_all (\<lambda>(k, j). no_frac j \<and> json_depth j = 0) (marshal_members ms r)"
  shows "no_frac (marshal_struct ms r)" and "json_depth (marshal_struct ms r) \<le> json_max_depth"
proof -
  show "no_frac (marshal_struct ms r)"
    using assms by (auto simp: marshal_struct_def list_all_iff)
  have "foldr max (map (\<lambda>(k, j). json_depth j) kvs) 0 = 0"
    if "list_all (\<lambda>(k, j). no_frac j \<and> json_depth j = 0) kvs" for kvs
    using that by (induction kvs) auto
  from this [OF assms] show "json_depth (marshal_struct ms r) \<le> json_max_depth"
    by (simp add: marshal_struct_def json_max_depth_def)
qed

lemma unmarshal_marshal:
  assumes "distinct (map fst ms)" and "list_all (\<lambda>(n, e, d). list_all is_ascii n) ms"
    and "list_all (\<lambda>(k, j). no_frac j \<and> json_depth j = 0) (marshal_members ms r)"
    and "apply_members ms r r0 = Some r1"
  shows "unmarshal (dec_struct strict ms) (json_indent (marshal_struct ms r) @ [CHR 0x0A]) r0 = Inr r1"
  by (simp add: unmarshal_def json_read_indent flat_struct [OF assms(3)]
      struct_round_trip [OF assms(1,2)] assms(4))

lemma in_field_simps [simp]:
  "in_field get upd dec_string (JStr t) r = Some (upd (\<lambda>_. t) r)"
  "in_field getb updb dec_bool (JBool b) r = Some (updb (\<lambda>_. b) r)"
  "- (2 ^ 63) \<le> i \<Longrightarrow> i < 2 ^ 63 \<Longrightarrow> in_field geti updi dec_int (JNum i) r = Some (updi (\<lambda>_. i) r)"
  by (simp_all add: in_field_def)

lemmas member_defs = str_member_def opt_str_member_def int_member_def bool_member_def

subsection \<open>Structs that keep their values\<close>

text \<open>
  The contract of a struct whose values survive JSON: distinct names of ASCII letters, members
  that are plain values, and members that write back, into the value decoding starts from, what
  was storable. The three files of the client and the status of the agent are such structs.
\<close>

locale struct_file =
  fixes ms :: "'r member list" and start :: 'r and storable :: "'r \<Rightarrow> bool"
  assumes names_distinct: "distinct (map fst ms)"
    and names_ascii: "list_all (\<lambda>(n, e, d). list_all is_ascii n) ms"
    and members_flat: "list_all (\<lambda>(k, j). no_frac j \<and> json_depth j = 0) (marshal_members ms r)"
    and members_restore: "storable r \<Longrightarrow> apply_members ms r start = Some r"
begin

lemma json_shape: "no_frac (marshal_struct ms r)" "json_depth (marshal_struct ms r) \<le> 1"
proof -
  show "no_frac (marshal_struct ms r)" by (rule flat_struct(1) [OF members_flat])
  have "foldr max (map (\<lambda>(k, j). json_depth j) kvs) 0 = 0"
    if "list_all (\<lambda>(k, j). no_frac j \<and> json_depth j = 0) kvs" for kvs
    using that by (induction kvs) auto
  from this [OF members_flat] show "json_depth (marshal_struct ms r) \<le> 1" by (simp add: marshal_struct_def)
qed

lemma decode_value: "storable r \<Longrightarrow> dec_struct strict ms (json_fix (marshal_struct ms r)) start = Some r"
  by (simp add: struct_round_trip [OF names_distinct names_ascii] members_restore)

lemma read_back:
  "storable r \<Longrightarrow> unmarshal (dec_struct strict ms) (json_indent (marshal_struct ms r) @ [CHR 0x0A]) start = Inr r"
  by (rule unmarshal_marshal [OF names_distinct names_ascii members_flat members_restore])

end

end
