(* ===== verification/Protocol_Json.thy ===== *)
theory Protocol_Json
  imports Protocol Go_Struct
begin

text \<open>
  Reading a result package (\<^verbatim>\<open>client/internal/protocol/types.go\<close>) from its JSON text, with
  unknown members refused as \<^verbatim>\<open>downloadResultPackage\<close> demands or skipped as \<^verbatim>\<open>json.Unmarshal\<close>
  does.
\<close>

text \<open>A member that is only read.\<close>

definition read_member :: "string \<Rightarrow> ('r \<Rightarrow> 'a) \<Rightarrow> (('a \<Rightarrow> 'a) \<Rightarrow> 'r \<Rightarrow> 'r) \<Rightarrow> 'a decoder \<Rightarrow> 'r member" where
  "read_member n get upd d = (n, \<lambda>_. None, in_field get upd d)"

definition zero_response_body :: response_body where
  "zero_response_body = \<lparr> rsb_encoding = [], rsb_data = [], rsb_bytes = 0, rsb_truncated = False \<rparr>"

definition zero_response :: http_response where
  "zero_response =
     \<lparr> hr_status = 0, hr_headers = [], hr_body = zero_response_body, hr_url = [], hr_timing_ms = 0 \<rparr>"

definition zero_error :: result_error where
  "zero_error = \<lparr> re_code = [], re_message = [] \<rparr>"

definition zero_result :: request_result where
  "zero_result = \<lparr> rr_request_id = [], rr_ok = False, rr_response = None, rr_error = None \<rparr>"

definition zero_package :: result_package where
  "zero_package = \<lparr> rp_protocol = [], rp_batch_id = [], rp_ok = False, rp_results = [] \<rparr>"

definition dec_response_body :: "bool \<Rightarrow> response_body decoder" where
  "dec_response_body strict = dec_struct strict
     [read_member ''encoding'' rsb_encoding rsb_encoding_update dec_string,
      read_member ''data'' rsb_data rsb_data_update dec_string,
      read_member ''bytes'' rsb_bytes rsb_bytes_update dec_int,
      read_member ''truncated'' rsb_truncated rsb_truncated_update dec_bool]"

definition dec_response :: "bool \<Rightarrow> http_response decoder" where
  "dec_response strict = dec_struct strict
     [read_member ''status'' hr_status hr_status_update dec_int,
      read_member ''headers'' hr_headers hr_headers_update dec_string_map,
      read_member ''body'' hr_body hr_body_update (dec_response_body strict),
      read_member ''url'' hr_url hr_url_update dec_string,
      read_member ''timing_ms'' hr_timing_ms hr_timing_ms_update dec_int]"

definition dec_error :: "bool \<Rightarrow> result_error decoder" where
  "dec_error strict = dec_struct strict
     [read_member ''code'' re_code re_code_update dec_string,
      read_member ''message'' re_message re_message_update dec_string]"

definition dec_result :: "bool \<Rightarrow> request_result decoder" where
  "dec_result strict = dec_struct strict
     [read_member ''request_id'' rr_request_id rr_request_id_update dec_string,
      read_member ''ok'' rr_ok rr_ok_update dec_bool,
      read_member ''response'' rr_response rr_response_update (dec_pointer zero_response (dec_response strict)),
      read_member ''error'' rr_error rr_error_update (dec_pointer zero_error (dec_error strict))]"

definition dec_package :: "bool \<Rightarrow> result_package decoder" where
  "dec_package strict = dec_struct strict
     [read_member ''protocol'' rp_protocol rp_protocol_update dec_string,
      read_member ''batch_id'' rp_batch_id rp_batch_id_update dec_string,
      read_member ''ok'' rp_ok rp_ok_update dec_bool,
      read_member ''results'' rp_results rp_results_update (dec_slice zero_result (dec_result strict))]"

end
