(* ===== verification/Go_Os.thy ===== *)
theory Go_Os
  imports Go_Strings Go_Time
begin

text \<open>
  The operating system as the client sees it, and Go's \<^verbatim>\<open>path/filepath\<close> on Unix.

  A \<open>host\<close> holds the files (by the path text the client uses), the environment, the clock, the
  outcomes of external commands and the commands run so far. Every file operation consults
  \<open>h_fault\<close> for its position in the sequence of operations: \<open>None\<close> lets it through, \<open>Refused\<close>
  makes it fail without effect, \<open>Torn\<close> makes a write fail and leave the given content behind.
  Statements quantify over all hosts, so over all ways the system can fail. Directories are not
  represented: what can go wrong with them is a fault of the operation.
\<close>

datatype io_fault = Refused go_error | Torn go_error string

fun fault_error :: "io_fault \<Rightarrow> go_error" where
  "fault_error (Refused e) = e"
| "fault_error (Torn e _) = e"

record host =
  h_files :: "string \<Rightarrow> string option"
  h_env :: "string \<Rightarrow> string option"
  h_goos :: string
  h_clock :: "nat \<Rightarrow> time"
  h_reads :: nat
  h_fault :: "nat \<Rightarrow> io_fault option"
  h_ops :: nat
  h_env_fault :: "string \<Rightarrow> string \<Rightarrow> go_error option"
  h_exec :: "nat \<Rightarrow> string \<times> go_error option"
  h_runs :: "string list list"

type_synonym 'a io = "'a res \<times> host"

subsection \<open>Files\<close>

definition next_fault :: "host \<Rightarrow> io_fault option \<times> host" where
  "next_fault h = (h_fault h (h_ops h), h\<lparr> h_ops := Suc (h_ops h) \<rparr>)"

definition read_file :: "string \<Rightarrow> host \<Rightarrow> string io" where
  "read_file p h =
     (case next_fault h of
        (Some f, h) \<Rightarrow> (Inl (fault_error f), h)
      | (None, h) \<Rightarrow>
          (case h_files h p of
             None \<Rightarrow> (Inl (NotExist (''open '' @ p @ '': no such file or directory'')), h)
           | Some s \<Rightarrow> (Inr s, h)))"

definition mkdir_all :: "string \<Rightarrow> host \<Rightarrow> unit io" where
  "mkdir_all p h =
     (case next_fault h of (Some f, h) \<Rightarrow> (Inl (fault_error f), h) | (None, h) \<Rightarrow> (Inr (), h))"

definition write_file :: "string \<Rightarrow> string \<Rightarrow> host \<Rightarrow> unit io" where
  "write_file p s h =
     (case next_fault h of
        (Some (Refused e), h) \<Rightarrow> (Inl e, h)
      | (Some (Torn e t), h) \<Rightarrow> (Inl e, h\<lparr> h_files := (h_files h)(p \<mapsto> t) \<rparr>)
      | (None, h) \<Rightarrow> (Inr (), h\<lparr> h_files := (h_files h)(p \<mapsto> s) \<rparr>))"

definition remove_file :: "string \<Rightarrow> host \<Rightarrow> unit io" where
  "remove_file p h =
     (case next_fault h of
        (Some f, h) \<Rightarrow> (Inl (fault_error f), h)
      | (None, h) \<Rightarrow>
          (case h_files h p of
             None \<Rightarrow> (Inl (NotExist (''remove '' @ p @ '': no such file or directory'')), h)
           | Some s \<Rightarrow> (Inr (), h\<lparr> h_files := (h_files h)(p := None) \<rparr>)))"

definition host_now :: "host \<Rightarrow> time \<times> host" where
  "host_now h = (h_clock h (h_reads h), h\<lparr> h_reads := Suc (h_reads h) \<rparr>)"

subsection \<open>Environment\<close>

text \<open>Windows does not distinguish the case of variable names.\<close>

definition env_key :: "host \<Rightarrow> string \<Rightarrow> string" where
  "env_key h k = (if h_goos h = ''windows'' then go_upper k else k)"

definition getenv :: "string \<Rightarrow> host \<Rightarrow> string" where
  "getenv k h = (case h_env h (env_key h k) of None \<Rightarrow> [] | Some v \<Rightarrow> v)"

definition env_text_ok :: "string \<Rightarrow> string \<Rightarrow> bool" where
  "env_text_ok k v \<longleftrightarrow> k \<noteq> [] \<and> CHR ''='' \<notin> set k \<and> CHR 0x00 \<notin> set k \<and> CHR 0x00 \<notin> set v"

definition setenv :: "string \<Rightarrow> string \<Rightarrow> host \<Rightarrow> unit io" where
  "setenv k v h =
     (if \<not> env_text_ok k v then (Inl (Err ''setenv: invalid argument''), h)
      else (case h_env_fault h k v of
          Some e \<Rightarrow> (Inl e, h)
        | None \<Rightarrow> (Inr (), h\<lparr> h_env := (h_env h)(env_key h k \<mapsto> v) \<rparr>)))"

definition unsetenv :: "string \<Rightarrow> host \<Rightarrow> unit io" where
  "unsetenv k h = (Inr (), h\<lparr> h_env := (h_env h)(env_key h k := None) \<rparr>)"

definition user_home_dir :: "host \<Rightarrow> string res" where
  "user_home_dir h =
     (let k = (if h_goos h = ''windows'' then ''USERPROFILE''
               else if h_goos h = ''plan9'' then ''home'' else ''HOME'');
          v = getenv k h
      in if v \<noteq> [] then Inr v
         else if h_goos h = ''android'' then Inr ''/sdcard''
         else if h_goos h = ''ios'' then Inr ''/''
         else Inl (Err (k @ '' is not defined'')))"

subsection \<open>Commands\<close>

text \<open>\<^verbatim>\<open>exec.Command(argv...).CombinedOutput()\<close>\<close>

definition run_process :: "string list \<Rightarrow> host \<Rightarrow> (string \<times> go_error option) \<times> host" where
  "run_process argv h = (h_exec h (length (h_runs h)), h\<lparr> h_runs := h_runs h @ [argv] \<rparr>)"

subsection \<open>Paths\<close>

text \<open>\<^verbatim>\<open>filepath.Clean\<close>: the components kept so far, last first, and what a component does to them.\<close>

fun clean_parts :: "bool \<Rightarrow> string list \<Rightarrow> string list \<Rightarrow> string list" where
  "clean_parts rooted acc [] = rev acc"
| "clean_parts rooted acc (p # ps) =
     (if p = [] \<or> p = ''.'' then clean_parts rooted acc ps
      else if p = ''..'' then
        (if acc \<noteq> [] \<and> hd acc \<noteq> ''..'' then clean_parts rooted (tl acc) ps
         else if rooted then clean_parts rooted acc ps
         else clean_parts rooted (p # acc) ps)
      else clean_parts rooted (p # acc) ps)"

definition path_clean :: "string \<Rightarrow> string" where
  "path_clean p =
     (let rooted = has_prefix p ''/'';
          body = join_str ''/'' (clean_parts rooted [] (split_byte CHR ''/'' p))
      in if rooted then ''/'' @ body else if body = [] then ''.'' else body)"

text \<open>\<^verbatim>\<open>filepath.Join\<close> and \<^verbatim>\<open>filepath.Dir\<close>.\<close>

definition path_join :: "string list \<Rightarrow> string" where
  "path_join ps =
     (let qs = filter (\<lambda>p. p \<noteq> []) ps in if qs = [] then [] else path_clean (join_str ''/'' qs))"

definition path_dir :: "string \<Rightarrow> string" where
  "path_dir p =
     path_clean (case last_index_byte p CHR ''/'' of None \<Rightarrow> [] | Some i \<Rightarrow> take (i + 1) p)"

subsection \<open>What the operations leave alone\<close>

lemma next_fault_simps [simp]:
  "fst (next_fault h) = h_fault h (h_ops h)"
  "snd (next_fault h) = h\<lparr> h_ops := Suc (h_ops h) \<rparr>"
  by (simp_all add: next_fault_def)

lemma read_file_host: "snd (read_file p h) = h\<lparr> h_ops := Suc (h_ops h) \<rparr>"
  by (simp add: read_file_def next_fault_def split: option.splits)

lemma mkdir_all_host: "snd (mkdir_all p h) = h\<lparr> h_ops := Suc (h_ops h) \<rparr>"
  by (simp add: mkdir_all_def next_fault_def split: option.splits)

lemma read_file_ok:
  "read_file p h = (Inr s, h') \<longleftrightarrow>
     h_fault h (h_ops h) = None \<and> h_files h p = Some s \<and> h' = h\<lparr> h_ops := Suc (h_ops h) \<rparr>"
  by (auto simp: read_file_def next_fault_def split: option.splits)

lemma mkdir_all_ok:
  "mkdir_all p h = (Inr u, h') \<longleftrightarrow> h_fault h (h_ops h) = None \<and> h' = h\<lparr> h_ops := Suc (h_ops h) \<rparr>"
  by (auto simp: mkdir_all_def next_fault_def split: option.splits)

lemma write_file_ok:
  "write_file p s h = (Inr u, h') \<longleftrightarrow>
     h_fault h (h_ops h) = None \<and>
     h' = h\<lparr> h_ops := Suc (h_ops h), h_files := (h_files h)(p \<mapsto> s) \<rparr>"
  by (auto simp: write_file_def next_fault_def split: option.splits io_fault.splits)

lemma write_file_other:
  "q \<noteq> p \<Longrightarrow> h_files (snd (write_file p s h)) q = h_files h q"
  by (auto simp: write_file_def next_fault_def split: option.splits io_fault.splits)

subsection \<open>A host on which nothing fails\<close>

text \<open>No file operation fails.\<close>

definition quiet :: "host \<Rightarrow> bool" where
  "quiet h \<longleftrightarrow> (\<forall>n. h_fault h n = None)"

text \<open>A Linux host that is used for the concrete examples.\<close>

definition sample_host :: host where
  "sample_host = \<lparr> h_files = (\<lambda>_. None), h_env = [''HOME'' \<mapsto> ''/home/u''], h_goos = ''linux'',
     h_clock = (\<lambda>n. 63902908800000000000 + int n * 1000000000), h_reads = 0, h_fault = (\<lambda>_. None), h_ops = 0,
     h_env_fault = (\<lambda>_ _. None), h_exec = (\<lambda>_. ([], None)), h_runs = [] \<rparr>"

lemma sample_host_quiet: "quiet sample_host"
  by (simp add: quiet_def sample_host_def)

end
