(* ===== verification/Client_Config.thy ===== *)
theory Client_Config
  imports Go_Struct Go_Os Go_Url
begin

text \<open>
  The configuration (\<^verbatim>\<open>client/internal/config/config.go\<close>): its record and defaults, its file, and
  \<^verbatim>\<open>Validate\<close> with its two address checks.
\<close>

subsection \<open>Limits\<close>

definition config_max_worker_concurrency :: int where "config_max_worker_concurrency = 8"
definition min_batch_interval_ms :: int where "min_batch_interval_ms = 250"
definition max_batch_interval_ms :: int where "max_batch_interval_ms = 5000"
definition min_request_timeout_ms :: int where "min_request_timeout_ms = 1000"
definition max_request_timeout_ms :: int where "max_request_timeout_ms = 30000"
definition min_body_bytes :: int where "min_body_bytes = 1024"
definition max_body_bytes :: int where "max_body_bytes = 1048576"
definition max_batch_requests_limit :: int where "max_batch_requests_limit = 64"
definition min_batch_bytes :: int where "min_batch_bytes = 16384"
definition max_batch_bytes :: int where "max_batch_bytes = 1048576"
definition min_queue_requests :: int where "min_queue_requests = 32"
definition max_queue_requests :: int where "max_queue_requests = 2048"
definition max_cache_ttl_ms :: int where "max_cache_ttl_ms = 60000"
definition config_max_cache_entries :: int where "config_max_cache_entries = 1024"
definition min_backpressure_cooldown_ms :: int where "min_backpressure_cooldown_ms = 1000"
definition max_backpressure_cooldown_ms :: int where "max_backpressure_cooldown_ms = 120000"
definition max_stale_if_error_ttl_ms :: int where "max_stale_if_error_ttl_ms = 300000"
definition min_run_start_timeout_sec :: int where "min_run_start_timeout_sec = 30"
definition max_run_start_timeout_sec :: int where "max_run_start_timeout_sec = 600"
definition min_run_wait_timeout_sec :: int where "min_run_wait_timeout_sec = 60"
definition max_run_wait_timeout_sec :: int where "max_run_wait_timeout_sec = 1800"
definition min_poll_interval_ms :: int where "min_poll_interval_ms = 500"
definition max_poll_interval_ms :: int where "max_poll_interval_ms = 10000"

lemmas limit_defs =
  config_max_worker_concurrency_def min_batch_interval_ms_def max_batch_interval_ms_def
  min_request_timeout_ms_def max_request_timeout_ms_def min_body_bytes_def max_body_bytes_def
  max_batch_requests_limit_def min_batch_bytes_def max_batch_bytes_def min_queue_requests_def
  max_queue_requests_def max_cache_ttl_ms_def config_max_cache_entries_def
  min_backpressure_cooldown_ms_def max_backpressure_cooldown_ms_def max_stale_if_error_ttl_ms_def
  min_run_start_timeout_sec_def max_run_start_timeout_sec_def min_run_wait_timeout_sec_def
  max_run_wait_timeout_sec_def min_poll_interval_ms_def max_poll_interval_ms_def

subsection \<open>Data\<close>

record config =
  cf_config_version :: int
  cf_repo :: string
  cf_workflow :: string
  cf_workflow_ref :: string
  cf_github_token_env :: string
  cf_github_api_base_url :: string
  cf_agent_listen_addr :: string
  cf_proxy_listen_addr :: string
  cf_proxy_enabled :: bool
  cf_batch_interval_ms :: int
  cf_request_timeout_ms :: int
  cf_max_request_body_bytes :: int
  cf_max_response_bytes :: int
  cf_worker_concurrency :: int
  cf_max_batch_requests :: int
  cf_max_batch_bytes :: int
  cf_max_queue_requests :: int
  cf_cache_ttl_ms :: int
  cf_cache_max_entries :: int
  cf_backpressure_cooldown_ms :: int
  cf_reliability_mode :: string
  cf_stale_if_error_ttl_ms :: int
  cf_run_start_timeout_sec :: int
  cf_run_wait_timeout_sec :: int
  cf_poll_interval_ms :: int

definition config_members :: "config member list" where
  "config_members =
     [int_member ''config_version'' cf_config_version cf_config_version_update,
      str_member ''repo'' cf_repo cf_repo_update,
      str_member ''workflow'' cf_workflow cf_workflow_update,
      str_member ''workflow_ref'' cf_workflow_ref cf_workflow_ref_update,
      str_member ''github_token_env'' cf_github_token_env cf_github_token_env_update,
      str_member ''github_api_base_url'' cf_github_api_base_url cf_github_api_base_url_update,
      str_member ''agent_listen_addr'' cf_agent_listen_addr cf_agent_listen_addr_update,
      str_member ''proxy_listen_addr'' cf_proxy_listen_addr cf_proxy_listen_addr_update,
      bool_member ''proxy_enabled'' cf_proxy_enabled cf_proxy_enabled_update,
      int_member ''batch_interval_ms'' cf_batch_interval_ms cf_batch_interval_ms_update,
      int_member ''request_timeout_ms'' cf_request_timeout_ms cf_request_timeout_ms_update,
      int_member ''max_request_body_bytes'' cf_max_request_body_bytes cf_max_request_body_bytes_update,
      int_member ''max_response_bytes'' cf_max_response_bytes cf_max_response_bytes_update,
      int_member ''worker_concurrency'' cf_worker_concurrency cf_worker_concurrency_update,
      int_member ''max_batch_requests'' cf_max_batch_requests cf_max_batch_requests_update,
      int_member ''max_batch_bytes'' cf_max_batch_bytes cf_max_batch_bytes_update,
      int_member ''max_queue_requests'' cf_max_queue_requests cf_max_queue_requests_update,
      int_member ''cache_ttl_ms'' cf_cache_ttl_ms cf_cache_ttl_ms_update,
      int_member ''cache_max_entries'' cf_cache_max_entries cf_cache_max_entries_update,
      int_member ''backpressure_cooldown_ms'' cf_backpressure_cooldown_ms cf_backpressure_cooldown_ms_update,
      str_member ''reliability_mode'' cf_reliability_mode cf_reliability_mode_update,
      int_member ''stale_if_error_ttl_ms'' cf_stale_if_error_ttl_ms cf_stale_if_error_ttl_ms_update,
      int_member ''run_start_timeout_sec'' cf_run_start_timeout_sec cf_run_start_timeout_sec_update,
      int_member ''run_wait_timeout_sec'' cf_run_wait_timeout_sec cf_run_wait_timeout_sec_update,
      int_member ''poll_interval_ms'' cf_poll_interval_ms cf_poll_interval_ms_update]"

definition default_config :: config where
  "default_config =
     \<lparr> cf_config_version = 1, cf_repo = [], cf_workflow = [], cf_workflow_ref = ''main'',
       cf_github_token_env = ''ACTIONRELAY_GITHUB_TOKEN'',
       cf_github_api_base_url = ''https://api.github.com'',
       cf_agent_listen_addr = ''127.0.0.1:8787'', cf_proxy_listen_addr = ''127.0.0.1:8788'',
       cf_proxy_enabled = True, cf_batch_interval_ms = 1000, cf_request_timeout_ms = 8000,
       cf_max_request_body_bytes = 65536, cf_max_response_bytes = 65536, cf_worker_concurrency = 4,
       cf_max_batch_requests = 32, cf_max_batch_bytes = 262144, cf_max_queue_requests = 256,
       cf_cache_ttl_ms = 10000, cf_cache_max_entries = 256, cf_backpressure_cooldown_ms = 15000,
       cf_reliability_mode = ''fail_closed'', cf_stale_if_error_ttl_ms = 0,
       cf_run_start_timeout_sec = 120, cf_run_wait_timeout_sec = 900, cf_poll_interval_ms = 2000 \<rparr>"

subsection \<open>Validation\<close>

text \<open>A sequence of checks that stops at the first error.\<close>

fun first_error :: "go_error option list \<Rightarrow> go_error option" where
  "first_error [] = None"
| "first_error (None # es) = first_error es"
| "first_error (Some e # es) = Some e"

definition reject_if :: "bool \<Rightarrow> string \<Rightarrow> go_error option" where
  "reject_if bad msg = (if bad then Some (Err msg) else None)"

definition outside :: "string \<Rightarrow> int \<Rightarrow> int \<Rightarrow> int \<Rightarrow> go_error option" where
  "outside name lo hi v =
     reject_if (v < lo \<or> v > hi) (name @ '' must be between '' @ itoa lo @ '' and '' @ itoa hi)"

text \<open>\<^verbatim>\<open>net.ParseIP\<close>: as \<^verbatim>\<open>netip.ParseAddr\<close>, but no zone.\<close>

definition parse_ip :: "string \<Rightarrow> ip_addr option" where
  "parse_ip s =
     (case parse_addr s of
        Some (V6 w z) \<Rightarrow> if z = [] then Some (V6 w z) else None
      | r \<Rightarrow> r)"

definition validate_loopback_listen_addr :: "string \<Rightarrow> string \<Rightarrow> go_error option" where
  "validate_loopback_listen_addr field addr =
     (case split_host_port (trim_space addr) of
        Inl e \<Rightarrow> Some (Err (field @ '' must be host:port''))
      | Inr (host, _) \<Rightarrow>
          if equal_fold host ''localhost'' then None
          else (case parse_ip host of
              None \<Rightarrow> Some (Err (field @ '' host must be localhost or a loopback IP''))
            | Some ip \<Rightarrow>
                if \<not> is_loopback ip then Some (Err (field @ '' host must be loopback-only'')) else None))"

definition is_github_host :: "string \<Rightarrow> bool" where
  "is_github_host host \<longleftrightarrow> host = ''github.com'' \<or> has_suffix host ''.github.com''"

definition validate_github_api_base_url :: "string \<Rightarrow> go_error option" where
  "validate_github_api_base_url raw =
     (case url_parse (trim_space raw) of
        Inl e \<Rightarrow> Some (wrap_err ''github_api_base_url invalid: '' e)
      | Inr u \<Rightarrow>
          if u_scheme u \<noteq> ''https'' then Some (Err ''github_api_base_url must use https'')
          else (let host = go_lower (url_hostname u) in
            if host = [] then Some (Err ''github_api_base_url must include a hostname'')
            else if \<not> is_github_host host
              then Some (Err (''github_api_base_url host '' @ go_quote host @
                     '' is not allowed; must be github.com or a github.com subdomain''))
            else if url_port u \<noteq> [] then Some (Err ''github_api_base_url must not include an explicit port'')
            else if u_path u \<noteq> [] \<and> u_path u \<noteq> ''/''
              then Some (Err ''github_api_base_url must not include a path'')
            else if u_raw_query u \<noteq> [] \<or> u_fragment u \<noteq> []
              then Some (Err ''github_api_base_url must not include query or fragment'')
            else None))"

definition repo_owner_and_name :: "config \<Rightarrow> (string \<times> string) res" where
  "repo_owner_and_name c =
     (case split_byte CHR ''/'' (trim_space (cf_repo c)) of
        [owner, name] \<Rightarrow>
          if owner = [] \<or> name = []
          then Inl (Err (''repo must be owner/repo, got '' @ go_quote (cf_repo c)))
          else Inr (owner, name)
      | _ \<Rightarrow> Inl (Err (''repo must be owner/repo, got '' @ go_quote (cf_repo c))))"

definition validate_config :: "config \<Rightarrow> go_error option" where
  "validate_config c = first_error
     [reject_if (cf_config_version c \<noteq> 1) ''config_version must be 1'',
      reject_if (trim_space (cf_repo c) = []) ''repo is required'',
      (case repo_owner_and_name c of Inl e \<Rightarrow> Some e | Inr _ \<Rightarrow> None),
      reject_if (trim_space (cf_workflow c) = []) ''workflow is required'',
      reject_if (trim_space (cf_workflow_ref c) = []) ''workflow_ref is required'',
      reject_if (trim_space (cf_github_token_env c) = []) ''github_token_env is required'',
      reject_if (trim_space (cf_github_api_base_url c) = []) ''github_api_base_url is required'',
      validate_github_api_base_url (cf_github_api_base_url c),
      validate_loopback_listen_addr ''agent_listen_addr'' (cf_agent_listen_addr c),
      validate_loopback_listen_addr ''proxy_listen_addr'' (cf_proxy_listen_addr c),
      outside ''batch_interval_ms'' min_batch_interval_ms max_batch_interval_ms (cf_batch_interval_ms c),
      outside ''request_timeout_ms'' min_request_timeout_ms max_request_timeout_ms (cf_request_timeout_ms c),
      outside ''max_request_body_bytes'' min_body_bytes max_body_bytes (cf_max_request_body_bytes c),
      outside ''max_response_bytes'' min_body_bytes max_body_bytes (cf_max_response_bytes c),
      reject_if (cf_worker_concurrency c \<le> 0) ''worker_concurrency must be > 0'',
      reject_if (cf_worker_concurrency c > config_max_worker_concurrency)
        (''worker_concurrency must be <= '' @ itoa config_max_worker_concurrency),
      reject_if (cf_max_batch_requests c \<le> 0 \<or> cf_max_batch_requests c > max_batch_requests_limit)
        (''max_batch_requests must be between 1 and '' @ itoa max_batch_requests_limit),
      outside ''max_batch_bytes'' min_batch_bytes max_batch_bytes (cf_max_batch_bytes c),
      outside ''max_queue_requests'' min_queue_requests max_queue_requests (cf_max_queue_requests c),
      reject_if (cf_cache_ttl_ms c < 0 \<or> cf_cache_ttl_ms c > max_cache_ttl_ms)
        (''cache_ttl_ms must be between 0 and '' @ itoa max_cache_ttl_ms),
      reject_if (cf_cache_max_entries c < 0 \<or> cf_cache_max_entries c > config_max_cache_entries)
        (''cache_max_entries must be between 0 and '' @ itoa config_max_cache_entries),
      outside ''backpressure_cooldown_ms'' min_backpressure_cooldown_ms max_backpressure_cooldown_ms
        (cf_backpressure_cooldown_ms c),
      reject_if (go_lower (trim_space (cf_reliability_mode c)) \<noteq> ''fail_closed'' \<and>
              go_lower (trim_space (cf_reliability_mode c)) \<noteq> ''fail_open'')
        ''reliability_mode must be one of: fail_closed, fail_open'',
      reject_if (cf_stale_if_error_ttl_ms c < 0 \<or> cf_stale_if_error_ttl_ms c > max_stale_if_error_ttl_ms)
        (''stale_if_error_ttl_ms must be between 0 and '' @ itoa max_stale_if_error_ttl_ms),
      outside ''run_start_timeout_sec'' min_run_start_timeout_sec max_run_start_timeout_sec
        (cf_run_start_timeout_sec c),
      outside ''run_wait_timeout_sec'' min_run_wait_timeout_sec max_run_wait_timeout_sec
        (cf_run_wait_timeout_sec c),
      outside ''poll_interval_ms'' min_poll_interval_ms max_poll_interval_ms (cf_poll_interval_ms c)]"

definition normalize_config :: "config \<Rightarrow> config" where
  "normalize_config c = c
     \<lparr> cf_repo := trim_space (cf_repo c),
       cf_workflow := trim_space (cf_workflow c),
       cf_workflow_ref := trim_space (cf_workflow_ref c),
       cf_github_token_env := trim_space (cf_github_token_env c),
       cf_github_api_base_url := trim_space (cf_github_api_base_url c),
       cf_agent_listen_addr := trim_space (cf_agent_listen_addr c),
       cf_proxy_listen_addr := trim_space (cf_proxy_listen_addr c),
       cf_reliability_mode := go_lower (trim_space (cf_reliability_mode c)) \<rparr>"

subsection \<open>The file\<close>

definition resolve_path :: "string \<Rightarrow> host \<Rightarrow> string res" where
  "resolve_path p h =
     (if p = [] then Inl (Err ''empty config path'')
      else if has_prefix p ''~/'' then
        (case user_home_dir h of Inl e \<Rightarrow> Inl e | Inr home \<Rightarrow> Inr (path_join [home, drop 2 p]))
      else Inr p)"

definition route_state_path :: "string \<Rightarrow> host \<Rightarrow> string res" where
  "route_state_path p h =
     (case resolve_path p h of
        Inl e \<Rightarrow> Inl e | Inr r \<Rightarrow> Inr (path_join [path_dir r, ''route-state.json'']))"

definition config_load :: "string \<Rightarrow> host \<Rightarrow> config io" where
  "config_load p h =
     and_then (resolve_path p h, h) (\<lambda>resolved h.
       and_then (read_file resolved h) (\<lambda>content h.
         case unmarshal (dec_struct False config_members) content default_config of
           Inl e \<Rightarrow> (Inl (wrap_err ''decode config: '' e), h)
         | Inr c \<Rightarrow>
             (let c = (if cf_config_version c = 0 then c\<lparr> cf_config_version := 1 \<rparr> else c);
                  c = normalize_config c
              in case validate_config c of Some e \<Rightarrow> (Inl e, h) | None \<Rightarrow> (Inr c, h))))"

definition config_save :: "string \<Rightarrow> config \<Rightarrow> host \<Rightarrow> unit io" where
  "config_save p c h =
     (let c = normalize_config c in
      case validate_config c of
        Some e \<Rightarrow> (Inl e, h)
      | None \<Rightarrow>
          and_then (resolve_path p h, h) (\<lambda>resolved h.
            and_then (or_wrap (wrap_err ''create config dir: '') (mkdir_all (path_dir resolved) h)) (\<lambda>_ h.
              or_wrap (wrap_err ''write config: '')
                (write_file resolved (json_indent (marshal_struct config_members c) @ [CHR 0x0A]) h))))"

definition config_token :: "config \<Rightarrow> host \<Rightarrow> string res" where
  "config_token c h =
     (let token = trim_space (getenv (cf_github_token_env c) h) in
      if token = [] then Inl (Err (''token env '' @ go_quote (cf_github_token_env c) @ '' is empty''))
      else Inr token)"

subsection \<open>What a valid configuration is\<close>

text \<open>
  The addresses that are loopback: 127.0.0.0/8, also as an IPv4-mapped IPv6 address, and \<open>::1\<close>.
\<close>

definition loopback_ip :: "ip_addr \<Rightarrow> bool" where
  "loopback_ip a \<longleftrightarrow>
     (case a of
        V4 v \<Rightarrow> in_cidr v (0x7F000000, 8)
      | V6 w z \<Rightarrow> w = 1 \<or> (drop_bit 32 w = 0xFFFF \<and> in_cidr (ucast w) (0x7F000000, 8)))"

definition loopback_listener :: "string \<Rightarrow> bool" where
  "loopback_listener addr \<longleftrightarrow>
     (\<exists>host port. split_host_port (trim_space addr) = Inr (host, port) \<and>
        (equal_fold host ''localhost'' \<or> (\<exists>ip. parse_ip host = Some ip \<and> loopback_ip ip)))"

definition github_base_url :: "string \<Rightarrow> bool" where
  "github_base_url raw \<longleftrightarrow>
     (\<exists>u. url_parse (trim_space raw) = Inr u \<and> u_scheme u = ''https'' \<and>
        (\<exists>sub. go_lower (url_hostname u) = sub @ ''github.com'' \<and> (sub = [] \<or> last sub = CHR ''.'')) \<and>
        url_port u = [] \<and> u_path u \<in> {[], ''/''} \<and> u_raw_query u = [] \<and> u_fragment u = [])"

definition repo_name :: "string \<Rightarrow> bool" where
  "repo_name r \<longleftrightarrow>
     (\<exists>owner name. trim_space r = owner @ ''/'' @ name \<and> owner \<noteq> [] \<and> name \<noteq> [] \<and>
        CHR ''/'' \<notin> set owner \<and> CHR ''/'' \<notin> set name)"

definition config_valid :: "config \<Rightarrow> bool" where
  "config_valid c \<longleftrightarrow>
     cf_config_version c = 1 \<and> repo_name (cf_repo c) \<and> trim_space (cf_workflow c) \<noteq> [] \<and>
     trim_space (cf_workflow_ref c) \<noteq> [] \<and> trim_space (cf_github_token_env c) \<noteq> [] \<and>
     github_base_url (cf_github_api_base_url c) \<and>
     loopback_listener (cf_agent_listen_addr c) \<and> loopback_listener (cf_proxy_listen_addr c) \<and>
     cf_batch_interval_ms c \<in> {250..5000} \<and> cf_request_timeout_ms c \<in> {1000..30000} \<and>
     cf_max_request_body_bytes c \<in> {1024..1048576} \<and> cf_max_response_bytes c \<in> {1024..1048576} \<and>
     cf_worker_concurrency c \<in> {1..8} \<and> cf_max_batch_requests c \<in> {1..64} \<and>
     cf_max_batch_bytes c \<in> {16384..1048576} \<and> cf_max_queue_requests c \<in> {32..2048} \<and>
     cf_cache_ttl_ms c \<in> {0..60000} \<and> cf_cache_max_entries c \<in> {0..1024} \<and>
     cf_backpressure_cooldown_ms c \<in> {1000..120000} \<and>
     go_lower (trim_space (cf_reliability_mode c)) \<in> {''fail_closed'', ''fail_open''} \<and>
     cf_stale_if_error_ttl_ms c \<in> {0..300000} \<and> cf_run_start_timeout_sec c \<in> {30..600} \<and>
     cf_run_wait_timeout_sec c \<in> {60..1800} \<and> cf_poll_interval_ms c \<in> {500..10000}"

lemma first_error_None [simp]:
  "first_error [] = None \<longleftrightarrow> True"
  "first_error (e # es) = None \<longleftrightarrow> e = None \<and> first_error es = None"
  by (cases e; simp)+

lemma reject_if_None [simp]: "reject_if b m = None \<longleftrightarrow> \<not> b"
  by (simp add: reject_if_def)

lemma outside_None [simp]: "outside n lo hi v = None \<longleftrightarrow> lo \<le> v \<and> v \<le> hi"
  by (auto simp: outside_def)

lemma is_loopback_ip: "is_loopback a \<longleftrightarrow> loopback_ip a"
proof (cases a)
  case (V4 v)
  then show ?thesis by (simp add: is_loopback_def loopback_ip_def octet_loopback)
next
  case (V6 w z)
  have "drop_bit 32 (1 :: 128 word) \<noteq> 0xFFFF" by code_simp
  with V6 show ?thesis by (auto simp: is_loopback_def loopback_ip_def octet_loopback)
qed

lemma loopback_listener_iff: "validate_loopback_listen_addr f addr = None \<longleftrightarrow> loopback_listener addr"
  by (auto simp: validate_loopback_listen_addr_def loopback_listener_def is_loopback_ip
      split: sum.splits option.splits)

lemma github_host_suffix:
  "is_github_host h \<longleftrightarrow> (\<exists>sub. h = sub @ ''github.com'' \<and> (sub = [] \<or> last sub = CHR ''.''))"
proof -
  have "has_suffix h ''.github.com'' \<longleftrightarrow> (\<exists>sub. h = sub @ ''github.com'' \<and> sub \<noteq> [] \<and> last sub = CHR ''.'')"
  proof
    assume "has_suffix h ''.github.com''"
    then obtain t where "h = (t @ ''.'') @ ''github.com''" by (auto simp: has_suffix_iff)
    then show "\<exists>sub. h = sub @ ''github.com'' \<and> sub \<noteq> [] \<and> last sub = CHR ''.''" by fastforce
  next
    assume "\<exists>sub. h = sub @ ''github.com'' \<and> sub \<noteq> [] \<and> last sub = CHR ''.''"
    then obtain sub where "h = sub @ ''github.com''" "sub = butlast sub @ ''.''"
      by (metis append_butlast_last_id)
    then have "h = butlast sub @ ''.github.com''" by (metis append.assoc append_Cons append_Nil)
    then show "has_suffix h ''.github.com''" by (auto simp: has_suffix_iff)
  qed
  then show ?thesis by (auto simp: is_github_host_def)
qed

lemma github_base_url_iff: "validate_github_api_base_url raw = None \<longleftrightarrow> github_base_url raw"
proof -
  have "sub @ ''github.com'' \<noteq> []" for sub by simp
  then show ?thesis
    by (auto simp: validate_github_api_base_url_def github_base_url_def github_host_suffix Let_def
        split: sum.splits if_splits)
qed

lemma split_two:
  "split_byte d s = [a, b] \<longleftrightarrow> s = a @ d # b \<and> d \<notin> set a \<and> d \<notin> set b"
proof
  assume s: "split_byte d s = [a, b]"
  then have "s = a @ d # b" using join_split [of d s] by simp
  moreover have "d \<notin> set a" "d \<notin> set b" using split_byte_parts [of _ d s] s by auto
  ultimately show "s = a @ d # b \<and> d \<notin> set a \<and> d \<notin> set b" by simp
qed (auto simp: split_byte_append_sep split_byte_none)

lemma repo_name_iff: "(\<exists>p. repo_owner_and_name c = Inr p) \<longleftrightarrow> repo_name (cf_repo c)"
proof -
  have "(\<exists>p. repo_owner_and_name c = Inr p) \<longleftrightarrow>
    (\<exists>o' n. split_byte CHR ''/'' (trim_space (cf_repo c)) = [o', n] \<and> o' \<noteq> [] \<and> n \<noteq> [])"
    by (auto simp: repo_owner_and_name_def split: list.splits if_splits)
  then show ?thesis by (auto simp: split_two repo_name_def)
qed

lemma validate_config_lemma: "validate_config c = None \<longleftrightarrow> config_valid c"
proof -
  have r: "(case repo_owner_and_name c of Inl e \<Rightarrow> Some e | Inr _ \<Rightarrow> None) = None \<longleftrightarrow> repo_name (cf_repo c)"
    using repo_name_iff [of c] by (auto split: sum.splits)
  have "repo_name (cf_repo c) \<Longrightarrow> trim_space (cf_repo c) \<noteq> []" by (auto simp: repo_name_def)
  moreover have "trim_space raw = [] \<Longrightarrow> \<not> github_base_url raw" for raw
  proof
    assume "trim_space raw = []" "github_base_url raw"
    moreover have "url_parse [] = Inr empty_url" by code_simp
    ultimately show False by (simp add: github_base_url_def empty_url_def)
  qed
  ultimately show ?thesis
    unfolding validate_config_def first_error_None reject_if_None outside_None r github_base_url_iff
      loopback_listener_iff config_valid_def limit_defs
    by (simp add: not_le not_less int_one_le_iff_zero_less) blast
qed

lemma config_names:
  "distinct (map fst config_members)" "list_all (\<lambda>(n, e, d). list_all is_ascii n) config_members"
  unfolding config_members_def member_defs by code_simp+

lemma config_flat: "list_all (\<lambda>(k, j). no_frac j \<and> json_depth j = 0) (marshal_members config_members c)"
  by (simp add: marshal_members_def config_members_def member_defs List.map_filter_simps)

definition config_text_ok :: "config \<Rightarrow> bool" where
  "config_text_ok c \<longleftrightarrow>
     list_all (\<lambda>t. utf8_fix t = t)
       [cf_repo c, cf_workflow c, cf_workflow_ref c, cf_github_token_env c, cf_github_api_base_url c,
        cf_agent_listen_addr c, cf_proxy_listen_addr c, cf_reliability_mode c]"

lemma config_apply:
  assumes "config_text_ok c" and "config_valid c"
  shows "apply_members config_members c default_config = Some c"
  using assms
  by (simp add: config_members_def member_defs config_text_ok_def config_valid_def default_config_def)

lemma modes_normal:
  "go_lower (trim_space ''fail_closed'') = ''fail_closed''" "go_lower (trim_space ''fail_open'') = ''fail_open''"
  by code_simp+

lemma normalize_idem:
  assumes "config_valid c"
  shows "normalize_config (normalize_config c) = normalize_config c"
    and "config_valid (normalize_config c)"
proof -
  from assms have m: "go_lower (trim_space (go_lower (trim_space (cf_reliability_mode c)))) =
    go_lower (trim_space (cf_reliability_mode c))"
    by (auto simp: config_valid_def modes_normal)
  then show "normalize_config (normalize_config c) = normalize_config c"
    by (simp add: normalize_config_def)
  from assms m show "config_valid (normalize_config c)"
    by (simp add: config_valid_def normalize_config_def repo_name_def github_base_url_def loopback_listener_def)
qed

interpretation config_file: struct_file config_members default_config "\<lambda>c. config_text_ok c \<and> config_valid c"
  by unfold_locales (auto simp only: config_names config_flat config_apply)

lemma config_decode:
  assumes "config_text_ok c" and "config_valid c"
  shows "unmarshal (dec_struct False config_members)
    (json_indent (marshal_struct config_members c) @ [CHR 0x0A]) default_config = Inr c"
  using assms by (simp add: config_file.read_back)

lemma config_save_ok:
  assumes "config_save p c h = (Inr u, h')"
  obtains q where "config_valid (normalize_config c)" and "resolve_path p h = Inr q"
    and "h' = h\<lparr> h_ops := Suc (Suc (h_ops h)),
      h_files := (h_files h)(q \<mapsto> json_indent (marshal_struct config_members (normalize_config c)) @ [CHR 0x0A]) \<rparr>"
proof -
  have v: "validate_config (normalize_config c) = None"
    using assms by (cases "validate_config (normalize_config c)") (simp_all add: config_save_def Let_def)
  obtain q where q: "resolve_path p h = Inr q"
    using assms v by (cases "resolve_path p h") (simp_all add: config_save_def Let_def)
  with assms v have "h' = h\<lparr> h_ops := Suc (Suc (h_ops h)),
      h_files := (h_files h)(q \<mapsto> json_indent (marshal_struct config_members (normalize_config c)) @ [CHR 0x0A]) \<rparr>"
    unfolding config_save_def Let_def v option.case q and_then.simps and_then_Inr or_wrap_Inr mkdir_all_ok write_file_ok
    by (elim exE conjE) simp
  with that v q show thesis by (simp add: validate_config_lemma)
qed

lemma resolve_path_env: "h_env h = h_env h' \<Longrightarrow> h_goos h = h_goos h' \<Longrightarrow> resolve_path p h = resolve_path p h'"
  by (simp only: resolve_path_def user_home_dir_def getenv_def env_key_def)

text \<open>What \<^verbatim>\<open>Load\<close> does with the decoded record.\<close>

definition config_finish :: "config \<Rightarrow> config" where
  "config_finish c =
     normalize_config (if cf_config_version c = 0 then c\<lparr> cf_config_version := 1 \<rparr> else c)"

lemma config_load_ok:
  "config_load p h = (Inr c, h') \<longleftrightarrow>
     (\<exists>q s c0. resolve_path p h = Inr q \<and> read_file q h = (Inr s, h') \<and>
        unmarshal (dec_struct False config_members) s default_config = Inr c0 \<and>
        c = config_finish c0 \<and> config_valid c)"
proof (cases "resolve_path p h")
  case (Inl e)
  then show ?thesis by (simp add: config_load_def)
next
  case (Inr q)
  show ?thesis
  proof (cases "read_file q h")
    case (Pair r h1)
    then show ?thesis
      using Inr by (cases r)
        (auto simp: config_load_def config_finish_def Let_def validate_config_lemma [symmetric]
          split: sum.splits option.splits)
  qed
qed

subsection \<open>Properties\<close>

text \<open>
  C26. \<^verbatim>\<open>Validate\<close> accepts exactly the valid configurations: every number in its range, a
  repository of the form owner/name, both listeners on a loopback address, and an API base URL
  that is https, without a port, a path, a query or a fragment, on github.com or below it.
\<close>

theorem validate_config_iff: "validate_config c = None \<longleftrightarrow> config_valid c"
  by (rule validate_config_lemma)

text \<open>
  C27. The configuration file round-trips: after \<^verbatim>\<open>Save\<close> of a valid configuration of valid UTF-8
  text has returned no error, \<^verbatim>\<open>Load\<close> of the same path returns the normalised configuration,
  whenever reading the file does not fail.
\<close>

theorem config_save_load:
  assumes "config_save p c h = (Inr u, h')" and "config_valid c" and "config_text_ok (normalize_config c)"
    and "h_fault h' (h_ops h') = None"
  shows "fst (config_load p h') = Inr (normalize_config c)"
proof -
  let ?n = "normalize_config c"
  obtain q where q: "resolve_path p h = Inr q"
    and h': "h' = h\<lparr> h_ops := Suc (Suc (h_ops h)),
      h_files := (h_files h)(q \<mapsto> json_indent (marshal_struct config_members ?n) @ [CHR 0x0A]) \<rparr>"
    by (rule config_save_ok [OF assms(1)])
  have "resolve_path p h' = Inr q" using q resolve_path_env [of h' h p] by (simp add: h')
  moreover have "read_file q h' = (Inr (json_indent (marshal_struct config_members ?n) @ [CHR 0x0A]),
      h'\<lparr> h_ops := Suc (h_ops h') \<rparr>)"
    unfolding read_file_ok using assms(4) by (simp add: h')
  moreover have "unmarshal (dec_struct False config_members)
      (json_indent (marshal_struct config_members ?n) @ [CHR 0x0A]) default_config = Inr ?n"
    by (rule config_decode [OF assms(3) normalize_idem(2) [OF assms(2)]])
  moreover have "config_finish ?n = ?n" and "config_valid ?n"
    using normalize_idem [OF assms(2)] by (simp_all add: config_finish_def config_valid_def)
  ultimately have "config_load p h' = (Inr ?n, h'\<lparr> h_ops := Suc (h_ops h') \<rparr>)"
    unfolding config_load_ok by metis
  then show ?thesis by simp
qed

definition sample_config :: config where
  "sample_config = default_config\<lparr> cf_repo := '' o/r'', cf_workflow := ''relay.yml'' \<rparr>"

lemma sample_trims:
  "trim_space '' o/r'' = ''o/r''" "trim_space ''relay.yml'' = ''relay.yml''"
  "trim_space ''main'' = ''main''" "trim_space ''ACTIONRELAY_GITHUB_TOKEN'' = ''ACTIONRELAY_GITHUB_TOKEN''"
  "trim_space ''https://api.github.com'' = ''https://api.github.com''"
  "trim_space ''127.0.0.1:8787'' = ''127.0.0.1:8787''" "trim_space ''127.0.0.1:8788'' = ''127.0.0.1:8788''"
  by code_simp+

lemma sample_base_url: "github_base_url ''https://api.github.com''"
proof -
  have "case url_parse ''https://api.github.com'' of Inl e \<Rightarrow> False | Inr u \<Rightarrow>
     u_scheme u = ''https'' \<and> go_lower (url_hostname u) = ''api.github.com'' \<and> url_port u = [] \<and>
     u_path u = [] \<and> u_raw_query u = [] \<and> u_fragment u = []" by code_simp
  then obtain u where "url_parse ''https://api.github.com'' = Inr u" "u_scheme u = ''https''"
    "go_lower (url_hostname u) = ''api.'' @ ''github.com''" "url_port u = []" "u_path u = []"
    "u_raw_query u = []" "u_fragment u = []" by (auto split: sum.splits)
  moreover have "last ''api.'' = CHR ''.''" by simp
  ultimately show ?thesis unfolding github_base_url_def sample_trims by blast
qed

lemma sample_listeners: "loopback_listener ''127.0.0.1:8787''" "loopback_listener ''127.0.0.1:8788''"
proof -
  have p: "parse_ip ''127.0.0.1'' = Some (V4 0x7F000001)" by code_simp
  have l: "loopback_ip (V4 0x7F000001)" unfolding loopback_ip_def by code_simp
  have "split_host_port ''127.0.0.1:8787'' = Inr (''127.0.0.1'', ''8787'')"
    "split_host_port ''127.0.0.1:8788'' = Inr (''127.0.0.1'', ''8788'')" by code_simp+
  with p l show "loopback_listener ''127.0.0.1:8787''" "loopback_listener ''127.0.0.1:8788''"
    unfolding loopback_listener_def sample_trims by blast+
qed

lemma sample_config_valid: "config_valid sample_config" "config_text_ok (normalize_config sample_config)"
proof -
  have "repo_name '' o/r''"
    unfolding repo_name_def sample_trims by (intro exI [of _ "''o''"] exI [of _ "''r''"]) simp
  then show "config_valid sample_config"
    by (simp add: config_valid_def sample_config_def default_config_def sample_trims modes_normal
        sample_base_url sample_listeners)
  have "list_all (list_all is_ascii) [''o/r'', ''relay.yml'', ''main'', ''ACTIONRELAY_GITHUB_TOKEN'',
    ''https://api.github.com'', ''127.0.0.1:8787'', ''127.0.0.1:8788'', ''fail_closed'']" by code_simp
  then show "config_text_ok (normalize_config sample_config)"
    by (simp add: config_text_ok_def normalize_config_def sample_config_def default_config_def modes_normal
        sample_trims utf8_fix_ascii)
qed

theorem config_save_load_witness:
  "fst (config_load ''/c'' (snd (config_save ''/c'' sample_config sample_host))) = Inr (normalize_config sample_config)"
proof -
  have v: "validate_config (normalize_config sample_config) = None"
    using normalize_idem(2) [OF sample_config_valid(1)] by (simp add: validate_config_lemma)
  have "resolve_path ''/c'' sample_host = Inr ''/c''" by (simp add: resolve_path_def)
  then have s: "config_save ''/c'' sample_config sample_host = (Inr (), snd (config_save ''/c'' sample_config sample_host))"
    "h_fault (snd (config_save ''/c'' sample_config sample_host)) = (\<lambda>_. None)"
    by (simp_all add: config_save_def v Let_def mkdir_all_def write_file_def next_fault_def sample_host_def)
  show ?thesis
    by (rule config_save_load [OF s(1) sample_config_valid]) (simp add: s(2))
qed

end
