(* ===== verification/Url_Authority.thy ===== *)
theory Url_Authority
  imports Go_Url
begin

text \<open>
  Where the host of a parsed URL comes from: the text between \<^verbatim>\<open>://\<close> and the first slash,
  question mark or hash. Whatever is appended to a URL after that point leaves scheme and host
  alone (\<open>url_extend_host\<close>), which is what the dispatcher relies on when it builds its endpoints
  from the configured base URL.
\<close>

definition separators :: "char set" where
  "separators = {CHR ''/'', CHR ''?'', CHR ''#''}"

definition scheme_chars :: "string \<Rightarrow> bool" where
  "scheme_chars s \<longleftrightarrow> s \<noteq> [] \<and> is_letter (hd s) \<and> list_all (\<lambda>c. is_letter c \<or> is_digit c \<or> c \<in> set ''+-.'') s"

definition url_shape :: "string \<Rightarrow> string \<Rightarrow> string \<Rightarrow> string \<Rightarrow> bool" where
  "url_shape raw sch auth tail \<longleftrightarrow>
     raw = sch @ ''://'' @ auth @ tail \<and> scheme_chars sch \<and> set auth \<inter> separators = {} \<and>
     (tail = [] \<or> hd tail \<in> separators)"

lemma scheme_char_plain:
  "is_letter c \<or> is_digit c \<or> c \<in> set ''+-.'' \<Longrightarrow> c \<notin> separators \<and> c \<noteq> CHR '':''"
  by (auto simp: separators_def is_letter_def is_lower_def is_upper_def is_digit_def less_eq_char_def)

lemma scheme_scan_run:
  assumes "list_all (\<lambda>c. is_letter c \<or> is_digit c \<or> c \<in> set ''+-.'') s"
    and "acc \<noteq> [] \<or> (s \<noteq> [] \<and> is_letter (hd s))"
  shows "scheme_scan acc (s @ CHR '':'' # r) = Some (acc @ s, r)"
  using assms
proof (induction s arbitrary: acc)
  case Nil
  have "\<not> is_letter CHR '':''" "\<not> is_digit CHR '':''"
    by (auto simp: is_letter_def is_lower_def is_upper_def is_digit_def less_eq_char_def)
  then show ?case by simp
next
  case (Cons c s)
  then show ?case by auto
qed

lemma scheme_scan_result:
  "scheme_scan acc p = Some (sch, r) \<Longrightarrow>
     \<exists>s. sch = acc @ s \<and> p = s @ CHR '':'' # r \<and>
         list_all (\<lambda>c. is_letter c \<or> is_digit c \<or> c \<in> set ''+-.'') s \<and>
         (acc = [] \<longrightarrow> s \<noteq> [] \<longrightarrow> is_letter (hd s))"
proof (induction acc p rule: scheme_scan.induct)
  case (1 acc)
  then show ?case by simp
next
  case (2 acc c r')
  consider "is_letter c" | "\<not> is_letter c" "is_digit c \<or> c \<in> set ''+-.''" "acc \<noteq> []" | "c = CHR '':''" "sch = acc" "r = r'"
    using "2.prems" by (auto split: if_splits)
  then show ?case
  proof cases
    case 1
    with "2.prems" "2.IH"(1) obtain s where "sch = (acc @ [c]) @ s" "r' = s @ CHR '':'' # r"
      "list_all (\<lambda>c. is_letter c \<or> is_digit c \<or> c \<in> set ''+-.'') s" by auto
    with 1 show ?thesis by (intro exI [of _ "c # s"]) simp
  next
    case 2
    with "2.prems" "2.IH"(2) obtain s where "sch = (acc @ [c]) @ s" "r' = s @ CHR '':'' # r"
      "list_all (\<lambda>c. is_letter c \<or> is_digit c \<or> c \<in> set ''+-.'') s" by auto
    with 2 show ?thesis by (intro exI [of _ "c # s"]) auto
  next
    case 3
    then show ?thesis by simp
  qed
qed

lemma cut_byte_prefix: "cut_byte d s = (a, b, f) \<Longrightarrow> d \<notin> set a \<and> (\<exists>t. s = a @ t \<and> (t = [] \<or> hd t = d))"
  by (induction d s arbitrary: a b f rule: cut_byte.induct) (auto split: if_splits prod.splits)

lemma split_query_prefix:
  "split_query s = (h, q, f) \<Longrightarrow> CHR ''?'' \<notin> set h \<and> (\<exists>t. s = h @ t \<and> (t = [] \<or> hd t = CHR ''?''))"
proof (cases "has_suffix s ''?'' \<and> count_list s CHR ''?'' = 1")
  case True
  assume "split_query s = (h, q, f)"
  with True have "h = butlast s" by (simp add: split_query_def)
  moreover from True obtain t where "s = t @ ''?''" by (auto simp: has_suffix_iff)
  moreover from this True have "count_list t CHR ''?'' = 0" by simp
  ultimately show ?thesis by (auto simp: count_list_0_iff)
next
  case False
  assume "split_query s = (h, q, f)"
  with False show ?thesis by (auto simp: split_query_def split: prod.splits dest: cut_byte_prefix)
qed

lemma set_path_host:
  "set_path u p = Inr v \<Longrightarrow> u_host v = u_host u \<and> u_scheme v = u_scheme u"
  by (auto simp: set_path_def split: option.splits)

lemma set_fragment_host:
  "set_fragment u p = Inr v \<Longrightarrow> u_host v = u_host u \<and> u_scheme v = u_scheme u"
  by (auto simp: set_fragment_def split: option.splits)

lemma parse_hier_authority:
  assumes "parse_hier u0 (''//'' @ auth @ t) = Inr u" and "u_scheme u0 \<noteq> []"
    and "CHR ''/'' \<notin> set auth" and "t = [] \<or> hd t = CHR ''/''"
  shows "\<exists>ui. parse_authority auth = Inr (ui, u_host u) \<and> u_scheme u = u_scheme u0"
proof -
  have "take (case index_byte (auth @ t) CHR ''/'' of Some i \<Rightarrow> i | None \<Rightarrow> length (auth @ t)) (auth @ t) = auth"
  proof (cases t)
    case Nil
    with assms(3) have "index_byte (auth @ t) CHR ''/'' = None" by (simp add: index_byte_None)
    with Nil show ?thesis by simp
  next
    case (Cons c t')
    with assms(3,4) have "index_byte (auth @ t) CHR ''/'' = Some (length auth)" by (simp add: index_byte_first)
    then show ?thesis by simp
  qed
  with assms(1,2) show ?thesis
    by (auto simp: parse_hier_def Let_def dest!: set_path_host split: sum.splits)
qed

lemma parse_hier_shape:
  assumes "parse_hier u0 hier = Inr u" and "u_scheme u0 \<noteq> []" and "u_host u0 = []" and "u_host u \<noteq> []"
  shows "\<exists>auth t. hier = ''//'' @ auth @ t \<and> CHR ''/'' \<notin> set auth \<and> (t = [] \<or> hd t = CHR ''/'')"
proof -
  have "has_prefix hier ''//''"
  proof (rule ccontr)
    assume "\<not> has_prefix hier ''//''"
    with assms show False by (auto simp: parse_hier_def dest!: set_path_host split: if_splits)
  qed
  then obtain a where a: "hier = ''//'' @ a" by (auto simp: has_prefix_iff)
  obtain auth x f where "cut_byte CHR ''/'' a = (auth, x, f)" by (metis prod_cases3)
  from cut_byte_prefix [OF this] a show ?thesis by auto
qed

lemma list_all_notin: "list_all P xs \<Longrightarrow> (\<And>c. P c \<Longrightarrow> c \<notin> S) \<Longrightarrow> set xs \<inter> S = {}"
  by (auto simp: list_all_iff)

lemma append_cut:
  assumes "p @ q = a @ t" and "set p \<inter> {d} = {}" and "d \<notin> set a" and "t = [] \<or> hd t = d"
  shows "\<exists>x. a = p @ x \<and> q = x @ t"
proof -
  from assms(1) consider us where "p = a @ us" "us @ q = t" | us where "a = p @ us" "q = us @ t"
    by (auto simp: append_eq_append_conv2)
  then show ?thesis
  proof cases
    case 1
    then show ?thesis using assms by (cases us) auto
  next
    case 2
    then show ?thesis by blast
  qed
qed

text \<open>A part of a shaped text that ends before its first \<open>d\<close> keeps the shape.\<close>

lemma url_shape_cut:
  assumes "url_shape raw sch auth tail" and "raw = a @ t" and "d \<notin> set a" and "t = [] \<or> hd t = d"
    and "d \<in> {CHR ''?'', CHR ''#''}"
  shows "\<exists>tail'. url_shape a sch auth tail' \<and> d \<notin> set tail' \<and> set tail' \<subseteq> set tail"
proof -
  let ?p = "sch @ ''://'' @ auth"
  from assms(1) have s: "scheme_chars sch" "set auth \<inter> separators = {}" "tail = [] \<or> hd tail \<in> separators"
    and raw: "raw = ?p @ tail" by (simp_all add: url_shape_def)
  from s(1) have "set sch \<inter> {d} = {}"
    using assms(5) scheme_char_plain unfolding scheme_chars_def list_all_iff separators_def by fastforce
  then have "set ?p \<inter> {d} = {}" using s(2) assms(5) by (auto simp: separators_def)
  from append_cut [OF _ this assms(3,4), of tail] raw assms(2) obtain x where x: "a = ?p @ x" "tail = x @ t" by metis
  then have "x = [] \<or> hd x \<in> separators" using s(3) by (cases x) auto
  with x s assms(3) show ?thesis by (auto simp: url_shape_def)
qed

lemma shape_scheme:
  assumes "url_shape raw sch auth tail"
  shows "get_scheme raw = Inr (sch, ''//'' @ auth @ tail)"
proof -
  from assms have sc: "list_all (\<lambda>c. is_letter c \<or> is_digit c \<or> c \<in> set ''+-.'') sch" "sch \<noteq> []" "is_letter (hd sch)"
    and raw: "raw = sch @ CHR '':'' # (''//'' @ auth @ tail)"
    by (simp_all add: url_shape_def scheme_chars_def)
  from scheme_scan_run [OF sc(1), of "[]" "''//'' @ auth @ tail"] sc show ?thesis
    by (simp add: get_scheme_def raw)
qed

lemma url_shape_parsed:
  assumes "url_shape raw sch auth tail" and "url_parse raw = Inr u"
  shows "u_scheme u = go_lower sch \<and> (\<exists>ui. parse_authority auth = Inr (ui, u_host u))"
proof -
  obtain p fr ff where p: "cut_byte CHR ''#'' raw = (p, fr, ff)" by (metis prod_cases3)
  from cut_byte_prefix [OF p] obtain t where t: "raw = p @ t" "t = [] \<or> hd t = CHR ''#''" "CHR ''#'' \<notin> set p" by blast
  from url_shape_cut [OF assms(1) t(1,3,2)] obtain tail1 where sh1: "url_shape p sch auth tail1" by auto
  from assms(2) p obtain u1 where u1: "parse_no_frag p = Inr u1" "u_host u = u_host u1" "u_scheme u = u_scheme u1"
    by (auto simp: url_parse_def split: sum.splits if_splits dest: set_fragment_host)
  from sh1 have star: "p \<noteq> ''*''" by (auto simp: url_shape_def Cons_eq_append_conv append_eq_Cons_conv)
  obtain hier q fo where h: "split_query (''//'' @ auth @ tail1) = (hier, q, fo)" by (metis prod_cases3)
  from split_query_prefix [OF h] obtain t2 where t2: "''//'' @ auth @ tail1 = hier @ t2"
    "t2 = [] \<or> hd t2 = CHR ''?''" "CHR ''?'' \<notin> set hier" by blast
  from sh1 have au: "set auth \<inter> separators = {}" by (simp add: url_shape_def)
  have "set (''//'' @ auth) \<inter> {CHR ''?''} = {}" using au by (auto simp: separators_def)
  from append_cut [OF _ this t2(3,2), of tail1] t2(1) obtain x where x: "hier = ''//'' @ auth @ x" "tail1 = x @ t2"
    by auto
  have xs: "x = [] \<or> hd x = CHR ''/''"
  proof (cases x)
    case (Cons c x')
    with sh1 x have "c \<in> separators" by (auto simp: url_shape_def)
    moreover from sh1 x Cons t2(3) have "c \<noteq> CHR ''?''" by auto
    moreover have "c \<noteq> CHR ''#''" using t(3) sh1 x Cons by (auto simp: url_shape_def)
    ultimately show ?thesis using Cons by (auto simp: separators_def)
  qed simp
  define u0 where "u0 = empty_url\<lparr> u_scheme := go_lower sch, u_force_query := fo, u_raw_query := q \<rparr>"
  have g: "get_scheme p = Inr (sch, ''//'' @ auth @ tail1)" by (rule shape_scheme [OF sh1])
  have ph: "parse_hier u0 hier = Inr u1"
    using u1(1) star h unfolding parse_no_frag_def g u0_def by (auto split: if_splits)
  have "go_lower sch \<noteq> []"
  proof -
    from sh1 obtain c s where "sch = c # s" by (cases sch) (auto simp: url_shape_def scheme_chars_def)
    then show ?thesis by simp
  qed
  then have "u_scheme u0 \<noteq> []" by (simp add: u0_def)
  moreover have "CHR ''/'' \<notin> set auth" using au by (auto simp: separators_def)
  ultimately obtain ui where "parse_authority auth = Inr (ui, u_host u1)" "u_scheme u1 = u_scheme u0"
    using parse_hier_authority [of u0 auth x u1] ph x(1) xs by auto
  with u1 show ?thesis by (auto simp: u0_def)
qed

lemma url_parse_shape:
  assumes "url_parse raw = Inr u" and "u_scheme u \<noteq> []" and "u_host u \<noteq> []"
  shows "\<exists>sch auth tail. url_shape raw sch auth tail \<and> auth \<noteq> []"
proof -
  obtain p fr ff where p: "cut_byte CHR ''#'' raw = (p, fr, ff)" by (metis prod_cases3)
  from cut_byte_prefix [OF p] obtain t where t: "raw = p @ t" "t = [] \<or> hd t = CHR ''#''" "CHR ''#'' \<notin> set p" by blast
  from assms(1) p obtain u1 where u1: "parse_no_frag p = Inr u1" "u_host u = u_host u1" "u_scheme u = u_scheme u1"
    by (auto simp: url_parse_def split: sum.splits if_splits dest: set_fragment_host)
  have star: "p \<noteq> ''*''" using u1 assms(2) by (auto simp: parse_no_frag_def empty_url_def has_ctl_byte_def split: if_splits)
  from u1(1) star obtain sch rest where g: "get_scheme p = Inr (sch, rest)"
    by (auto simp: parse_no_frag_def split: if_splits sum.splits)
  obtain hier q fo where h: "split_query rest = (hier, q, fo)" by (metis prod_cases3)
  from split_query_prefix [OF h] obtain t2 where t2: "rest = hier @ t2" "t2 = [] \<or> hd t2 = CHR ''?''" "CHR ''?'' \<notin> set hier"
    by blast
  define u0 where "u0 = empty_url\<lparr> u_scheme := go_lower sch, u_force_query := fo, u_raw_query := q \<rparr>"
  have ph: "parse_hier u0 hier = Inr u1"
    using u1(1) star h unfolding parse_no_frag_def g u0_def by (auto split: if_splits)
  have h0: "u_host u0 = []" by (simp add: u0_def empty_url_def)
  have keep: "parse_hier v y = Inr w \<Longrightarrow> u_scheme w = u_scheme v" for v y w
    by (auto simp: parse_hier_def Let_def dest!: set_path_host split: if_splits sum.splits)
  from keep [OF ph] u1(3) assms(2) have sc: "u_scheme u0 \<noteq> []" by simp
  then have "sch \<noteq> []" by (auto simp: u0_def)
  with g have "scheme_scan [] p = Some (sch, rest)" by (auto simp: get_scheme_def split: option.splits if_splits)
  from scheme_scan_result [OF this] \<open>sch \<noteq> []\<close> have scheme: "scheme_chars sch" "p = sch @ CHR '':'' # rest"
    by (auto simp: scheme_chars_def)
  from parse_hier_shape [OF ph sc h0] u1(2) assms(3) obtain auth t3 where
    t3: "hier = ''//'' @ auth @ t3" "CHR ''/'' \<notin> set auth" "t3 = [] \<or> hd t3 = CHR ''/''" by auto
  have raw: "raw = sch @ ''://'' @ auth @ (t3 @ t2 @ t)" using t(1) scheme(2) t2(1) t3(1) by simp
  have au: "set auth \<inter> separators = {}"
    using t3 t2(3) t(3) scheme(2) t2(1) by (auto simp: separators_def)
  have "t3 @ t2 @ t = [] \<or> hd (t3 @ t2 @ t) \<in> separators"
    using t3(3) t2(2) t(2) by (cases t3; cases t2) (auto simp: separators_def)
  with raw scheme(1) au have shape: "url_shape raw sch auth (t3 @ t2 @ t)" by (simp add: url_shape_def)
  from url_shape_parsed [OF shape assms(1)] assms(3) have "auth \<noteq> []"
    by (auto simp: parse_authority_def parse_host_def last_index_byte_def)
  with shape show ?thesis by blast
qed

subsection \<open>Endpoints below a base URL\<close>

text \<open>\<^verbatim>\<open>strings.TrimRight(s, "/")\<close>\<close>

definition trim_slashes :: "string \<Rightarrow> string" where
  "trim_slashes s = rev (dropWhile (\<lambda>c. c = CHR ''/'') (rev s))"

lemma trim_slashes_append:
  "x \<noteq> [] \<Longrightarrow> last x \<noteq> CHR ''/'' \<Longrightarrow> trim_slashes (x @ y) = x @ trim_slashes y"
proof (induction y rule: rev_induct)
  case Nil
  then show ?case by (cases x rule: rev_cases) (simp_all add: trim_slashes_def)
next
  case (snoc c y)
  then show ?case by (auto simp: trim_slashes_def)
qed

lemma trim_slashes_prefix: "\<exists>z. y = trim_slashes y @ z"
  by (metis trim_slashes_def rev_append rev_rev_ident takeWhile_dropWhile_id)

lemma url_extend_host:
  assumes "url_parse b = Inr u" and "u_scheme u \<noteq> []" and "u_host u \<noteq> []"
    and "url_parse (trim_slashes b @ ''/'' @ rest) = Inr v"
  shows "u_host v = u_host u \<and> u_scheme v = u_scheme u"
proof -
  from url_parse_shape [OF assms(1-3)] obtain sch auth tail where
    shape: "url_shape b sch auth tail" and ne: "auth \<noteq> []" by blast
  then have raw: "b = (sch @ ''://'' @ auth) @ tail" and au: "set auth \<inter> separators = {}"
    and tl: "tail = [] \<or> hd tail \<in> separators" by (simp_all add: url_shape_def)
  have "last auth \<in> set auth" using ne by simp
  with au have "last auth \<noteq> CHR ''/''" by (auto simp: separators_def)
  then have "last (sch @ ''://'' @ auth) \<noteq> CHR ''/''" using ne by simp
  then have t: "trim_slashes b = (sch @ ''://'' @ auth) @ trim_slashes tail"
    unfolding raw by (intro trim_slashes_append) simp_all
  obtain z where z: "tail = trim_slashes tail @ z" using trim_slashes_prefix by blast
  have "hd (trim_slashes tail @ ''/'' @ rest) \<in> separators"
  proof (cases "trim_slashes tail")
    case Nil
    then show ?thesis by (simp add: separators_def)
  next
    case (Cons c w)
    have "hd tail = hd (trim_slashes tail)" by (subst z) (simp add: Cons)
    moreover have "tail \<noteq> []" using z Cons by auto
    ultimately show ?thesis using tl Cons by simp
  qed
  with shape have "url_shape (trim_slashes b @ ''/'' @ rest) sch auth (trim_slashes tail @ ''/'' @ rest)"
    unfolding t by (simp add: url_shape_def)
  from url_shape_parsed [OF this assms(4)] url_shape_parsed [OF shape assms(1)] show ?thesis by auto
qed

end
