(* ===== verification/Github_Dispatcher.thy ===== *)
theory Github_Dispatcher
  imports Protocol_Json Client_Config Url_Authority
begin

text \<open>
  The dispatcher (\<^verbatim>\<open>client/internal/githubapi/dispatcher.go\<close>): one batch is posted as a workflow
  dispatch, the run it starts is looked for and watched, and the result package is downloaded.

  What is outside the program is part of the state: \<open>gd_clock\<close> are the instants \<^verbatim>\<open>time.Now\<close> will
  return, \<open>gd_net\<close> the outcomes of the HTTP exchanges in their order (an error, or status, Date
  header and the bytes of the body that arrive), \<open>gd_ctx\<close> tells for each wait between two polls
  whether the context is done by then, and \<open>gd_parse_date\<close> is \<^verbatim>\<open>http.ParseTime\<close>, whose result can
  depend on the time zone data of the machine. \<open>gd_sent\<close> is the list of the requests sent so
  far. The agent calls \<^verbatim>\<open>ProcessBatch\<close> from one goroutine, so the mutex guards nothing here. A
  polling loop that never ends is \<open>None\<close>. Log output is left out.
\<close>

subsection \<open>Data\<close>

record api_request =
  aq_method :: string
  aq_url :: go_url
  aq_headers :: "string gomap"
  aq_body :: "string option"

record api_reply =
  ar_status :: int
  ar_date :: string
  ar_body :: string

record dispatcher =
  gd_base_url :: string
  gd_owner :: string
  gd_repo :: string
  gd_workflow :: string
  gd_workflow_ref :: string
  gd_token :: string
  gd_poll_interval :: duration
  gd_run_start_timeout :: duration
  gd_run_completion_timeout :: duration
  gd_clock_offset :: duration
  gd_clock_synced :: bool
  gd_clock :: "nat \<Rightarrow> time"
  gd_reads :: nat
  gd_net :: "nat \<Rightarrow> api_reply res"
  gd_sent :: "api_request list"
  gd_ctx :: "nat \<Rightarrow> go_error option"
  gd_waits :: nat
  gd_parse_date :: "string \<Rightarrow> time option"

type_synonym 'a disp = "'a res \<times> dispatcher"

record workflow_run =
  wr_id :: int
  wr_status :: string
  wr_conclusion :: string
  wr_display_title :: string
  wr_name :: string
  wr_created_at :: string

definition zero_run :: workflow_run where
  "zero_run = \<lparr> wr_id = 0, wr_status = [], wr_conclusion = [], wr_display_title = [], wr_name = [],
     wr_created_at = [] \<rparr>"

definition dec_run :: "workflow_run decoder" where
  "dec_run = dec_struct False
     [read_member ''id'' wr_id wr_id_update dec_int,
      read_member ''status'' wr_status wr_status_update dec_string,
      read_member ''conclusion'' wr_conclusion wr_conclusion_update dec_string,
      read_member ''display_title'' wr_display_title wr_display_title_update dec_string,
      read_member ''name'' wr_name wr_name_update dec_string,
      read_member ''created_at'' wr_created_at wr_created_at_update dec_string]"

record workflow_runs_response =
  wl_workflow_runs :: "workflow_run list"

definition dec_runs :: "workflow_runs_response decoder" where
  "dec_runs = dec_struct False
     [read_member ''workflow_runs'' wl_workflow_runs wl_workflow_runs_update (dec_slice zero_run dec_run)]"

record repo_content_response =
  rc_type :: string
  rc_content :: string
  rc_encoding :: string

definition dec_content :: "repo_content_response decoder" where
  "dec_content = dec_struct False
     [read_member ''type'' rc_type rc_type_update dec_string,
      read_member ''content'' rc_content rc_content_update dec_string,
      read_member ''encoding'' rc_encoding rc_encoding_update dec_string]"

text \<open>\<^verbatim>\<open>json.NewDecoder(...).Decode\<close>: the first value of the text, the rest is not read.\<close>

definition decode_first :: "'r decoder \<Rightarrow> string \<Rightarrow> 'r \<Rightarrow> 'r res" where
  "decode_first d s r =
     (case json_decode s of
        None \<Rightarrow> Inl json_error
      | Some j \<Rightarrow> (case d j r of None \<Rightarrow> Inl json_error | Some r' \<Rightarrow> Inr r'))"

subsection \<open>Construction\<close>

text \<open>The world arguments: clock, exchanges, context and date parser.\<close>

definition new_dispatcher ::
  "config \<Rightarrow> string \<Rightarrow> (nat \<Rightarrow> time) \<Rightarrow> (nat \<Rightarrow> api_reply res) \<Rightarrow> (nat \<Rightarrow> go_error option) \<Rightarrow>
   (string \<Rightarrow> time option) \<Rightarrow> dispatcher res" where
  "new_dispatcher c token clock net ctx http_date =
     (case repo_owner_and_name c of
        Inl e \<Rightarrow> Inl e
      | Inr (owner, repo) \<Rightarrow>
          if trim_space token = [] then Inl (Err ''github token is required'')
          else Inr \<lparr> gd_base_url = trim_slashes (cf_github_api_base_url c), gd_owner = owner, gd_repo = repo,
                     gd_workflow = cf_workflow c, gd_workflow_ref = cf_workflow_ref c, gd_token = token,
                     gd_poll_interval = cf_poll_interval_ms c * millisecond,
                     gd_run_start_timeout = cf_run_start_timeout_sec c * second,
                     gd_run_completion_timeout = cf_run_wait_timeout_sec c * second,
                     gd_clock_offset = 0, gd_clock_synced = False, gd_clock = clock, gd_reads = 0,
                     gd_net = net, gd_sent = [], gd_ctx = ctx, gd_waits = 0, gd_parse_date = http_date \<rparr>)"

subsection \<open>Clock\<close>

definition disp_now :: "dispatcher \<Rightarrow> time \<times> dispatcher" where
  "disp_now d = (gd_clock d (gd_reads d), d\<lparr> gd_reads := Suc (gd_reads d) \<rparr>)"

definition update_server_clock :: "string \<Rightarrow> time \<Rightarrow> time \<Rightarrow> dispatcher \<Rightarrow> time option \<times> dispatcher" where
  "update_server_clock date local_start local_end d =
     (case gd_parse_date d (trim_space date) of
        None \<Rightarrow> (None, d)
      | Some server_time \<Rightarrow>
          (let midpoint = local_start + go_quot (time_sub local_end local_start) 2
           in (Some server_time,
               d\<lparr> gd_clock_offset := time_sub server_time midpoint, gd_clock_synced := True \<rparr>)))"

definition server_now :: "dispatcher \<Rightarrow> time \<times> dispatcher" where
  "server_now d = (case disp_now d of (t, d) \<Rightarrow> (t + gd_clock_offset d, d))"

definition server_time_to_local :: "time \<Rightarrow> dispatcher \<Rightarrow> time" where
  "server_time_to_local t d = t + (- gd_clock_offset d)"

definition normalize_github_timestamp :: "time \<Rightarrow> time" where
  "normalize_github_timestamp t = t - t mod second"

subsection \<open>Requests\<close>

text \<open>\<^verbatim>\<open>url.PathEscape\<close>\<close>

definition escape_in_segment :: "char \<Rightarrow> bool" where
  "escape_in_segment c \<longleftrightarrow> \<not> (is_alnum c \<or> c \<in> set ''-_.~$&+:=@'')"

definition path_escape :: "string \<Rightarrow> string" where
  "path_escape s =
     concat (map (\<lambda>c. if escape_in_segment c
                      then [CHR ''%'', upper_hex (of_char c div 16), upper_hex (of_char c mod 16)]
                      else [c]) s)"

text \<open>\<^verbatim>\<open>http.NewRequest\<close> drops the colon of an empty port.\<close>

definition remove_empty_port :: "string \<Rightarrow> string" where
  "remove_empty_port h = (if has_suffix h '':'' then butlast h else h)"

definition github_api_version :: string where "github_api_version = ''2022-11-28''"

definition new_json_request :: "string \<Rightarrow> string \<Rightarrow> string option \<Rightarrow> dispatcher \<Rightarrow> api_request res" where
  "new_json_request method endpoint body d =
     (case url_parse endpoint of
        Inl e \<Rightarrow> Inl e
      | Inr u \<Rightarrow>
          Inr \<lparr> aq_method = method, aq_url = u\<lparr> u_host := remove_empty_port (u_host u) \<rparr>,
                aq_headers = [(''Accept'', ''application/vnd.github+json''),
                              (''Authorization'', ''Bearer '' @ gd_token d),
                              (''X-GitHub-Api-Version'', github_api_version)] @
                             (if body = None then [] else [(''Content-Type'', ''application/json'')]),
                aq_body = body \<rparr>)"

text \<open>\<^verbatim>\<open>httpClient.Do\<close>\<close>

definition http_do :: "api_request \<Rightarrow> dispatcher \<Rightarrow> api_reply disp" where
  "http_do q d = (gd_net d (length (gd_sent d)), d\<lparr> gd_sent := gd_sent d @ [q] \<rparr>)"

text \<open>
  A request built, sent and timed, as every caller does: the reply with the instants before and
  after the exchange. The error of the exchange gets the caller's text in front.
\<close>

definition exchange :: "string \<Rightarrow> string \<Rightarrow> string \<Rightarrow> string option \<Rightarrow> dispatcher \<Rightarrow> (api_reply \<times> time \<times> time) disp" where
  "exchange what method endpoint body d =
     (case new_json_request method endpoint body d of
        Inl e \<Rightarrow> (Inl e, d)
      | Inr q \<Rightarrow>
          (case disp_now d of (t1, d) \<Rightarrow>
            (case http_do q d of (r, d) \<Rightarrow>
              (case disp_now d of (t2, d) \<Rightarrow>
                (case r of
                   Inl e \<Rightarrow> (Inl (wrap_err (what @ '': '') e), d)
                 | Inr reply \<Rightarrow> (Inr (reply, t1, t2), d))))))"

definition status_error :: "string \<Rightarrow> api_reply \<Rightarrow> go_error" where
  "status_error what r =
     Err (what @ '' failed with status '' @ itoa (ar_status r) @ '': '' @ trim_space (take 4096 (ar_body r)))"

definition repo_path :: "dispatcher \<Rightarrow> string" where
  "repo_path d = gd_base_url d @ ''/repos/'' @ gd_owner d @ ''/'' @ gd_repo d"

subsection \<open>Operations\<close>

definition sync_server_clock :: "dispatcher \<Rightarrow> unit disp" where
  "sync_server_clock d =
     (if gd_clock_synced d then done_ok d
      else and_then (exchange ''server clock sync request'' ''GET'' (trim_slashes (gd_base_url d) @ ''/rate_limit'') None d)
        (\<lambda>(r, t1, t2) d.
          if ar_status r \<noteq> 200
          then (Inl (Err (''SERVER_CLOCK_SYNC_FAILED: status '' @ itoa (ar_status r) @ '': '' @
                          trim_space (take 4096 (ar_body r)))), d)
          else (case update_server_clock (ar_date r) t1 t2 d of
              (None, d) \<Rightarrow>
                (Inl (Err ''SERVER_CLOCK_SYNC_FAILED: GitHub response did not include a valid Date header''), d)
            | (Some _, d) \<Rightarrow> done_ok d)))"

text \<open>The two JSON texts of a dispatch: the batch, and the inputs that carry it in base64.\<close>

definition dispatch_payload :: "request_batch \<Rightarrow> dispatcher \<Rightarrow> string" where
  "dispatch_payload b d = json_text (JObj
     [(''inputs'', json_string_map
         [(''batch_id'', rb_batch_id b),
          (''batch_payload_b64'', b64_encode (json_text (batch_json b))),
          (''max_response_bytes_per_request'', itoa (max_response_bytes_per_request (rb_limits b))),
          (''request_timeout_ms'', itoa (request_timeout_ms (rb_limits b))),
          (''worker_concurrency'', itoa (worker_concurrency (rb_limits b)))]),
      (''ref'', JStr (gd_workflow_ref d))])"

definition github_dispatch_batch :: "request_batch \<Rightarrow> dispatcher \<Rightarrow> time disp" where
  "github_dispatch_batch b d =
     and_then (exchange ''dispatch batch request'' ''POST''
         (repo_path d @ ''/actions/workflows/'' @ path_escape (gd_workflow d) @ ''/dispatches'')
         (Some (dispatch_payload b d)) d)
       (\<lambda>(r, t1, t2) d.
         case update_server_clock (ar_date r) t1 t2 d of (accepted, d) \<Rightarrow>
           if ar_status r \<noteq> 204 then (Inl (status_error ''dispatch batch'' r), d)
           else (case accepted of
               Some t \<Rightarrow> (Inr t, d)
             | None \<Rightarrow> (case server_now d of (t, d) \<Rightarrow> (Inr t, d))))"

text \<open>The run a batch started: named after it, and not created before it was dispatched.\<close>

definition run_matches :: "string \<Rightarrow> time \<Rightarrow> workflow_run \<Rightarrow> bool" where
  "run_matches batch_id earliest run \<longleftrightarrow>
     (contains_str (wr_display_title run) batch_id \<or> contains_str (wr_name run) batch_id) \<and>
     (case parse_rfc3339 (wr_created_at run) of
        None \<Rightarrow> False
      | Some created \<Rightarrow> \<not> normalize_github_timestamp created < earliest)"

definition find_run_for_batch :: "string \<Rightarrow> time \<Rightarrow> dispatcher \<Rightarrow> int option disp" where
  "find_run_for_batch batch_id earliest d =
     and_then (exchange ''list workflow runs'' ''GET''
         (repo_path d @ ''/actions/workflows/'' @ path_escape (gd_workflow d) @
          ''/runs?event=workflow_dispatch&per_page=30'') None d)
       (\<lambda>(r, t1, t2) d.
         case update_server_clock (ar_date r) t1 t2 d of (_, d) \<Rightarrow>
           if ar_status r \<noteq> 200 then (Inl (status_error ''list workflow runs'' r), d)
           else (case decode_first dec_runs (ar_body r) \<lparr> wl_workflow_runs = [] \<rparr> of
               Inl e \<Rightarrow> (Inl (wrap_err ''decode workflow runs: '' e), d)
             | Inr parsed \<Rightarrow>
                 (Inr (map_option wr_id (find (run_matches batch_id earliest) (wl_workflow_runs parsed))), d)))"

text \<open>The wait between two polls: the context is done, or the poll interval has passed.\<close>

definition pause :: "dispatcher \<Rightarrow> unit disp" where
  "pause d =
     (case gd_ctx d (gd_waits d) of
        Some e \<Rightarrow> (Inl e, d\<lparr> gd_waits := Suc (gd_waits d) \<rparr>)
      | None \<Rightarrow> (Inr (), d\<lparr> gd_waits := Suc (gd_waits d) \<rparr>))"

partial_function (option) wait_for_run_loop ::
  "time \<Rightarrow> string \<Rightarrow> time \<Rightarrow> dispatcher \<Rightarrow> int disp option" where
  "wait_for_run_loop deadline batch_id earliest d =
     (case disp_now d of (now, d) \<Rightarrow>
        if now > deadline
        then Some (Inl (Err (''RUN_DELAYED: timed out waiting for run for batch '' @ batch_id)), d)
        else (case find_run_for_batch batch_id earliest d of
            (Inl e, d) \<Rightarrow> Some (Inl e, d)
          | (Inr (Some run_id), d) \<Rightarrow> Some (Inr run_id, d)
          | (Inr None, d) \<Rightarrow>
              (case pause d of
                 (Inl e, d) \<Rightarrow> Some (Inl e, d)
               | (Inr _, d) \<Rightarrow> wait_for_run_loop deadline batch_id earliest d)))"

definition wait_for_run :: "string \<Rightarrow> time \<Rightarrow> dispatcher \<Rightarrow> int disp option" where
  "wait_for_run batch_id earliest d =
     (case disp_now d of (now, d) \<Rightarrow>
        wait_for_run_loop (now + gd_run_start_timeout d) batch_id earliest d)"

definition get_run :: "int \<Rightarrow> dispatcher \<Rightarrow> workflow_run disp" where
  "get_run run_id d =
     and_then (exchange ''get run'' ''GET'' (repo_path d @ ''/actions/runs/'' @ itoa run_id) None d)
       (\<lambda>(r, t1, t2) d.
         case update_server_clock (ar_date r) t1 t2 d of (_, d) \<Rightarrow>
           if ar_status r \<noteq> 200 then (Inl (status_error ''get run'' r), d)
           else (case decode_first dec_run (ar_body r) zero_run of
               Inl e \<Rightarrow> (Inl (wrap_err ''decode run: '' e), d)
             | Inr run \<Rightarrow> (Inr run, d)))"

partial_function (option) wait_for_run_completion_loop ::
  "time \<Rightarrow> int \<Rightarrow> dispatcher \<Rightarrow> unit disp option" where
  "wait_for_run_completion_loop deadline run_id d =
     (case disp_now d of (now, d) \<Rightarrow>
        if now > deadline
        then Some (Inl (Err (''RUN_DELAYED: run '' @ itoa run_id @ '' did not complete in time'')), d)
        else (case get_run run_id d of
            (Inl e, d) \<Rightarrow> Some (Inl e, d)
          | (Inr run, d) \<Rightarrow>
              if wr_status run = ''completed'' then
                (if wr_conclusion run \<noteq> ''success''
                 then Some (Inl (Err (''WORKER_ERROR: run '' @ itoa run_id @ '' completed with conclusion '' @
                                      wr_conclusion run)), d)
                 else Some (Inr (), d))
              else (case pause d of
                 (Inl e, d) \<Rightarrow> Some (Inl e, d)
               | (Inr _, d) \<Rightarrow> wait_for_run_completion_loop deadline run_id d)))"

definition wait_for_run_completion :: "int \<Rightarrow> dispatcher \<Rightarrow> unit disp option" where
  "wait_for_run_completion run_id d =
     (case disp_now d of (now, d) \<Rightarrow>
        wait_for_run_completion_loop (now + gd_run_completion_timeout d) run_id d)"

text \<open>Decoding the downloaded content: metadata, base64, then the package, unknown members refused.\<close>

definition decode_result_package :: "string \<Rightarrow> result_package res" where
  "decode_result_package body =
     (case decode_first dec_content (take 10485760 body) \<lparr> rc_type = [], rc_content = [], rc_encoding = [] \<rparr> of
        Inl e \<Rightarrow> Inl (wrap_err ''decode result package metadata: '' e)
      | Inr payload \<Rightarrow>
          if rc_type payload \<noteq> ''file''
          then Inl (Err (''RESULT_PACKAGE_NOT_FOUND: unexpected content type '' @ go_quote (rc_type payload)))
          else if rc_encoding payload \<noteq> ''base64''
          then Inl (Err (''RESULT_PACKAGE_NOT_FOUND: unexpected content encoding '' @ go_quote (rc_encoding payload)))
          else (case b64_decode (filter (\<lambda>c. c \<noteq> CHR 0x0A) (rc_content payload)) of
              Inl e \<Rightarrow> Inl (wrap_err ''decode result package content: '' e)
            | Inr decoded \<Rightarrow>
                (case decode_first (dec_package True) decoded zero_package of
                   Inl e \<Rightarrow> Inl (wrap_err ''decode result package: '' e)
                 | Inr pkg \<Rightarrow> Inr pkg)))"

definition download_result_package :: "string \<Rightarrow> dispatcher \<Rightarrow> result_package option disp" where
  "download_result_package batch_id d =
     and_then (exchange ''download result package'' ''GET''
         (repo_path d @ ''/contents/results/'' @ path_escape batch_id @ ''.json?ref=actionrelay-results'') None d)
       (\<lambda>(r, t1, t2) d.
         case update_server_clock (ar_date r) t1 t2 d of (_, d) \<Rightarrow>
           if ar_status r = 404 then (Inr None, d)
           else if ar_status r \<noteq> 200 then (Inl (status_error ''download result package'' r), d)
           else (case decode_result_package (ar_body r) of
               Inl e \<Rightarrow> (Inl e, d) | Inr pkg \<Rightarrow> (Inr (Some pkg), d)))"

partial_function (option) wait_for_result_package_loop ::
  "time \<Rightarrow> string \<Rightarrow> dispatcher \<Rightarrow> result_package disp option" where
  "wait_for_result_package_loop deadline batch_id d =
     (case download_result_package batch_id d of
        (Inl e, d) \<Rightarrow> Some (Inl e, d)
      | (Inr (Some pkg), d) \<Rightarrow> Some (Inr pkg, d)
      | (Inr None, d) \<Rightarrow>
          (case disp_now d of (now, d) \<Rightarrow>
             if now > deadline
             then Some (Inl (Err (''RESULT_PACKAGE_NOT_FOUND: timed out waiting for result '' @ batch_id)), d)
             else (case pause d of
                 (Inl e, d) \<Rightarrow> Some (Inl e, d)
               | (Inr _, d) \<Rightarrow> wait_for_result_package_loop deadline batch_id d)))"

definition wait_for_result_package :: "string \<Rightarrow> dispatcher \<Rightarrow> result_package disp option" where
  "wait_for_result_package batch_id d =
     (case disp_now d of (now, d) \<Rightarrow>
        wait_for_result_package_loop (now + gd_run_completion_timeout d) batch_id d)"

text \<open>A step that may not return, in sequence.\<close>

definition then_loop :: "'a disp option \<Rightarrow> ('a \<Rightarrow> dispatcher \<Rightarrow> 'b disp option) \<Rightarrow> 'b disp option" where
  "then_loop m k =
     (case m of None \<Rightarrow> None | Some (Inl e, d) \<Rightarrow> Some (Inl e, d) | Some (Inr x, d) \<Rightarrow> k x d)"

definition process_batch :: "request_batch \<Rightarrow> dispatcher \<Rightarrow> result_package disp option" where
  "process_batch b d =
     (case validate_request_batch b of
        Some e \<Rightarrow> Some (Inl (wrap_err ''request batch validation failed: '' e), d)
      | None \<Rightarrow>
          then_loop (Some (sync_server_clock d)) (\<lambda>_ d.
          then_loop (Some (github_dispatch_batch b d)) (\<lambda>dispatched_at d.
          then_loop (wait_for_run (rb_batch_id b) (normalize_github_timestamp dispatched_at) d) (\<lambda>run_id d.
          then_loop (wait_for_run_completion run_id d) (\<lambda>_ d.
          then_loop (wait_for_result_package (rb_batch_id b) d) (\<lambda>pkg d.
            case validate_result_package pkg of
              Some e \<Rightarrow> Some (Inl (wrap_err ''result package validation failed: '' e), d)
            | None \<Rightarrow>
                if rp_protocol pkg \<noteq> result_package_protocol
                then Some (Inl (Err (''unexpected result protocol '' @ go_quote (rp_protocol pkg))), d)
                else if rp_batch_id pkg \<noteq> rb_batch_id b
                then Some (Inl (Err (''batch id mismatch: want '' @ rb_batch_id b @ '' got '' @ rp_batch_id pkg)), d)
                else Some (Inr pkg, d)))))))"

subsection \<open>What every operation keeps\<close>

text \<open>The same dispatcher in the same world; only clock offset, counters and the log may differ.\<close>

definition same_setup :: "dispatcher \<Rightarrow> dispatcher \<Rightarrow> bool" where
  "same_setup d e \<longleftrightarrow>
     gd_base_url e = gd_base_url d \<and> gd_owner e = gd_owner d \<and> gd_repo e = gd_repo d \<and>
     gd_workflow e = gd_workflow d \<and> gd_workflow_ref e = gd_workflow_ref d \<and> gd_token e = gd_token d \<and>
     gd_poll_interval e = gd_poll_interval d \<and> gd_run_start_timeout e = gd_run_start_timeout d \<and>
     gd_run_completion_timeout e = gd_run_completion_timeout d \<and> gd_clock e = gd_clock d \<and>
     gd_net e = gd_net d \<and> gd_ctx e = gd_ctx d \<and> gd_parse_date e = gd_parse_date d"

text \<open>A request of the dispatcher: to an endpoint below its base URL, with its token.\<close>

definition api_call :: "dispatcher \<Rightarrow> string \<Rightarrow> string option \<Rightarrow> api_request \<Rightarrow> bool" where
  "api_call d m body q \<longleftrightarrow>
     (\<exists>b t. b \<in> {gd_base_url d, trim_slashes (gd_base_url d)} \<and>
        new_json_request m (b @ ''/'' @ t) body d = Inr q)"

definition advances :: "(api_request \<Rightarrow> bool) \<Rightarrow> dispatcher \<Rightarrow> dispatcher \<Rightarrow> bool" where
  "advances P d e \<longleftrightarrow>
     same_setup d e \<and> gd_reads d \<le> gd_reads e \<and> (\<exists>qs. gd_sent e = gd_sent d @ qs \<and> list_all P qs)"

lemma same_setup_refl [simp]: "same_setup d d"
  by (simp add: same_setup_def)

lemma same_setup_trans: "same_setup d e \<Longrightarrow> same_setup e f \<Longrightarrow> same_setup d f"
  by (simp add: same_setup_def)

lemma api_call_setup:
  assumes "same_setup d e"
  shows "api_call e m b = api_call d m b"
proof -
  from assms have t: "gd_token e = gd_token d" "gd_base_url e = gd_base_url d" by (simp_all add: same_setup_def)
  show ?thesis unfolding api_call_def new_json_request_def t ..
qed

abbreviation polls :: "dispatcher \<Rightarrow> dispatcher \<Rightarrow> bool" where
  "polls d e \<equiv> advances (api_call d ''GET'' None) d e"

lemma advances_refl [simp]: "advances P d d"
  by (simp add: advances_def)

lemma advances_trans [trans]: "advances P d e \<Longrightarrow> advances P e f \<Longrightarrow> advances P d f"
  by (auto simp: advances_def intro: same_setup_trans)

lemma polls_trans: "polls d e \<Longrightarrow> polls e f \<Longrightarrow> polls d f"
proof -
  assume de: "polls d e" and ef: "polls e f"
  then have "api_call e ''GET'' None = api_call d ''GET'' None"
    by (auto simp: advances_def api_call_setup)
  with de ef show ?thesis using advances_trans [of "api_call d ''GET'' None" d e f] by simp
qed

lemma disp_now_advances: "disp_now d = (t, e) \<Longrightarrow> advances P d e \<and> gd_reads e = Suc (gd_reads d) \<and> t = gd_clock d (gd_reads d)"
  by (auto simp: disp_now_def advances_def same_setup_def)

lemma pause_advances: "pause d = (r, e) \<Longrightarrow> advances P d e \<and> gd_reads e = gd_reads d"
  by (auto simp: pause_def advances_def same_setup_def split: option.splits)

lemma update_clock_advances: "update_server_clock s t1 t2 d = (r, e) \<Longrightarrow> advances P d e"
  by (auto simp: update_server_clock_def advances_def same_setup_def Let_def split: option.splits)

lemma exchange_advances:
  assumes "exchange what m (b @ ''/'' @ t) body d = (r, e)" and "b \<in> {gd_base_url d, trim_slashes (gd_base_url d)}"
  shows "advances (api_call d m body) d e"
proof (cases "new_json_request m (b @ ''/'' @ t) body d")
  case (Inl err)
  with assms(1) show ?thesis by (simp add: exchange_def)
next
  case (Inr q)
  with assms(2) have q: "api_call d m body q" unfolding api_call_def by blast
  from assms(1) Inr have "e = d\<lparr> gd_sent := gd_sent d @ [q], gd_reads := Suc (Suc (gd_reads d)) \<rparr>"
    by (auto simp: exchange_def http_do_def disp_now_def split: sum.splits)
  with q show ?thesis by (simp add: advances_def same_setup_def)
qed

lemma exchange_one:
  assumes "exchange what m ep body d = (r, e)"
  shows "length (gd_sent e) \<le> Suc (length (gd_sent d))"
  using assms by (auto simp: exchange_def http_do_def disp_now_def split: sum.splits)

lemma and_then_cases:
  assumes "and_then m k = (r, s')"
  obtains e where "m = (Inl e, s')" "r = Inl e" | x s where "m = (Inr x, s)" "k x s = (r, s')"
  using assms by (cases "(m, k)" rule: and_then.cases) auto

lemma repo_path_slash: "repo_path d @ t = gd_base_url d @ ''/'' @ (''repos/'' @ gd_owner d @ ''/'' @ gd_repo d @ t)"
  by (simp add: repo_path_def)

text \<open>An exchange, the clock update, and a pure reading of the reply.\<close>

lemma reply_advances:
  assumes "and_then (exchange what m (b @ ''/'' @ t) body d) (\<lambda>(reply, t1, t2) d.
      case update_server_clock (ar_date reply) t1 t2 d of (o', d) \<Rightarrow> k reply o' d) = (r, e)"
    and "b \<in> {gd_base_url d, trim_slashes (gd_base_url d)}"
    and "\<And>reply o' d r e. k reply o' d = (r, e) \<Longrightarrow> advances P d e \<and> gd_sent e = gd_sent d"
    and P: "P = api_call d m body"
  shows "advances P d e" and "length (gd_sent e) \<le> Suc (length (gd_sent d))"
proof -
  have "advances P d e \<and> length (gd_sent e) \<le> Suc (length (gd_sent d))"
    using assms(1)
  proof (rule and_then_cases)
    fix err
    assume "exchange what m (b @ ''/'' @ t) body d = (Inl err, e)"
    then show ?thesis using exchange_advances [OF _ assms(2)] exchange_one P by blast
  next
    fix x d1
    assume x: "exchange what m (b @ ''/'' @ t) body d = (Inr x, d1)"
      and k: "(case x of (reply, t1, t2) \<Rightarrow> \<lambda>d. case update_server_clock (ar_date reply) t1 t2 d of
        (o', d) \<Rightarrow> k reply o' d) d1 = (r, e)"
    obtain reply t1 t2 where xs: "x = (reply, t1, t2)" by (metis prod_cases3)
    obtain o' d2 where u: "update_server_clock (ar_date reply) t1 t2 d1 = (o', d2)" by fastforce
    have s: "gd_sent d2 = gd_sent d1"
      using u by (auto simp: update_server_clock_def Let_def split: option.splits)
    from k xs u have "k reply o' d2 = (r, e)" by simp
    from assms(3) [OF this] s exchange_one [OF x] exchange_advances [OF x assms(2)]
      update_clock_advances [OF u, of P] P show ?thesis
      using advances_trans by (metis advances_trans)
  qed
  then show "advances P d e" "length (gd_sent e) \<le> Suc (length (gd_sent d))" by simp_all
qed

lemma sync_advances: "sync_server_clock d = (r, e) \<Longrightarrow> polls d e"
proof -
  assume s: "sync_server_clock d = (r, e)"
  show ?thesis
  proof (cases "gd_clock_synced d")
    case True
    with s show ?thesis by (simp add: sync_server_clock_def done_ok_def)
  next
    case False
    with s show ?thesis
      unfolding sync_server_clock_def if_not_P [OF False]
    proof (elim and_then_cases)
      fix err
      assume "exchange ''server clock sync request'' ''GET'' (trim_slashes (gd_base_url d) @ ''/rate_limit'') None d = (Inl err, e)"
      then show ?thesis using exchange_advances [of _ _ "trim_slashes (gd_base_url d)" "''rate_limit''" None d] by simp
    next
      fix x d1
      assume x: "exchange ''server clock sync request'' ''GET'' (trim_slashes (gd_base_url d) @ ''/rate_limit'') None d = (Inr x, d1)"
        and k: "(case x of (reply, t1, t2) \<Rightarrow> \<lambda>d. if ar_status reply \<noteq> 200
          then (Inl (Err (''SERVER_CLOCK_SYNC_FAILED: status '' @ itoa (ar_status reply) @ '': '' @
                          trim_space (take 4096 (ar_body reply)))), d)
          else (case update_server_clock (ar_date reply) t1 t2 d of
              (None, d) \<Rightarrow>
                (Inl (Err ''SERVER_CLOCK_SYNC_FAILED: GitHub response did not include a valid Date header''), d)
            | (Some _, d) \<Rightarrow> done_ok d)) d1 = (r, e)"
      from x have a: "polls d d1"
        using exchange_advances [of _ _ "trim_slashes (gd_base_url d)" "''rate_limit''" None d] by simp
      have "advances (api_call d ''GET'' None) d1 e"
        using k by (auto simp: done_ok_def dest!: update_clock_advances split: prod.splits if_splits option.splits)
      with a show ?thesis by (rule advances_trans)
    qed
  qed
qed

lemma find_run_advances: "find_run_for_batch i t d = (r, e) \<Longrightarrow> polls d e"
  unfolding find_run_for_batch_def repo_path_slash
  by (erule reply_advances(1)) (auto split: sum.splits if_splits)

lemma get_run_advances: "get_run i d = (r, e) \<Longrightarrow> polls d e"
  unfolding get_run_def repo_path_slash
  by (erule reply_advances(1)) (auto split: sum.splits if_splits)

lemma download_advances: "download_result_package i d = (r, e) \<Longrightarrow> polls d e"
  unfolding download_result_package_def repo_path_slash
  by (erule reply_advances(1)) (auto split: sum.splits if_splits)

lemma dispatch_advances:
  assumes "github_dispatch_batch b d = (r, e)"
  shows "advances (api_call d ''POST'' (Some (dispatch_payload b d))) d e"
    and "length (gd_sent e) \<le> Suc (length (gd_sent d))"
proof -
  have now: "advances P d e \<and> gd_sent e = gd_sent d" if "server_now d = (t, e)" for P t d e
    using that by (auto simp: server_now_def disp_now_def advances_def same_setup_def)
  have k: "advances P d2 e2 \<and> gd_sent e2 = gd_sent d2"
    if "(if ar_status rp \<noteq> 204 then (Inl (status_error ''dispatch batch'' rp), d2)
         else case acc of None \<Rightarrow> (case server_now d2 of (t, d) \<Rightarrow> (Inr t, d)) | Some t \<Rightarrow> (Inr t, d2)) = (r2, e2)"
    for P rp acc d2 r2 e2
    using that now by (auto split: if_splits option.splits prod.splits)
  show "advances (api_call d ''POST'' (Some (dispatch_payload b d))) d e"
    by (rule reply_advances(1) [OF assms [unfolded github_dispatch_batch_def repo_path_slash] _ k refl]) simp_all
  show "length (gd_sent e) \<le> Suc (length (gd_sent d))"
    by (rule reply_advances(2) [OF assms [unfolded github_dispatch_batch_def repo_path_slash] _ k refl]) simp_all
qed

subsection \<open>The polling loops\<close>

lemma polls_chain:
  assumes "disp_now d = (t, d1)" and "polls d1 d2" and "pause d2 = (x, d3)"
  shows "polls d d3" and "gd_reads d < gd_reads d3" and "same_setup d d3" and "polls d d2"
proof -
  from disp_now_advances [OF assms(1), of "api_call d ''GET'' None"]
  have a: "polls d d1" "gd_reads d1 = Suc (gd_reads d)" by simp_all
  from pause_advances [OF assms(3), of "api_call d2 ''GET'' None"]
  have c: "polls d2 d3" "gd_reads d3 = gd_reads d2" by simp_all
  show "polls d d2" by (rule polls_trans [OF a(1) assms(2)])
  then show "polls d d3" by (rule polls_trans [OF _ c(1)])
  then show "same_setup d d3" by (simp add: advances_def)
  from assms(2) have "gd_reads d1 \<le> gd_reads d2" by (simp add: advances_def)
  with a c show "gd_reads d < gd_reads d3" by simp
qed

lemma polls_now: "disp_now d = (t, d1) \<Longrightarrow> polls d d1"
  by (simp add: disp_now_advances)

lemma wait_for_run_loop_polls:
  assumes "wait_for_run_loop deadline i t d = Some y"
  shows "polls d (snd y)"
proof (rule wait_for_run_loop.raw_induct [where P = "\<lambda>deadline i t d y. polls d (snd y)", OF _ assms])
  fix f deadline i t d y
  assume IH: "\<And>deadline i t d y. f deadline i t d = Some y \<Longrightarrow> polls d (snd y)"
    and eq: "(case disp_now d of (now, d) \<Rightarrow>
        if now > deadline
        then Some (Inl (Err (''RUN_DELAYED: timed out waiting for run for batch '' @ i)), d)
        else (case find_run_for_batch i t d of
            (Inl e, d) \<Rightarrow> Some (Inl e, d)
          | (Inr (Some run_id), d) \<Rightarrow> Some (Inr run_id, d)
          | (Inr None, d) \<Rightarrow>
              (case pause d of
                 (Inl e, d) \<Rightarrow> Some (Inl e, d)
               | (Inr _, d) \<Rightarrow> f deadline i t d))) = Some y"
  obtain now d1 where n: "disp_now d = (now, d1)" by fastforce
  obtain r d2 where fr: "find_run_for_batch i t d1 = (r, d2)" by fastforce
  obtain x d3 where p: "pause d2 = (x, d3)" by fastforce
  note ch = polls_chain [OF n find_run_advances [OF fr] p]
  have "polls d d1" by (rule polls_now [OF n])
  moreover obtain ry ey where "y = (ry, ey)" by fastforce
  ultimately show "polls d (snd y)" using ch eq n fr p
    by (cases r; cases x) (auto split: if_splits option.splits dest!: IH intro: polls_trans [OF ch(1)])
qed

lemma wait_for_run_completion_loop_polls:
  assumes "wait_for_run_completion_loop deadline i d = Some y"
  shows "polls d (snd y)"
proof (rule wait_for_run_completion_loop.raw_induct [where P = "\<lambda>deadline i d y. polls d (snd y)", OF _ assms])
  fix f deadline i d y
  assume IH: "\<And>deadline i d y. f deadline i d = Some y \<Longrightarrow> polls d (snd y)"
    and eq: "(case disp_now d of (now, d) \<Rightarrow>
        if now > deadline
        then Some (Inl (Err (''RUN_DELAYED: run '' @ itoa i @ '' did not complete in time'')), d)
        else (case get_run i d of
            (Inl e, d) \<Rightarrow> Some (Inl e, d)
          | (Inr run, d) \<Rightarrow>
              if wr_status run = ''completed'' then
                (if wr_conclusion run \<noteq> ''success''
                 then Some (Inl (Err (''WORKER_ERROR: run '' @ itoa i @ '' completed with conclusion '' @
                                      wr_conclusion run)), d)
                 else Some (Inr (), d))
              else (case pause d of
                 (Inl e, d) \<Rightarrow> Some (Inl e, d)
               | (Inr _, d) \<Rightarrow> f deadline i d))) = Some y"
  obtain now d1 where n: "disp_now d = (now, d1)" by fastforce
  obtain r d2 where fr: "get_run i d1 = (r, d2)" by fastforce
  obtain x d3 where p: "pause d2 = (x, d3)" by fastforce
  note ch = polls_chain [OF n get_run_advances [OF fr] p]
  have "polls d d1" by (rule polls_now [OF n])
  moreover obtain ry ey where "y = (ry, ey)" by fastforce
  ultimately show "polls d (snd y)" using ch eq n fr p
    by (cases r; cases x) (auto split: if_splits option.splits dest!: IH intro: polls_trans [OF ch(1)])
qed

text \<open>The download loop reads the clock after the poll.\<close>

lemma polls_chain_late:
  assumes "polls d d1" and "disp_now d1 = (t, d2)" and "pause d2 = (x, d3)"
  shows "polls d d3" and "gd_reads d < gd_reads d3" and "same_setup d d3" and "polls d d2"
proof -
  from polls_now [OF assms(2)] have "polls d1 d2" .
  with assms(1) show d2: "polls d d2" by (rule polls_trans)
  from pause_advances [OF assms(3), of "api_call d2 ''GET'' None"]
  have c: "polls d2 d3" "gd_reads d3 = gd_reads d2" by simp_all
  show "polls d d3" by (rule polls_trans [OF d2 c(1)])
  then show "same_setup d d3" by (simp add: advances_def)
  from assms(1) disp_now_advances [OF assms(2)] c(2) show "gd_reads d < gd_reads d3"
    by (auto simp: advances_def)
qed

lemma wait_for_result_package_loop_polls:
  assumes "wait_for_result_package_loop deadline i d = Some y"
  shows "polls d (snd y)"
proof (rule wait_for_result_package_loop.raw_induct [where P = "\<lambda>deadline i d y. polls d (snd y)", OF _ assms])
  fix f deadline i d y
  assume IH: "\<And>deadline i d y. f deadline i d = Some y \<Longrightarrow> polls d (snd y)"
    and eq: "(case download_result_package i d of
        (Inl e, d) \<Rightarrow> Some (Inl e, d)
      | (Inr (Some pkg), d) \<Rightarrow> Some (Inr pkg, d)
      | (Inr None, d) \<Rightarrow>
          (case disp_now d of (now, d) \<Rightarrow>
             if now > deadline
             then Some (Inl (Err (''RESULT_PACKAGE_NOT_FOUND: timed out waiting for result '' @ i)), d)
             else (case pause d of
                 (Inl e, d) \<Rightarrow> Some (Inl e, d)
               | (Inr _, d) \<Rightarrow> f deadline i d))) = Some y"
  obtain r d1 where fr: "download_result_package i d = (r, d1)" by fastforce
  obtain now d2 where n: "disp_now d1 = (now, d2)" by fastforce
  obtain x d3 where p: "pause d2 = (x, d3)" by fastforce
  note ch = polls_chain_late [OF download_advances [OF fr] n p]
  obtain ry ey where "y = (ry, ey)" by fastforce
  with ch show "polls d (snd y)" using download_advances [OF fr] eq n fr p
    by (cases r; cases x) (auto split: if_splits option.splits dest!: IH intro: polls_trans [OF ch(1)])
qed

subsection \<open>The polling loops end\<close>

text \<open>Time passes every instant.\<close>

definition time_passes :: "dispatcher \<Rightarrow> bool" where
  "time_passes d \<longleftrightarrow> (\<forall>t. \<exists>n. \<forall>m \<ge> n. t < gd_clock d m)"

lemma time_passes_setup: "same_setup d e \<Longrightarrow> time_passes e = time_passes d"
  by (simp add: time_passes_def same_setup_def)

lemma wait_for_run_loop_ends:
  assumes "\<forall>m \<ge> n. deadline < gd_clock d m"
  shows "\<exists>y. wait_for_run_loop deadline i t d = Some y"
  using assms
proof (induction "n - gd_reads d" arbitrary: d rule: less_induct)
  case less
  obtain now d1 where nw: "disp_now d = (now, d1)" by fastforce
  obtain r d2 where fr: "find_run_for_batch i t d1 = (r, d2)" by fastforce
  obtain x d3 where p: "pause d2 = (x, d3)" by fastforce
  note ch = polls_chain [OF nw find_run_advances [OF fr] p]
  show ?case
  proof (cases "now > deadline")
    case True
    with nw show ?thesis by (subst wait_for_run_loop.simps) simp
  next
    case False
    with less.prems nw have "gd_reads d < n" by (auto simp: disp_now_def not_le intro: ccontr)
    with ch(2) have "n - gd_reads d3 < n - gd_reads d" by simp
    moreover have "\<forall>m \<ge> n. deadline < gd_clock d3 m" using less.prems ch(3) by (simp add: same_setup_def)
    ultimately obtain y where "wait_for_run_loop deadline i t d3 = Some y" using less.hyps by blast
    with False nw fr p show ?thesis
      by (subst wait_for_run_loop.simps) (simp split: sum.split option.split)
  qed
qed

lemma wait_for_run_completion_loop_ends:
  assumes "\<forall>m \<ge> n. deadline < gd_clock d m"
  shows "\<exists>y. wait_for_run_completion_loop deadline i d = Some y"
  using assms
proof (induction "n - gd_reads d" arbitrary: d rule: less_induct)
  case less
  obtain now d1 where nw: "disp_now d = (now, d1)" by fastforce
  obtain r d2 where fr: "get_run i d1 = (r, d2)" by fastforce
  obtain x d3 where p: "pause d2 = (x, d3)" by fastforce
  note ch = polls_chain [OF nw get_run_advances [OF fr] p]
  show ?case
  proof (cases "now > deadline")
    case True
    with nw show ?thesis by (subst wait_for_run_completion_loop.simps) simp
  next
    case False
    with less.prems nw have "gd_reads d < n" by (auto simp: disp_now_def not_le intro: ccontr)
    with ch(2) have "n - gd_reads d3 < n - gd_reads d" by simp
    moreover have "\<forall>m \<ge> n. deadline < gd_clock d3 m" using less.prems ch(3) by (simp add: same_setup_def)
    ultimately obtain y where "wait_for_run_completion_loop deadline i d3 = Some y" using less.hyps by blast
    with False nw fr p show ?thesis
      by (subst wait_for_run_completion_loop.simps) (simp split: sum.split)
  qed
qed

lemma wait_for_result_package_loop_ends:
  assumes "\<forall>m \<ge> n. deadline < gd_clock d m"
  shows "\<exists>y. wait_for_result_package_loop deadline i d = Some y"
  using assms
proof (induction "n - gd_reads d" arbitrary: d rule: less_induct)
  case less
  obtain r d1 where fr: "download_result_package i d = (r, d1)" by fastforce
  obtain now d2 where nw: "disp_now d1 = (now, d2)" by fastforce
  obtain x d3 where p: "pause d2 = (x, d3)" by fastforce
  note ad = download_advances [OF fr]
  note ch = polls_chain_late [OF ad nw p]
  show ?case
  proof (cases "now > deadline")
    case True
    with fr nw show ?thesis
      by (subst wait_for_result_package_loop.simps) (simp split: sum.split option.split)
  next
    case False
    have "gd_clock d1 = gd_clock d" "gd_reads d \<le> gd_reads d1" using ad by (simp_all add: advances_def same_setup_def)
    with False less.prems nw have "gd_reads d < n" by (auto simp: disp_now_def not_le intro: ccontr)
    with ch(2) have "n - gd_reads d3 < n - gd_reads d" by simp
    moreover have "\<forall>m \<ge> n. deadline < gd_clock d3 m" using less.prems ch(3) by (simp add: same_setup_def)
    ultimately obtain y where "wait_for_result_package_loop deadline i d3 = Some y" using less.hyps by blast
    with False nw fr p show ?thesis
      by (subst wait_for_result_package_loop.simps) (simp split: sum.split option.split)
  qed
qed

lemma dispatch_sends:
  assumes "github_dispatch_batch b d = (Inr t, e)"
  shows "length (gd_sent e) = Suc (length (gd_sent d))"
proof -
  have u: "update_server_clock s t1 t2 d1 = (x, d2) \<Longrightarrow> gd_sent d2 = gd_sent d1" for s t1 t2 d1 x d2
    by (auto simp: update_server_clock_def Let_def split: option.splits)
  have n: "server_now d1 = (x, d2) \<Longrightarrow> gd_sent d2 = gd_sent d1" for d1 x d2
    by (auto simp: server_now_def disp_now_def)
  have ex: "exchange what m ep body d0 = (Inr x, d1) \<Longrightarrow> length (gd_sent d1) = Suc (length (gd_sent d0))"
    for what m ep body d0 x d1
    by (auto simp: exchange_def http_do_def disp_now_def split: sum.splits)
  from assms obtain y d1 where x0: "exchange ''dispatch batch request'' ''POST''
      (repo_path d @ ''/actions/workflows/'' @ path_escape (gd_workflow d) @ ''/dispatches'')
      (Some (dispatch_payload b d)) d = (Inr y, d1)"
    and k0: "(case y of (r, t1, t2) \<Rightarrow> \<lambda>d. case update_server_clock (ar_date r) t1 t2 d of (accepted, d) \<Rightarrow>
           if ar_status r \<noteq> 204 then (Inl (status_error ''dispatch batch'' r), d)
           else (case accepted of
               Some t \<Rightarrow> (Inr t, d)
             | None \<Rightarrow> (case server_now d of (t, d) \<Rightarrow> (Inr t, d)))) d1 = (Inr t, e)"
    unfolding github_dispatch_batch_def and_then_Inr by blast
  obtain rp t1 t2 where y: "y = (rp, t1, t2)" by (metis prod_cases3)
  obtain acc d2 where a: "update_server_clock (ar_date rp) t1 t2 d1 = (acc, d2)" by fastforce
  obtain tn d3 where sn: "server_now d2 = (tn, d3)" by fastforce
  from k0 y a sn have "e = d2 \<or> e = d3" by (auto split: if_splits option.splits)
  with ex [OF x0] u [OF a] n [OF sn] show ?thesis by auto
qed

end
