(* ===== verification/Dispatcher_Theorems.thy ===== *)
theory Dispatcher_Theorems
  imports Github_Dispatcher Agent_Dispatch Agent_Sizes
begin

text \<open>
  What \<^verbatim>\<open>ProcessBatch\<close> promises: it returns, it starts at most one run, it talks to GitHub only, the
  payload it posts carries the batch, and a package it returns is valid and of this batch. The
  locale \<open>batch_processor\<close> is the interface the agent relies on; the dispatcher is an
  instance of it.
\<close>

subsection \<open>The calls of one batch\<close>

lemma then_loop_cases:
  assumes "then_loop m k = Some (r, e)"
  obtains err where "m = Some (Inl err, e)" "r = Inl err" | x d where "m = Some (Inr x, d)" "k x d = Some (r, e)"
  using assms by (auto simp: then_loop_def split: option.splits sum.splits)

lemma polls_same: "polls d e \<Longrightarrow> same_setup d e"
  by (simp add: advances_def)

lemma wait_polls:
  "wait_for_run i t d = Some (r, e) \<Longrightarrow> polls d e"
  "wait_for_run_completion n d = Some (r', e) \<Longrightarrow> polls d e"
  "wait_for_result_package i d = Some (r'', e) \<Longrightarrow> polls d e"
proof -
  obtain now d1 where n: "disp_now d = (now, d1)" by fastforce
  have d1: "polls d d1" by (rule polls_now [OF n])
  show "wait_for_run i t d = Some (r, e) \<Longrightarrow> polls d e"
    using wait_for_run_loop_polls [of _ i t d1 "(r, e)"] n by (auto simp: wait_for_run_def intro: polls_trans [OF d1])
  show "wait_for_run_completion n d = Some (r', e) \<Longrightarrow> polls d e"
    using wait_for_run_completion_loop_polls [of _ n d1 "(r', e)"] n
    by (auto simp: wait_for_run_completion_def intro: polls_trans [OF d1])
  show "wait_for_result_package i d = Some (r'', e) \<Longrightarrow> polls d e"
    using wait_for_result_package_loop_polls [of _ i d1 "(r'', e)"] n
    by (auto simp: wait_for_result_package_def intro: polls_trans [OF d1])
qed

lemma final_checks:
  assumes "(case validate_result_package pkg of
      Some e \<Rightarrow> Some (Inl (wrap_err ''result package validation failed: '' e), d)
    | None \<Rightarrow>
        if rp_protocol pkg \<noteq> result_package_protocol
        then Some (Inl (Err (''unexpected result protocol '' @ go_quote (rp_protocol pkg))), d)
        else if rp_batch_id pkg \<noteq> i
        then Some (Inl (Err (''batch id mismatch: want '' @ i @ '' got '' @ rp_batch_id pkg)), d)
        else Some (Inr pkg, d)) = Some (r, e)"
  shows "e = d" and "r = Inr p \<Longrightarrow> p = pkg \<and> validate_result_package pkg = None \<and> rp_batch_id pkg = i"
  using assms by (auto split: option.splits if_splits)

text \<open>The exchanges of a batch: polls, then possibly the one dispatch, then polls.\<close>

definition batch_calls :: "dispatcher \<Rightarrow> request_batch \<Rightarrow> nat set \<Rightarrow> dispatcher \<Rightarrow> bool" where
  "batch_calls d b N e \<longleftrightarrow>
     same_setup d e \<and>
     (\<exists>before posts after.
        gd_sent e = gd_sent d @ before @ posts @ after \<and>
        list_all (api_call d ''GET'' None) (before @ after) \<and>
        list_all (api_call d ''POST'' (Some (dispatch_payload b d))) posts \<and> length posts \<in> N)"

lemma polls_calls: "polls d e \<Longrightarrow> 0 \<in> N \<Longrightarrow> batch_calls d b N e"
proof -
  assume p: "polls d e" and z: "0 \<in> N"
  then obtain qs where "gd_sent e = gd_sent d @ qs @ [] @ []" "list_all (api_call d ''GET'' None) (qs @ [])"
    by (auto simp: advances_def)
  moreover have "same_setup d e" using p by (rule polls_same)
  moreover have "list_all (api_call d ''POST'' (Some (dispatch_payload b d))) []" "length [] \<in> N" using z by simp_all
  ultimately show ?thesis unfolding batch_calls_def by blast
qed

lemma calls_polls: "batch_calls d b N e \<Longrightarrow> polls e f \<Longrightarrow> batch_calls d b N f"
proof -
  assume c: "batch_calls d b N e" and p: "polls e f"
  from c have s: "same_setup d e" by (simp add: batch_calls_def)
  from p obtain qs where q: "gd_sent f = gd_sent e @ qs" "list_all (api_call d ''GET'' None) qs" "same_setup e f"
    unfolding advances_def api_call_setup [OF s] by blast
  from c obtain before posts after where "gd_sent e = gd_sent d @ before @ posts @ after"
    "list_all (api_call d ''GET'' None) (before @ after)"
    "list_all (api_call d ''POST'' (Some (dispatch_payload b d))) posts" "length posts \<in> N"
    unfolding batch_calls_def by blast
  with q have "gd_sent f = gd_sent d @ before @ posts @ (after @ qs)"
    "list_all (api_call d ''GET'' None) (before @ (after @ qs))"
    "list_all (api_call d ''POST'' (Some (dispatch_payload b d))) posts" "length posts \<in> N" by simp_all
  moreover have "same_setup d f" using s q(3) by (rule same_setup_trans)
  ultimately show ?thesis unfolding batch_calls_def by blast
qed

lemma dispatch_calls:
  assumes "polls d d1" and "github_dispatch_batch b d1 = (r, e)"
  shows "batch_calls d b (case r of Inl _ \<Rightarrow> {0, 1} | Inr _ \<Rightarrow> {1}) e"
proof -
  have s: "same_setup d d1" by (rule polls_same [OF assms(1)])
  have pl: "dispatch_payload b d1 = dispatch_payload b d" using s by (simp add: dispatch_payload_def same_setup_def)
  from dispatch_advances [OF assms(2)] obtain posts where
    p: "gd_sent e = gd_sent d1 @ posts" "list_all (api_call d ''POST'' (Some (dispatch_payload b d))) posts"
      "length posts \<le> 1" "same_setup d1 e"
    unfolding advances_def api_call_setup [OF s] pl by auto
  have n: "length posts \<in> (case r of Inl _ \<Rightarrow> {0, 1} | Inr _ \<Rightarrow> {1})"
    using p(1,3) dispatch_sends [of b d1 _ e] assms(2) by (cases r; cases posts) auto
  from assms(1) obtain qs where "gd_sent d1 = gd_sent d @ qs" "list_all (api_call d ''GET'' None) qs"
    by (auto simp: advances_def)
  with p have "gd_sent e = gd_sent d @ qs @ posts @ []" "list_all (api_call d ''GET'' None) (qs @ [])"
    by simp_all
  moreover have "same_setup d e" using s p(4) by (rule same_setup_trans)
  ultimately show ?thesis using p(2) n unfolding batch_calls_def by blast
qed

lemma calls_mono: "batch_calls d b N e \<Longrightarrow> N \<subseteq> M \<Longrightarrow> batch_calls d b M e"
  unfolding batch_calls_def by blast

text \<open>One stage: it keeps \<open>Q\<close>, and the claim follows from \<open>Q\<close> when it is the last one.\<close>

lemma stage:
  assumes "then_loop m k = Some (r, e)" and "\<And>x d. m = Some (x, d) \<Longrightarrow> Q d"
    and "\<And>x d. m = Some (Inr x, d) \<Longrightarrow> Q d \<Longrightarrow> k x d = Some (r, e) \<Longrightarrow> R"
    and "\<And>err. r = Inl err \<Longrightarrow> Q e \<Longrightarrow> R"
  shows R
  using assms(1)
proof (rule then_loop_cases)
  fix err
  assume "m = Some (Inl err, e)" "r = Inl err"
  with assms(2,4) show R by blast
next
  fix x d
  assume "m = Some (Inr x, d)" "k x d = Some (r, e)"
  with assms(2,3) show R by blast
qed

lemma process_batch_calls:
  assumes "process_batch b d = Some (r, e)"
  shows "batch_calls d b {0, 1} e \<and> (\<forall>pkg. r = Inr pkg \<longrightarrow> validate_request_batch b = None \<and>
    validate_result_package pkg = None \<and> rp_batch_id pkg = rb_batch_id b \<and> batch_calls d b {1} e)" (is "?goal")
proof (cases "validate_request_batch b")
  case (Some err)
  with assms show ?thesis by (auto simp: process_batch_def intro: polls_calls)
next
  case None
  note v = this
  let ?Q = "batch_calls d b {1}"
  have bad: "r = Inl err \<Longrightarrow> ?Q e \<Longrightarrow> ?goal" for err using calls_mono [of d b "{1}" e "{0, 1}"] by simp
  from assms have run: "then_loop (Some (sync_server_clock d)) (\<lambda>_ d.
          then_loop (Some (github_dispatch_batch b d)) (\<lambda>dispatched_at d.
          then_loop (wait_for_run (rb_batch_id b) (normalize_github_timestamp dispatched_at) d) (\<lambda>run_id d.
          then_loop (wait_for_run_completion run_id d) (\<lambda>_ d.
          then_loop (wait_for_result_package (rb_batch_id b) d) (\<lambda>pkg d.
            case validate_result_package pkg of
              Some e \<Rightarrow> Some (Inl (wrap_err ''result package validation failed: '' e), d)
            | None \<Rightarrow>
                if rp_protocol pkg \<noteq> result_package_protocol
                then Some (Inl (Err (''unexpected result protocol '' @ go_quote (rp_protocol pkg))), d)
                else if rp_batch_id pkg \<noteq> rb_batch_id b
                then Some (Inl (Err (''batch id mismatch: want '' @ rb_batch_id b @ '' got '' @ rp_batch_id pkg)), d)
                else Some (Inr pkg, d)))))) = Some (r, e)"
    by (simp only: process_batch_def v option.case)
  show ?thesis
  proof (rule stage [OF run, of "polls d"], goal_cases)
    case (1 x d1)
    then show ?case by (auto dest: sync_advances)
  next
    case (2 x d1)
    from 2(3) show ?case
    proof (rule then_loop_cases, goal_cases)
      case (1 err)
      with dispatch_calls [OF 2(2), of b "Inl err" e] show ?case by simp
    next
      case (2 t d2)
      then have "?Q d2" using dispatch_calls [OF \<open>polls d d1\<close>, of b "Inr t" d2] by simp
      note q2 = this
      show ?case
      proof (rule stage [OF 2(2), of ?Q], goal_cases)
        case (1 x d3)
        with q2 show ?case by (blast intro: calls_polls dest: wait_polls)
      next
        case (2 n d3)
        show ?case
        proof (rule stage [OF 2(3), of ?Q], goal_cases)
          case (1 x d4)
          with 2(2) show ?case by (blast intro: calls_polls dest: wait_polls)
        next
          case (2 u d4)
          show ?case
          proof (rule stage [OF 2(3), of ?Q], goal_cases)
            case (1 x d5)
            with 2(2) show ?case by (blast intro: calls_polls dest: wait_polls)
          next
            case (2 pkg d5)
            from final_checks [OF 2(3)] 2(2) v calls_mono [of d b "{1}" d5 "{0, 1}"] show ?case by auto
          qed (rule bad)
        qed (rule bad)
      qed (rule bad)
    qed
  next
    case (3 err)
    then show ?case using polls_calls [of d e "{0, 1}"] by simp
  qed
qed

subsection \<open>It returns\<close>

lemma then_loop_ends:
  assumes "m \<noteq> None" and "\<And>x d. m = Some (Inr x, d) \<Longrightarrow> k x d \<noteq> None"
  shows "then_loop m k \<noteq> None"
  using assms by (auto simp: then_loop_def split: sum.splits)

lemma wait_ends:
  assumes "time_passes d"
  shows "wait_for_run i t d \<noteq> None" and "wait_for_run_completion n d \<noteq> None"
    and "wait_for_result_package i d \<noteq> None"
proof -
  obtain now d1 where nw: "disp_now d = (now, d1)" by fastforce
  then have "gd_clock d1 = gd_clock d" by (auto simp: disp_now_def)
  with assms have late: "\<exists>n. \<forall>m \<ge> n. t < gd_clock d1 m" for t by (simp add: time_passes_def)
  obtain n1 where "\<forall>m \<ge> n1. now + gd_run_start_timeout d1 < gd_clock d1 m" using late by blast
  from wait_for_run_loop_ends [OF this] nw show "wait_for_run i t d \<noteq> None" by (auto simp: wait_for_run_def)
  obtain n2 where n2: "\<forall>m \<ge> n2. now + gd_run_completion_timeout d1 < gd_clock d1 m" using late by blast
  from wait_for_run_completion_loop_ends [OF n2] nw show "wait_for_run_completion n d \<noteq> None"
    by (auto simp: wait_for_run_completion_def)
  from wait_for_result_package_loop_ends [OF n2] nw show "wait_for_result_package i d \<noteq> None"
    by (auto simp: wait_for_result_package_def)
qed

lemma polls_time: "polls d e \<Longrightarrow> time_passes d \<Longrightarrow> time_passes e"
  using polls_same time_passes_setup by blast

lemma process_batch_ends_lemma:
  assumes "time_passes d"
  shows "process_batch b d \<noteq> None"
proof (cases "validate_request_batch b")
  case (Some e)
  then show ?thesis by (simp add: process_batch_def)
next
  case None
  have step2: "time_passes d2" if "sync_server_clock d = (Inr x, d1)" "github_dispatch_batch b d1 = (Inr t, d2)" for x d1 t d2
    using assms that sync_advances [OF that(1)] dispatch_advances(1) [OF that(2)]
    by (metis advances_def polls_time time_passes_setup)
  have step3: "time_passes d3" if "time_passes d2" "wait_for_run i t d2 = Some (Inr n, d3)" for d2 i t n d3
    using that wait_polls(1) polls_time by blast
  have step4: "time_passes d3" if "time_passes d2" "wait_for_run_completion n d2 = Some (Inr u, d3)" for d2 n u d3
    using that wait_polls(2) polls_time by blast
  show ?thesis
    unfolding process_batch_def None option.case
  proof (intro then_loop_ends, simp, simp, goal_cases)
    case (1 x d1 t d2)
    then show ?case using wait_ends(1) [OF step2] by auto
  next
    case (2 x d1 t d2 n d3)
    then show ?case using wait_ends(2) [OF step3 [OF step2]] by auto
  next
    case (3 x d1 t d2 n d3 u d4)
    then show ?case using wait_ends(3) [OF step4 [OF step3 [OF step2]]] by auto
  qed (simp split: option.split)
qed

text \<open>
  C28. \<^verbatim>\<open>ProcessBatch\<close> returns: in a world where time passes every instant, the three polling
  loops end whatever GitHub answers, and so does the call.
\<close>

theorem process_batch_returns:
  assumes "time_passes d"
  shows "\<exists>r e. process_batch b d = Some (r, e)"
  using process_batch_ends_lemma [OF assms, of b] by auto

text \<open>
  The requests of one \<^verbatim>\<open>ProcessBatch\<close>: GETs but for at most one POST, which carries the payload of
  the batch; every one carries the token.
\<close>

definition dispatches_once :: "dispatcher \<Rightarrow> request_batch \<Rightarrow> dispatcher \<Rightarrow> bool" where
  "dispatches_once d b e \<longleftrightarrow>
     (\<exists>before posts after.
        gd_sent e = gd_sent d @ before @ posts @ after \<and> length posts \<le> 1 \<and>
        (\<forall>q \<in> set (before @ after). aq_method q = ''GET'' \<and> aq_body q = None) \<and>
        (\<forall>q \<in> set posts. aq_method q = ''POST'' \<and> aq_body q = Some (dispatch_payload b d)) \<and>
        (\<forall>q \<in> set (before @ posts @ after).
           gomap_get (aq_headers q) ''Authorization'' = ''Bearer '' @ gd_token d))"

lemma api_call_fields:
  assumes "api_call d m body q"
  shows "aq_method q = m" and "aq_body q = body"
    and "gomap_get (aq_headers q) ''Authorization'' = ''Bearer '' @ gd_token d"
proof -
  from assms obtain b t where "new_json_request m (b @ ''/'' @ t) body d = Inr q" unfolding api_call_def by blast
  then obtain u x where q: "q = \<lparr> aq_method = m, aq_url = u,
     aq_headers = [(''Accept'', ''application/vnd.github+json''), (''Authorization'', ''Bearer '' @ gd_token d)] @ x,
     aq_body = body \<rparr>"
    by (cases "url_parse (b @ ''/'' @ t)") (auto simp: new_json_request_def)
  then show "aq_method q = m" "aq_body q = body" by simp_all
  have "map_of (aq_headers q) ''Authorization'' = Some (''Bearer '' @ gd_token d)" by (simp add: q)
  then show "gomap_get (aq_headers q) ''Authorization'' = ''Bearer '' @ gd_token d"
    unfolding gomap_get_def by (simp only: option.case)
qed

lemma calls_once:
  assumes "batch_calls d b N e" and "N \<subseteq> {0, 1}"
  shows "dispatches_once d b e"
proof -
  from assms(1) obtain before posts after where
    s: "gd_sent e = gd_sent d @ before @ posts @ after" and g: "list_all (api_call d ''GET'' None) (before @ after)"
    and p: "list_all (api_call d ''POST'' (Some (dispatch_payload b d))) posts" and n: "length posts \<in> N"
    unfolding batch_calls_def by blast
  from g have "\<forall>q \<in> set (before @ after). aq_method q = ''GET'' \<and> aq_body q = None \<and>
      gomap_get (aq_headers q) ''Authorization'' = ''Bearer '' @ gd_token d"
    using api_call_fields unfolding list_all_iff by blast
  moreover from p have "\<forall>q \<in> set posts. aq_method q = ''POST'' \<and> aq_body q = Some (dispatch_payload b d) \<and>
      gomap_get (aq_headers q) ''Authorization'' = ''Bearer '' @ gd_token d"
    using api_call_fields unfolding list_all_iff by blast
  moreover from n assms(2) have "length posts \<le> 1" by auto
  ultimately show ?thesis using s unfolding dispatches_once_def by (intro exI [of _ before] exI [of _ posts] exI [of _ after]) auto
qed

text \<open>What a returned package is: of a valid batch, dispatched exactly once, valid, and of this batch.\<close>

definition package_answers :: "dispatcher \<Rightarrow> request_batch \<Rightarrow> result_package \<Rightarrow> dispatcher \<Rightarrow> bool" where
  "package_answers d b pkg e \<longleftrightarrow>
     validate_request_batch b = None \<and> validate_result_package pkg = None \<and> rp_batch_id pkg = rb_batch_id b \<and>
     (\<exists>q \<in> set (drop (length (gd_sent d)) (gd_sent e)).
        aq_method q = ''POST'' \<and> aq_body q = Some (dispatch_payload b d))"

definition outcome_ok :: "dispatcher \<Rightarrow> request_batch \<Rightarrow> result_package res \<Rightarrow> dispatcher \<Rightarrow> bool" where
  "outcome_ok d b r e \<longleftrightarrow> (case r of Inl _ \<Rightarrow> True | Inr pkg \<Rightarrow> package_answers d b pkg e)"

lemma process_batch_outcome:
  assumes "process_batch b d = Some (r, e)"
  shows "dispatches_once d b e \<and> outcome_ok d b r e"
proof -
  note c = process_batch_calls [OF assms]
  then have "dispatches_once d b e" by (blast intro: calls_once)
  moreover have "package_answers d b pkg e" if "r = Inr pkg" for pkg
  proof -
    from c that have v: "validate_request_batch b = None" "validate_result_package pkg = None" "rp_batch_id pkg = rb_batch_id b"
      and "batch_calls d b {1} e" by simp_all
    then obtain before q after where s: "gd_sent e = gd_sent d @ before @ [q] @ after"
      and q: "api_call d ''POST'' (Some (dispatch_payload b d)) q"
      unfolding batch_calls_def by (auto simp: length_Suc_conv)
    have "q \<in> set (drop (length (gd_sent d)) (gd_sent e))" by (simp add: s)
    with v api_call_fields [OF q] show ?thesis unfolding package_answers_def by blast
  qed
  ultimately show ?thesis by (simp add: outcome_ok_def split: sum.split)
qed

text \<open>
  C29. A batch is dispatched at most once. The requests of one \<^verbatim>\<open>ProcessBatch\<close> are GETs but for at
  most one POST, which carries the payload of this batch and stands before every poll for its run;
  and when a package is returned the batch was valid, and the package is valid and names it.
\<close>

theorem process_batch_once:
  assumes "process_batch b d = Some (r, e)"
  shows "dispatches_once d b e \<and> outcome_ok d b r e"
  by (rule process_batch_outcome [OF assms])

text \<open>Every request a dispatcher sends is below its base URL.\<close>

lemma batch_calls_requests:
  assumes "batch_calls d b N e"
  shows "\<exists>qs. gd_sent e = gd_sent d @ qs \<and> (\<forall>q \<in> set qs. \<exists>m body. api_call d m body q)"
proof -
  from assms obtain before posts after where
    "gd_sent e = gd_sent d @ (before @ posts @ after)" "list_all (api_call d ''GET'' None) (before @ after)"
    "list_all (api_call d ''POST'' (Some (dispatch_payload b d))) posts"
    unfolding batch_calls_def by blast
  then show ?thesis unfolding list_all_iff by (intro exI [of _ "before @ posts @ after"]) auto
qed

subsection \<open>GitHub only\<close>

text \<open>
  A request to GitHub: https, and the host of a base URL whose name is github.com or ends in
  .github.com and which names no port (a bare colon aside, which \<^verbatim>\<open>http.NewRequest\<close> drops).
\<close>

definition to_github :: "api_request \<Rightarrow> bool" where
  "to_github q \<longleftrightarrow>
     u_scheme (aq_url q) = ''https'' \<and>
     (\<exists>u. is_github_host (go_lower (url_hostname u)) \<and> url_port u = [] \<and>
          u_host (aq_url q) = remove_empty_port (u_host u))"

lemma trim_slashes_idem [simp]: "trim_slashes (trim_slashes s) = trim_slashes s"
  by (simp add: trim_slashes_def)

lemma api_call_github:
  assumes "gd_base_url d = trim_slashes raw" and "trim_space raw = raw" and "github_base_url raw"
    and "api_call d m body q"
  shows "to_github q"
proof -
  from assms(2,3) obtain u where u: "url_parse raw = Inr u" "u_scheme u = ''https''" "url_port u = []"
    and g: "is_github_host (go_lower (url_hostname u))"
    unfolding github_base_url_def github_host_suffix [symmetric] by auto
  have "u_host u \<noteq> []"
  proof
    assume "u_host u = []"
    then have "go_lower (url_hostname u) = []" by (simp add: url_hostname_def url_split_port_def last_index_byte_def)
    with g show False by (simp add: is_github_host_def has_suffix_def)
  qed
  moreover from assms(1,4) obtain t where "new_json_request m (trim_slashes raw @ ''/'' @ t) body d = Inr q"
    unfolding api_call_def by auto
  then obtain v where v: "url_parse (trim_slashes raw @ ''/'' @ t) = Inr v"
    "u_scheme (aq_url q) = u_scheme v" "u_host (aq_url q) = remove_empty_port (u_host v)"
    by (auto simp: new_json_request_def split: sum.splits)
  ultimately have "u_host v = u_host u" "u_scheme v = u_scheme u"
    using url_extend_host [OF u(1) _ _ v(1)] u(2) by simp_all
  with u g v show ?thesis unfolding to_github_def by metis
qed

lemma loaded_base_url:
  assumes "config_load p h = (Inr c, h')"
  shows "trim_space (cf_github_api_base_url c) = cf_github_api_base_url c" and "github_base_url (cf_github_api_base_url c)"
  using assms by (auto simp: config_load_ok config_finish_def normalize_config_def config_valid_def)

definition github_requests :: "dispatcher \<Rightarrow> dispatcher \<Rightarrow> bool" where
  "github_requests d e \<longleftrightarrow> (\<exists>qs. gd_sent e = gd_sent d @ qs \<and> (\<forall>q \<in> set qs. to_github q))"


subsection \<open>The payload\<close>

lemma b64_char_ascii: "n < 64 \<Longrightarrow> is_ascii (b64_char n)"
  by (auto simp: b64_char_def is_ascii_def)

lemma b64_encode_ascii: "list_all is_ascii (b64_encode s)"
proof -
  have "is_ascii CHR ''=''" by code_simp
  then show ?thesis by (induction s rule: b64_encode.induct) (simp_all add: b64_char_ascii)
qed

lemma itoa_ascii: "list_all is_ascii (itoa i)"
proof -
  have d: "is_digit c \<Longrightarrow> is_ascii c" for c
    by (auto simp: is_digit_def is_ascii_def less_eq_char_def)
  have "list_all is_ascii (nat_digits n)" for n
    using nat_digits_all_digits [of n] d unfolding list_all_iff by blast
  moreover have "is_ascii CHR ''-''" by code_simp
  ultimately show ?thesis by (simp add: itoa_def)
qed

lemma string_map_flat: "no_frac (json_string_map m)" "json_depth (json_string_map m) \<le> 1"
proof -
  show "no_frac (json_string_map m)" by (auto simp: json_string_map_def list_all_iff)
  have "foldr max (map (\<lambda>(k, v). json_depth v) (map (\<lambda>(k, v). (k, JStr v)) kvs)) 0 = 0" for kvs
    by (induction kvs) auto
  then show "json_depth (json_string_map m) \<le> 1" by (simp add: json_string_map_def)
qed

lemma depth_list: "(\<And>x. x \<in> set xs \<Longrightarrow> h x \<le> n) \<Longrightarrow> foldr max (map h xs) 0 \<le> (n :: nat)"
  by (induction xs) auto

lemma batch_json_shape: "no_frac (batch_json b)" "json_depth (batch_json b) \<le> json_max_depth"
proof -
  have body: "no_frac (body_json x)" "json_depth (body_json x) \<le> 1" for x
    by (auto simp: body_json_def split: option.split)
  have item: "no_frac (item_json r)" "json_depth (item_json r) \<le> 2" for r
    using body string_map_flat by (auto simp: item_json_def)
  show "no_frac (batch_json b)" using item(1) by (simp add: batch_json_def list_all_iff)
  have "foldr max (map json_depth (map item_json (rb_requests b))) 0 \<le> 2"
    by (rule depth_list) (use item(2) in auto)
  then show "json_depth (batch_json b) \<le> json_max_depth"
    by (simp add: batch_json_def json_max_depth_def)
qed

text \<open>The text a member of the inputs object carries.\<close>

fun payload_input :: "json \<Rightarrow> string \<Rightarrow> string option" where
  "payload_input (JObj [(_, JObj inputs), _]) k =
     (case map_of inputs k of Some (JStr s) \<Rightarrow> Some s | _ \<Rightarrow> None)"
| "payload_input _ k = None"

text \<open>What the worker finds in a dispatch: the batch, and its limits as decimal numbers.\<close>

definition payload_carries :: "string \<Rightarrow> request_batch \<Rightarrow> bool" where
  "payload_carries text b \<longleftrightarrow>
     (\<exists>j b64 raw. json_read text = Some j \<and>
        payload_input j ''batch_id'' = Some (utf8_fix (rb_batch_id b)) \<and>
        payload_input j ''batch_payload_b64'' = Some b64 \<and> b64_decode b64 = Inr raw \<and>
        json_read raw = Some (json_fix (batch_json b)) \<and>
        payload_input j ''max_response_bytes_per_request'' = Some (itoa (max_response_bytes_per_request (rb_limits b))) \<and>
        payload_input j ''request_timeout_ms'' = Some (itoa (request_timeout_ms (rb_limits b))) \<and>
        payload_input j ''worker_concurrency'' = Some (itoa (worker_concurrency (rb_limits b))))"

lemma sort_inputs:
  "sort_key fst [(''batch_id'', a), (''batch_payload_b64'', b), (''max_response_bytes_per_request'', c),
     (''request_timeout_ms'', d), (''worker_concurrency'', e)] =
   [(''batch_id'', a), (''batch_payload_b64'', b), (''max_response_bytes_per_request'', c),
     (''request_timeout_ms'', d), (''worker_concurrency'', e)]"
  by (rule sort_key_id_if_sorted) (simp add: less_eq_list_code less_list_code)

lemma payload_read:
  "json_read (dispatch_payload b d) = Some (JObj
     [(''inputs'', JObj
         [(''batch_id'', JStr (utf8_fix (rb_batch_id b))),
          (''batch_payload_b64'', JStr (b64_encode (json_text (batch_json b)))),
          (''max_response_bytes_per_request'', JStr (itoa (max_response_bytes_per_request (rb_limits b)))),
          (''request_timeout_ms'', JStr (itoa (request_timeout_ms (rb_limits b)))),
          (''worker_concurrency'', JStr (itoa (worker_concurrency (rb_limits b))))]),
      (''ref'', JStr (utf8_fix (gd_workflow_ref d)))])"
proof -
  let ?in = "json_string_map
         [(''batch_id'', rb_batch_id b),
          (''batch_payload_b64'', b64_encode (json_text (batch_json b))),
          (''max_response_bytes_per_request'', itoa (max_response_bytes_per_request (rb_limits b))),
          (''request_timeout_ms'', itoa (request_timeout_ms (rb_limits b))),
          (''worker_concurrency'', itoa (worker_concurrency (rb_limits b)))]"
  have names: "list_all (list_all is_ascii) [''inputs'', ''ref'', ''batch_id'', ''batch_payload_b64'',
    ''max_response_bytes_per_request'', ''request_timeout_ms'', ''worker_concurrency'']" by code_simp
  have "json_depth (JObj [(''inputs'', ?in), (''ref'', JStr (gd_workflow_ref d))]) \<le> json_max_depth"
    using string_map_flat(2) [of "[(''batch_id'', rb_batch_id b),
          (''batch_payload_b64'', b64_encode (json_text (batch_json b))),
          (''max_response_bytes_per_request'', itoa (max_response_bytes_per_request (rb_limits b))),
          (''request_timeout_ms'', itoa (request_timeout_ms (rb_limits b))),
          (''worker_concurrency'', itoa (worker_concurrency (rb_limits b)))]"]
    by (simp add: json_max_depth_def)
  moreover have "no_frac (JObj [(''inputs'', ?in), (''ref'', JStr (gd_workflow_ref d))])"
    using string_map_flat(1) by simp
  ultimately have "json_read (dispatch_payload b d) =
      Some (json_fix (JObj [(''inputs'', ?in), (''ref'', JStr (gd_workflow_ref d))]))"
    unfolding dispatch_payload_def by (intro json_read_text)
  with names show ?thesis
    by (simp add: json_string_map_def sort_inputs utf8_fix_ascii b64_encode_ascii itoa_ascii)
qed

text \<open>
  C31. The dispatch payload round-trips: reading it back gives the inputs object, whose
  \<^verbatim>\<open>batch_payload_b64\<close> decodes from base64 and JSON to the batch (invalid UTF-8 in its strings
  replaced), and whose other inputs are its identifier and its limits.
\<close>

theorem dispatch_payload_round_trip: "payload_carries (dispatch_payload b d) b"
  unfolding payload_carries_def payload_read
  by (simp add: b64_round_trip json_read_text [OF batch_json_shape])

subsection \<open>The interface of the agent\<close>

text \<open>
  The agent's dispatch of a chunk around a call that has a state of its own and may not return
  (\<open>None\<close>).
\<close>

definition relay_batch ::
  "(request_batch \<Rightarrow> 's \<Rightarrow> (result_package res \<times> 's) option) \<Rightarrow> pending_request list \<Rightarrow> agent \<Rightarrow> 's \<Rightarrow>
   (agent \<times> 's) option" where
  "relay_batch process requests a s =
     (case dispatch_begin requests a of
        (None, a) \<Rightarrow> Some (a, s)
      | (Some fl, a) \<Rightarrow>
          (case process (fl_batch fl) s of
             None \<Rightarrow> None
           | Some (r, s) \<Rightarrow> Some (dispatch_finish fl r a, s)))"

text \<open>
  What \<^verbatim>\<open>BatchDispatcher\<close> (\<^verbatim>\<open>agent.go\<close>) stands for: a call that returns while its world is live and
  stays live, and whose packages are valid and name the batch.
\<close>

locale batch_processor =
  fixes process :: "request_batch \<Rightarrow> 's \<Rightarrow> (result_package res \<times> 's) option"
    and live :: "'s \<Rightarrow> bool"
  assumes returned_package: "process b s = Some (Inr pkg, s') \<Longrightarrow>
      validate_result_package pkg = None \<and> rp_batch_id pkg = rb_batch_id b"
    and returns: "live s \<Longrightarrow> \<exists>r s'. process b s = Some (r, s') \<and> live s'"
begin

lemma relay_answers:
  assumes "live s" and "cache_shape a"
  shows "\<exists>a' s' ps. relay_batch process requests a s = Some (a', s') \<and> live s' \<and>
    mset ps = mset requests \<and> answers a ps a' \<and> keeps a a'"
proof (cases "dispatch_begin requests a")
  case (Pair fl a1)
  show ?thesis
  proof (cases fl)
    case None
    with Pair assms(1) have r: "relay_batch process requests a s = Some (a1, s)" and
      d: "dispatch_batch (\<lambda>_. Inl (Err [])) requests a = a1"
      by (simp_all add: relay_batch_def dispatch_batch_def)
    from dispatch_batch_spec [OF assms(2), where process = "\<lambda>_. Inl (Err [])" and requests = requests] r assms(1) show ?thesis
      unfolding d by blast
  next
    case (Some f)
    from returns [OF assms(1)] obtain r s' where p: "process (fl_batch f) s = Some (r, s')" "live s'" by blast
    with Pair Some have q: "relay_batch process requests a s = Some (dispatch_finish f r a1, s')"
      and d: "dispatch_batch (\<lambda>_. r) requests a = dispatch_finish f r a1"
      by (simp_all add: relay_batch_def dispatch_batch_def)
    from dispatch_batch_spec [OF assms(2), where process = "\<lambda>_. r" and requests = requests] q p(2) show ?thesis
      unfolding d by blast
  qed
qed

text \<open>The only check of the agent a returned package can fail is that it covers the requests.\<close>

lemma verify_is_coverage:
  assumes "process b s = Some (Inr pkg, s')"
  shows "verify_result_package_for_batch pkg (rb_batch_id b) ids = None \<longleftrightarrow>
    rr_request_id ` set (rp_results pkg) = set ids"
  using returned_package [OF assms]
  by (simp add: verify_package_lemma package_covers_def validate_package_lemma)

end

lemma process_batch_live: "process_batch b d = Some (r, e) \<Longrightarrow> time_passes d \<Longrightarrow> time_passes e"
  using process_batch_calls [of b d r e] time_passes_setup unfolding batch_calls_def by blast

interpretation github: batch_processor process_batch time_passes
proof
  fix b d pkg e
  assume "process_batch b d = Some (Inr pkg, e)"
  from process_batch_calls [OF this] show "validate_result_package pkg = None \<and> rp_batch_id pkg = rb_batch_id b"
    by blast
next
  fix d :: dispatcher and b
  assume t: "time_passes d"
  from process_batch_ends_lemma [OF t, of b] obtain r e where "process_batch b d = Some (r, e)" by auto
  with process_batch_live [OF this t] show "\<exists>r e. process_batch b d = Some (r, e) \<and> time_passes e" by blast
qed

text \<open>
  The agent over the GitHub dispatcher: while time passes, the dispatch of a chunk returns
  whatever GitHub does, and every request of the chunk is answered exactly once; the next dispatch
  finds the same conditions.
\<close>

lemma github_relay_answers:
  assumes "time_passes d" and "cache_shape a"
  shows "\<exists>a' d' ps. relay_batch process_batch requests a d = Some (a', d') \<and> time_passes d' \<and>
    mset ps = mset requests \<and> answers a ps a' \<and> keeps a a'"
  by (rule github.relay_answers [OF assms])

end
