(* ===== verification/Dispatcher_Scenario.thy ===== *)
theory Dispatcher_Scenario
  imports Dispatcher_Theorems Agent_Scenario
begin

text \<open>
  A run of the dispatcher from end to end, on concrete replies: the clock is synchronised, the
  batch is dispatched, its run is found and completed, and the package is downloaded. It shows
  that the properties of \<^verbatim>\<open>ProcessBatch\<close> speak about runs that succeed.
\<close>

subsection \<open>The replies\<close>

definition sample_batch :: request_batch where
  "sample_batch = make_batch ''b1'' ''2026-01-01T00:00:00Z'' sample_base [sample_item]"

definition sample_now :: time where "sample_now = 63902822400000000000"

definition sample_result_json :: json where
  "sample_result_json = JObj
     [(''request_id'', JStr ''req-616161616161616161616161''), (''ok'', JBool False), (''response'', JNull),
      (''error'', JObj [(''code'', JStr ''TIMEOUT''), (''message'', JStr ''late'')])]"

definition sample_package_json :: json where
  "sample_package_json = JObj
     [(''protocol'', JStr ''actionrelay.result_package.v1''), (''batch_id'', JStr ''b1''), (''ok'', JBool True),
      (''results'', JArr [sample_result_json])]"

definition sample_package :: result_package where
  "sample_package = \<lparr> rp_protocol = result_package_protocol, rp_batch_id = ''b1'', rp_ok = True,
     rp_results = [\<lparr> rr_request_id = ''req-616161616161616161616161'', rr_ok = False, rr_response = None,
       rr_error = Some \<lparr> re_code = ''TIMEOUT'', re_message = ''late'' \<rparr> \<rparr>] \<rparr>"

definition sample_bodies :: "json list" where
  "sample_bodies =
     [JObj [], JObj [],
      JObj [(''workflow_runs'', JArr [JObj [(''id'', JNum 7), (''display_title'', JStr ''relay b1''),
                                         (''created_at'', JStr ''2026-01-01T00:00:00Z'')]])],
      JObj [(''status'', JStr ''completed''), (''conclusion'', JStr ''success'')],
      JObj [(''type'', JStr ''file''), (''encoding'', JStr ''base64''),
            (''content'', JStr (b64_encode (json_text sample_package_json)))]]"

definition sample_reply :: "nat \<Rightarrow> api_reply" where
  "sample_reply n = \<lparr> ar_status = (if n = 1 then 204 else 200), ar_date = [],
     ar_body = json_text (sample_bodies ! n) \<rparr>"

definition sample_dispatcher :: dispatcher where
  "sample_dispatcher = \<lparr> gd_base_url = ''https://api.github.com'', gd_owner = ''o'', gd_repo = ''r'',
     gd_workflow = ''relay.yml'', gd_workflow_ref = ''main'', gd_token = ''t'', gd_poll_interval = 2000 * millisecond,
     gd_run_start_timeout = 120 * second, gd_run_completion_timeout = 900 * second, gd_clock_offset = 0,
     gd_clock_synced = False, gd_clock = (\<lambda>_. sample_now), gd_reads = 0, gd_net = (\<lambda>n. Inr (sample_reply n)),
     gd_sent = [], gd_ctx = (\<lambda>_. None), gd_waits = 0, gd_parse_date = (\<lambda>_. Some sample_now) \<rparr>"

text \<open>The dispatcher after \<open>n\<close> requests.\<close>

definition after_calls :: "nat \<Rightarrow> dispatcher \<Rightarrow> bool" where
  "after_calls n d \<longleftrightarrow> same_setup sample_dispatcher d \<and> length (gd_sent d) = n"

definition parses :: "string \<Rightarrow> bool" where
  "parses s \<longleftrightarrow> (case url_parse s of Inl _ \<Rightarrow> False | Inr _ \<Rightarrow> True)"

lemma sample_exchange:
  assumes "after_calls n d" and "parses ep"
  shows "\<exists>d'. exchange what m ep body d = (Inr (sample_reply n, sample_now, sample_now), d') \<and> after_calls (Suc n) d'"
proof -
  from assms(2) obtain u where "url_parse ep = Inr u" by (auto simp: parses_def split: sum.splits)
  with assms(1) show ?thesis
    by (auto simp: exchange_def new_json_request_def disp_now_def http_do_def after_calls_def same_setup_def sample_dispatcher_def)
qed

lemma sample_clock_step:
  assumes "after_calls n d"
  shows "\<exists>d'. update_server_clock s t1 t2 d = (Some sample_now, d') \<and> after_calls n d'"
  using assms by (auto simp: update_server_clock_def Let_def after_calls_def same_setup_def sample_dispatcher_def)

lemma sample_disp_now:
  assumes "after_calls n d"
  shows "\<exists>d'. disp_now d = (sample_now, d') \<and> after_calls n d'"
  using assms by (auto simp: disp_now_def after_calls_def same_setup_def sample_dispatcher_def)

lemma sample_timeouts:
  assumes "after_calls n d"
  shows "\<not> sample_now + gd_run_start_timeout d < sample_now" "\<not> sample_now + gd_run_completion_timeout d < sample_now"
  using assms by (simp_all add: after_calls_def same_setup_def sample_dispatcher_def second_def)

text \<open>An exchange and the clock update after it, the shape of every call but the first.\<close>

lemma sample_call:
  assumes "after_calls n d" and "parses ep"
    and "\<And>d. after_calls (Suc n) d \<Longrightarrow> k (sample_reply n) (Some sample_now) d = (x, d)"
  shows "\<exists>d'. and_then (exchange what m ep body d) (\<lambda>(r, t1, t2) d.
      case update_server_clock (ar_date r) t1 t2 d of (acc, d) \<Rightarrow> k r acc d) = (x, d') \<and> after_calls (Suc n) d'"
proof -
  from sample_exchange [OF assms(1,2)] obtain d1 where
    e: "exchange what m ep body d = (Inr (sample_reply n, sample_now, sample_now), d1)" "after_calls (Suc n) d1" by blast
  from sample_clock_step [OF e(2)] obtain d2 where
    u: "update_server_clock (ar_date (sample_reply n)) sample_now sample_now d1 = (Some sample_now, d2)"
    "after_calls (Suc n) d2" by blast
  show ?thesis by (simp add: e(1) u assms(3) [OF u(2)])
qed

lemma sample_paths:
  assumes "after_calls n d"
  shows "parses (trim_slashes (gd_base_url d) @ ''/rate_limit'')"
    and "parses (repo_path d @ ''/actions/workflows/'' @ path_escape (gd_workflow d) @ ''/dispatches'')"
    and "parses (repo_path d @ ''/actions/workflows/'' @ path_escape (gd_workflow d) @
          ''/runs?event=workflow_dispatch&per_page=30'')"
    and "parses (repo_path d @ ''/actions/runs/'' @ itoa 7)"
    and "parses (repo_path d @ ''/contents/results/'' @ path_escape ''b1'' @ ''.json?ref=actionrelay-results'')"
proof -
  have p: "parses (trim_slashes ''https://api.github.com'' @ ''/rate_limit'')"
    "parses (''https://api.github.com/repos/o/r/actions/workflows/'' @ path_escape ''relay.yml'' @ ''/dispatches'')"
    "parses (''https://api.github.com/repos/o/r/actions/workflows/'' @ path_escape ''relay.yml'' @
       ''/runs?event=workflow_dispatch&per_page=30'')"
    "parses (''https://api.github.com/repos/o/r/actions/runs/'' @ itoa 7)"
    "parses (''https://api.github.com/repos/o/r/contents/results/'' @ path_escape ''b1'' @ ''.json?ref=actionrelay-results'')"
    by code_simp+
  from assms have f: "gd_base_url d = ''https://api.github.com''" "repo_path d = ''https://api.github.com/repos/o/r''"
    "gd_workflow d = ''relay.yml''"
    by (simp_all add: after_calls_def same_setup_def sample_dispatcher_def repo_path_def)
  show "parses (trim_slashes (gd_base_url d) @ ''/rate_limit'')"
    "parses (repo_path d @ ''/actions/workflows/'' @ path_escape (gd_workflow d) @ ''/dispatches'')"
    "parses (repo_path d @ ''/actions/workflows/'' @ path_escape (gd_workflow d) @
          ''/runs?event=workflow_dispatch&per_page=30'')"
    "parses (repo_path d @ ''/actions/runs/'' @ itoa 7)"
    "parses (repo_path d @ ''/contents/results/'' @ path_escape ''b1'' @ ''.json?ref=actionrelay-results'')"
    using p unfolding f by simp_all
qed

subsection \<open>What the replies decode to\<close>

lemma sample_decode_runs:
  "\<exists>run. decode_first dec_runs (ar_body (sample_reply 2)) \<lparr> wl_workflow_runs = [] \<rparr> = Inr \<lparr> wl_workflow_runs = [run] \<rparr> \<and>
     wr_id run = 7 \<and> run_matches ''b1'' (normalize_github_timestamp sample_now) run"
proof -
  let ?j = "sample_bodies ! 2"
  have "no_frac ?j" "json_depth ?j \<le> json_max_depth" by (simp_all add: sample_bodies_def json_max_depth_def)
  note r = json_read_text(2) [OF this]
  have d: "dec_runs (json_fix ?j) \<lparr> wl_workflow_runs = [] \<rparr> = Some \<lparr> wl_workflow_runs =
      [zero_run\<lparr> wr_id := 7, wr_display_title := ''relay b1'', wr_created_at := ''2026-01-01T00:00:00Z'' \<rparr>] \<rparr>"
    by code_simp
  have "parse_rfc3339 ''2026-01-01T00:00:00Z'' = Some sample_now" "contains_str ''relay b1'' ''b1''"
    unfolding sample_now_def by code_simp+
  then have "run_matches ''b1'' (normalize_github_timestamp sample_now)
      (zero_run\<lparr> wr_id := 7, wr_display_title := ''relay b1'', wr_created_at := ''2026-01-01T00:00:00Z'' \<rparr>)"
    by (simp add: run_matches_def)
  then show ?thesis by (simp add: sample_reply_def decode_first_def r d)
qed

lemma sample_decode_run:
  "\<exists>run. decode_first dec_run (ar_body (sample_reply 3)) zero_run = Inr run \<and>
     wr_status run = ''completed'' \<and> wr_conclusion run = ''success''"
proof -
  let ?j = "sample_bodies ! 3"
  have "no_frac ?j" "json_depth ?j \<le> json_max_depth" by (simp_all add: sample_bodies_def json_max_depth_def)
  note r = json_read_text(2) [OF this]
  have "dec_run (json_fix ?j) zero_run = Some (zero_run\<lparr> wr_status := ''completed'', wr_conclusion := ''success'' \<rparr>)"
    by code_simp
  then show ?thesis by (simp add: sample_reply_def decode_first_def r)
qed

lemma b64_length: "length (b64_encode s) \<le> 2 * length s + 4"
  by (induction s rule: b64_encode.induct) simp_all

lemma b64_json_plain: "list_all json_plain (b64_encode s)"
proof -
  have c: "n < 64 \<Longrightarrow> json_plain (b64_char n)" for n
  proof -
    have "list_all (\<lambda>n. json_plain (b64_char n)) [0..<64]" by code_simp
    then show "n < 64 \<Longrightarrow> json_plain (b64_char n)" by (simp add: list_all_iff)
  qed
  moreover have "json_plain CHR ''=''" by code_simp
  ultimately show ?thesis by (induction s rule: b64_encode.induct) simp_all
qed

lemma sample_texts:
  "list_all (\<lambda>s. json_escape s = s) [''request_id'', ''req-616161616161616161616161'', ''ok'', ''response'', ''error'',
     ''code'', ''TIMEOUT'', ''message'', ''late'', ''protocol'', ''actionrelay.result_package.v1'', ''batch_id'', ''b1'',
     ''results'', ''type'', ''file'', ''encoding'', ''base64'', ''content'']"
  by code_simp

lemma sample_package_length: "length (json_text sample_package_json) \<le> 300"
  using sample_texts by (simp add: sample_package_json_def sample_result_json_def json_string_def)

lemma sample_content_length: "length (ar_body (sample_reply 4)) \<le> 10485760"
  using sample_texts b64_length [of "json_text sample_package_json"] sample_package_length
  by (simp add: sample_reply_def sample_bodies_def json_string_def json_escape_plain [OF b64_json_plain])

lemma sample_decode_package: "decode_result_package (ar_body (sample_reply 4)) = Inr sample_package"
proof -
  let ?b = "b64_encode (json_text sample_package_json)"
  let ?j = "sample_bodies ! 4"
  have "no_frac ?j" "json_depth ?j \<le> json_max_depth" by (simp_all add: sample_bodies_def json_max_depth_def)
  note r = json_read_text(2) [OF this]
  have a: "list_all (\<lambda>s. utf8_fix s = s) [''type'', ''file'', ''encoding'', ''base64'', ''content'']" by code_simp
  have fx: "json_fix ?j = JObj [(''type'', JStr ''file''), (''encoding'', JStr ''base64''), (''content'', JStr ?b)]"
    using a by (simp add: sample_bodies_def utf8_fix_ascii [OF b64_encode_ascii])
  have d: "dec_content (JObj [(''type'', JStr ''file''), (''encoding'', JStr ''base64''), (''content'', JStr b)])
      \<lparr> rc_type = [], rc_content = [], rc_encoding = [] \<rparr> =
      Some \<lparr> rc_type = ''file'', rc_content = b, rc_encoding = ''base64'' \<rparr>" for b
    by (simp add: dec_content_def read_member_def member_for_def)
  have t: "take 10485760 (ar_body (sample_reply 4)) = ar_body (sample_reply 4)"
    using sample_content_length by simp
  have "no_frac sample_package_json" "json_depth sample_package_json \<le> json_max_depth"
    by (simp_all add: sample_package_json_def sample_result_json_def json_max_depth_def)
  note q = json_read_text(2) [OF this]
  have p: "dec_package True (json_fix sample_package_json) zero_package = Some sample_package"
    by code_simp
  have f: "filter (\<lambda>c. c \<noteq> CHR 0x0A) ?b = ?b"
    using b64_encode_plain [of _ "json_text sample_package_json"] by (auto simp: filter_id_conv)
  have "decode_first dec_content (ar_body (sample_reply 4)) \<lparr> rc_type = [], rc_content = [], rc_encoding = [] \<rparr> =
      Inr \<lparr> rc_type = ''file'', rc_content = ?b, rc_encoding = ''base64'' \<rparr>"
    by (simp add: decode_first_def sample_reply_def r fx d)
  moreover have "decode_first (dec_package True) (json_text sample_package_json) zero_package = Inr sample_package"
    by (simp add: decode_first_def q p)
  ultimately show ?thesis
    unfolding decode_result_package_def t by (simp add: f b64_round_trip)
qed

subsection \<open>The run\<close>

lemma sample_batch_valid: "validate_request_batch sample_batch = None" "rb_batch_id sample_batch = ''b1''"
  by code_simp+

lemma sample_package_valid: "validate_result_package sample_package = None"
  by code_simp

lemma sample_fresh: "after_calls 0 sample_dispatcher"
  by (simp add: after_calls_def) (simp add: sample_dispatcher_def)

lemma sample_sync:
  "\<exists>d. sync_server_clock sample_dispatcher = (Inr (), d) \<and> after_calls 1 d"
proof -
  obtain d1 where e: "exchange ''server clock sync request'' ''GET'' (trim_slashes (gd_base_url sample_dispatcher) @ ''/rate_limit'')
      None sample_dispatcher = (Inr (sample_reply 0, sample_now, sample_now), d1)" "after_calls 1 d1"
    using sample_exchange [OF sample_fresh sample_paths(1) [OF sample_fresh],
        where what = "''server clock sync request''" and m = "''GET''" and body = None] by auto
  obtain d2 where u: "update_server_clock (ar_date (sample_reply 0)) sample_now sample_now d1 = (Some sample_now, d2)"
    "after_calls 1 d2" using sample_clock_step [OF e(2)] by blast
  have "\<not> gd_clock_synced sample_dispatcher" by (simp add: sample_dispatcher_def)
  moreover have "ar_status (sample_reply 0) = 200" by (simp add: sample_reply_def)
  ultimately show ?thesis using e u by (simp add: sync_server_clock_def done_ok_def)
qed

lemma sample_dispatch:
  assumes "after_calls 1 d"
  shows "\<exists>d'. github_dispatch_batch sample_batch d = (Inr sample_now, d') \<and> after_calls 2 d'"
proof -
  have "\<exists>d'. github_dispatch_batch sample_batch d = (Inr sample_now, d') \<and> after_calls (Suc 1) d'"
    unfolding github_dispatch_batch_def
    by (rule sample_call [OF assms sample_paths(2) [OF assms]]) (simp add: sample_reply_def)
  then show ?thesis by (simp add: numeral_2_eq_2)
qed

lemma sample_wait_run:
  assumes "after_calls 2 d"
  shows "\<exists>d'. wait_for_run ''b1'' (normalize_github_timestamp sample_now) d = Some (Inr 7, d') \<and> after_calls 3 d'"
proof -
  obtain d1 where d1: "disp_now d = (sample_now, d1)" "after_calls 2 d1" using sample_disp_now [OF assms] by blast
  obtain d2 where d2: "disp_now d1 = (sample_now, d2)" "after_calls 2 d2" using sample_disp_now [OF d1(2)] by blast
  obtain run where run: "decode_first dec_runs (ar_body (sample_reply 2)) \<lparr> wl_workflow_runs = [] \<rparr> =
      Inr \<lparr> wl_workflow_runs = [run] \<rparr>" "wr_id run = 7" "run_matches ''b1'' (normalize_github_timestamp sample_now) run"
    using sample_decode_runs by blast
  have s: "ar_status (sample_reply 2) = 200" by (simp add: sample_reply_def)
  have "\<exists>d'. find_run_for_batch ''b1'' (normalize_github_timestamp sample_now) d2 = (Inr (Some 7), d') \<and> after_calls (Suc 2) d'"
    unfolding find_run_for_batch_def
    by (rule sample_call [OF d2(2) sample_paths(3) [OF d2(2)]]) (simp add: s run)
  then obtain d3 where d3: "find_run_for_batch ''b1'' (normalize_github_timestamp sample_now) d2 = (Inr (Some 7), d3)"
    "after_calls 3 d3" by auto
  have "wait_for_run_loop (sample_now + gd_run_start_timeout d1) ''b1'' (normalize_github_timestamp sample_now) d1 = Some (Inr 7, d3)"
    using sample_timeouts(1) [OF d1(2)] by (subst wait_for_run_loop.simps) (simp add: d2 d3)
  then show ?thesis using d3(2) by (simp add: wait_for_run_def d1)
qed

lemma sample_wait_completion:
  assumes "after_calls 3 d"
  shows "\<exists>d'. wait_for_run_completion 7 d = Some (Inr (), d') \<and> after_calls 4 d'"
proof -
  obtain d1 where d1: "disp_now d = (sample_now, d1)" "after_calls 3 d1" using sample_disp_now [OF assms] by blast
  obtain d2 where d2: "disp_now d1 = (sample_now, d2)" "after_calls 3 d2" using sample_disp_now [OF d1(2)] by blast
  obtain run where run: "decode_first dec_run (ar_body (sample_reply 3)) zero_run = Inr run"
    "wr_status run = ''completed''" "wr_conclusion run = ''success''" using sample_decode_run by blast
  have s: "ar_status (sample_reply 3) = 200" by (simp add: sample_reply_def)
  have "\<exists>d'. get_run 7 d2 = (Inr run, d') \<and> after_calls (Suc 3) d'"
    unfolding get_run_def
    by (rule sample_call [OF d2(2) sample_paths(4) [OF d2(2)]]) (simp add: s run)
  then obtain d3 where d3: "get_run 7 d2 = (Inr run, d3)" "after_calls 4 d3" by auto
  have "wait_for_run_completion_loop (sample_now + gd_run_completion_timeout d1) 7 d1 = Some (Inr (), d3)"
    using sample_timeouts(2) [OF d1(2)] by (subst wait_for_run_completion_loop.simps) (simp add: d2 d3 run)
  then show ?thesis using d3(2) by (simp add: wait_for_run_completion_def d1)
qed

lemma sample_wait_package:
  assumes "after_calls 4 d"
  shows "\<exists>d'. wait_for_result_package ''b1'' d = Some (Inr sample_package, d') \<and> after_calls 5 d'"
proof -
  obtain d1 where d1: "disp_now d = (sample_now, d1)" "after_calls 4 d1" using sample_disp_now [OF assms] by blast
  have s: "ar_status (sample_reply 4) = 200" by (simp add: sample_reply_def)
  have "\<exists>d'. download_result_package ''b1'' d1 = (Inr (Some sample_package), d') \<and> after_calls (Suc 4) d'"
    unfolding download_result_package_def
    by (rule sample_call [OF d1(2) sample_paths(5) [OF d1(2)]]) (simp add: s sample_decode_package)
  then obtain d3 where d3: "download_result_package ''b1'' d1 = (Inr (Some sample_package), d3)" "after_calls 5 d3" by auto
  then show ?thesis by (auto simp: wait_for_result_package_def d1 wait_for_result_package_loop.simps)
qed

lemma sample_process:
  "\<exists>e. process_batch sample_batch sample_dispatcher = Some (Inr sample_package, e) \<and> after_calls 5 e"
proof -
  from sample_sync obtain d1 where d1: "sync_server_clock sample_dispatcher = (Inr (), d1)" "after_calls 1 d1" by blast
  from sample_dispatch [OF d1(2)] obtain d2 where d2: "github_dispatch_batch sample_batch d1 = (Inr sample_now, d2)"
    "after_calls 2 d2" by blast
  from sample_wait_run [OF d2(2)] obtain d3 where
    d3: "wait_for_run ''b1'' (normalize_github_timestamp sample_now) d2 = Some (Inr 7, d3)" "after_calls 3 d3" by blast
  from sample_wait_completion [OF d3(2)] obtain d4 where d4: "wait_for_run_completion 7 d3 = Some (Inr (), d4)"
    "after_calls 4 d4" by blast
  from sample_wait_package [OF d4(2)] obtain d5 where d5: "wait_for_result_package ''b1'' d4 = Some (Inr sample_package, d5)"
    "after_calls 5 d5" by blast
  have "rp_protocol sample_package = result_package_protocol" "rp_batch_id sample_package = ''b1''"
    by (simp_all add: sample_package_def)
  then have "process_batch sample_batch sample_dispatcher = Some (Inr sample_package, d5)"
    by (simp add: process_batch_def sample_batch_valid sample_package_valid then_loop_def d1 d2 d3 d4 d5)
  with d5(2) show ?thesis by blast
qed

subsection \<open>Witnesses\<close>

text \<open>The same dispatcher with a clock that ticks.\<close>

definition ticking_dispatcher :: dispatcher where
  "ticking_dispatcher = sample_dispatcher\<lparr> gd_clock := (\<lambda>n. sample_now + int n * second) \<rparr>"

lemma ticking: "time_passes ticking_dispatcher"
proof -
  have "\<forall>m \<ge> nat t. t < sample_now + int m * second" for t
  proof (intro allI impI)
    fix m
    assume "nat t \<le> m"
    then have "t \<le> int m" by simp
    also have "\<dots> < sample_now + int m * second" by (simp add: sample_now_def second_def)
    finally show "t < sample_now + int m * second" .
  qed
  then show ?thesis unfolding time_passes_def ticking_dispatcher_def by auto
qed

theorem process_batch_returns_witness:
  "\<exists>r e. process_batch sample_batch ticking_dispatcher = Some (r, e)"
  by (rule process_batch_returns [OF ticking])

theorem process_batch_once_witness:
  "\<exists>e. process_batch sample_batch sample_dispatcher = Some (Inr sample_package, e) \<and>
     length (gd_sent e) = 5 \<and> dispatches_once sample_dispatcher sample_batch e \<and>
     package_answers sample_dispatcher sample_batch sample_package e"
proof -
  from sample_process obtain e where e: "process_batch sample_batch sample_dispatcher = Some (Inr sample_package, e)"
    "after_calls 5 e" by blast
  from process_batch_once [OF e(1)] e show ?thesis by (simp add: outcome_ok_def after_calls_def)
qed

definition configured_host :: host where
  "configured_host = sample_host\<lparr> h_files := [''/c'' \<mapsto>
     json_indent (marshal_struct config_members (normalize_config sample_config)) @ [CHR 0x0A]] \<rparr>"

lemma configured_load:
  "config_load ''/c'' configured_host = (Inr (normalize_config sample_config), configured_host\<lparr> h_ops := 1 \<rparr>)"
proof -
  let ?n = "normalize_config sample_config"
  have "resolve_path ''/c'' configured_host = Inr ''/c''" by (simp add: resolve_path_def)
  moreover have "read_file ''/c'' configured_host =
      (Inr (json_indent (marshal_struct config_members ?n) @ [CHR 0x0A]), configured_host\<lparr> h_ops := 1 \<rparr>)"
    unfolding read_file_ok by (simp add: configured_host_def sample_host_def)
  moreover have "unmarshal (dec_struct False config_members)
      (json_indent (marshal_struct config_members ?n) @ [CHR 0x0A]) default_config = Inr ?n"
    by (rule config_decode [OF sample_config_valid(2) normalize_idem(2) [OF sample_config_valid(1)]])
  moreover have "config_finish ?n = ?n" "config_valid ?n"
    using normalize_idem [OF sample_config_valid(1)] by (simp_all add: config_finish_def config_valid_def)
  ultimately show ?thesis unfolding config_load_ok by metis
qed

lemma configured_dispatcher:
  "new_dispatcher (normalize_config sample_config) ''t'' (gd_clock sample_dispatcher) (gd_net sample_dispatcher)
     (gd_ctx sample_dispatcher) (gd_parse_date sample_dispatcher) = Inr sample_dispatcher"
proof -
  have t: "trim_space ''t'' = ''t''" "trim_slashes ''https://api.github.com'' = ''https://api.github.com''" by code_simp+
  have "repo_owner_and_name (normalize_config sample_config) = Inr (''o'', ''r'')"
    unfolding sample_config_def default_config_def normalize_config_def by code_simp
  then show ?thesis
    by (simp add: new_dispatcher_def t normalize_config_def sample_config_def default_config_def sample_trims
        sample_dispatcher_def)
qed


lemma github_relay_answers_witness:
  "\<exists>a' d'. relay_batch process_batch [sample_pending] sample_agent ticking_dispatcher = Some (a', d') \<and>
     answers sample_agent [sample_pending] a'"
proof -
  have "cache_shape sample_agent"
    by (simp add: cache_shape_def cache_ok_def sample_fields) (simp add: sample_settings_def sample_base_def)
  from github_relay_answers [OF ticking this, of "[sample_pending]"] show ?thesis by auto
qed

end
