(* ===== verification/Route_State.thy ===== *)
theory Route_State
  imports Go_Struct Go_Os Go_Plain
begin

text \<open>
  The persistent route state (\<^verbatim>\<open>client/internal/route/state.go\<close>): the record, its JSON file, and
  the operations that mark and clear a required cleanup. Theorems: what is saved is what is
  loaded, the file never holds an invalid state after a successful save, and the two cleanup
  operations change the two cleanup fields and the time stamp only.
\<close>

subsection \<open>Data\<close>

definition state_version :: int where "state_version = 1"

definition mode_whole_device :: string where "mode_whole_device = ''whole_device''"

record route_state =
  rs_version :: int
  rs_route_mode :: string
  rs_installed :: bool
  rs_proxy_installed :: bool
  rs_cleanup_required :: bool
  rs_cleanup_reason :: string
  rs_installed_at :: string
  rs_uninstalled_at :: string
  rs_updated_at :: string
  rs_listen_addr :: string
  rs_proxy_listen_addr :: string
  rs_platform :: string
  rs_last_action :: string

definition zero_route_state :: route_state where
  "zero_route_state =
     \<lparr> rs_version = 0, rs_route_mode = [], rs_installed = False, rs_proxy_installed = False,
       rs_cleanup_required = False, rs_cleanup_reason = [], rs_installed_at = [],
       rs_uninstalled_at = [], rs_updated_at = [], rs_listen_addr = [], rs_proxy_listen_addr = [],
       rs_platform = [], rs_last_action = [] \<rparr>"

definition default_state :: route_state where
  "default_state = zero_route_state\<lparr> rs_version := state_version, rs_route_mode := mode_whole_device,
     rs_installed := False, rs_proxy_installed := False, rs_cleanup_required := False \<rparr>"

definition route_members :: "route_state member list" where
  "route_members =
     [int_member ''version'' rs_version rs_version_update,
      str_member ''route_mode'' rs_route_mode rs_route_mode_update,
      bool_member ''installed'' rs_installed rs_installed_update,
      bool_member ''proxy_installed'' rs_proxy_installed rs_proxy_installed_update,
      bool_member ''cleanup_required'' rs_cleanup_required rs_cleanup_required_update,
      opt_str_member ''cleanup_reason'' rs_cleanup_reason rs_cleanup_reason_update,
      opt_str_member ''installed_at'' rs_installed_at rs_installed_at_update,
      opt_str_member ''uninstalled_at'' rs_uninstalled_at rs_uninstalled_at_update,
      opt_str_member ''updated_at'' rs_updated_at rs_updated_at_update,
      opt_str_member ''listen_addr'' rs_listen_addr rs_listen_addr_update,
      opt_str_member ''proxy_listen_addr'' rs_proxy_listen_addr rs_proxy_listen_addr_update,
      opt_str_member ''platform'' rs_platform rs_platform_update,
      opt_str_member ''last_action'' rs_last_action rs_last_action_update]"

definition route_json :: "route_state \<Rightarrow> json" where
  "route_json s = marshal_struct route_members s"

subsection \<open>Operations\<close>

definition validate_route :: "route_state \<Rightarrow> go_error option" where
  "validate_route s =
     (if rs_version s \<le> 0 then Some (Err ''route state version must be > 0'')
      else if rs_route_mode s \<noteq> mode_whole_device
        then Some (Err (''route_mode must be '' @ go_quote mode_whole_device))
      else if rs_updated_at s = [] then Some (Err ''updated_at is required'')
      else None)"

definition route_load :: "string \<Rightarrow> host \<Rightarrow> route_state io" where
  "route_load p h =
     and_then (read_file p h) (\<lambda>content h.
       case unmarshal (dec_struct False route_members) content default_state of
         Inl e \<Rightarrow> (Inl (wrap_err ''decode route state: '' e), h)
       | Inr s \<Rightarrow> (case validate_route s of Some e \<Rightarrow> (Inl e, h) | None \<Rightarrow> (Inr s, h)))"

definition route_load_or_default :: "string \<Rightarrow> host \<Rightarrow> route_state io" where
  "route_load_or_default p h =
     (case route_load p h of
        (Inr s, h) \<Rightarrow> (Inr s, h)
      | (Inl e, h) \<Rightarrow> if is_not_exist e then (Inr default_state, h) else (Inl e, h))"

definition route_stamp :: "host \<Rightarrow> string \<times> host" where
  "route_stamp h = (case host_now h of (t, h) \<Rightarrow> (format_rfc3339 t, h))"

definition route_fill :: "route_state \<Rightarrow> host \<Rightarrow> route_state \<times> host" where
  "route_fill s h =
     (let s = (if rs_version s = 0 then s\<lparr> rs_version := state_version \<rparr> else s);
          s = (if rs_route_mode s = [] then s\<lparr> rs_route_mode := mode_whole_device \<rparr> else s)
      in if rs_updated_at s = []
         then (case route_stamp h of (now, h) \<Rightarrow> (s\<lparr> rs_updated_at := now \<rparr>, h))
         else (s, h))"

definition route_save :: "string \<Rightarrow> route_state \<Rightarrow> host \<Rightarrow> unit io" where
  "route_save p s h =
     (case route_fill s h of (s, h) \<Rightarrow>
        (case validate_route s of
           Some e \<Rightarrow> (Inl e, h)
         | None \<Rightarrow>
             and_then (or_wrap (wrap_err ''create route state dir: '') (mkdir_all (path_dir p) h)) (\<lambda>_ h.
               or_wrap (wrap_err ''write route state: '')
                 (write_file p (json_indent (route_json s) @ [CHR 0x0A]) h))))"

definition mark_cleanup_required :: "string \<Rightarrow> string \<Rightarrow> host \<Rightarrow> unit io" where
  "mark_cleanup_required p reason h =
     and_then (route_load_or_default p h) (\<lambda>s h.
       if \<not> rs_installed s then done_ok h
       else (case route_stamp h of (now, h) \<Rightarrow>
         route_save p (s\<lparr> rs_cleanup_required := True, rs_cleanup_reason := reason,
                          rs_updated_at := now \<rparr>) h))"

definition clear_cleanup_required :: "string \<Rightarrow> host \<Rightarrow> unit io" where
  "clear_cleanup_required p h =
     and_then (route_load_or_default p h) (\<lambda>s h.
       if \<not> rs_cleanup_required s \<and> rs_cleanup_reason s = [] then done_ok h
       else (case route_stamp h of (now, h) \<Rightarrow>
         route_save p (s\<lparr> rs_cleanup_required := False, rs_cleanup_reason := [],
                          rs_updated_at := now \<rparr>) h))"

subsection \<open>Round trip\<close>

text \<open>
  Text a JSON file keeps: valid UTF-8 throughout. \<open>route_value\<close> is what a saved state means to
  the reader: absent fields are those of \<^verbatim>\<open>DefaultState()\<close>, all empty.
\<close>

definition route_text_ok :: "route_state \<Rightarrow> bool" where
  "route_text_ok s \<longleftrightarrow>
     list_all (\<lambda>t. utf8_fix t = t)
       [rs_route_mode s, rs_cleanup_reason s, rs_installed_at s, rs_uninstalled_at s, rs_updated_at s,
        rs_listen_addr s, rs_proxy_listen_addr s, rs_platform s, rs_last_action s] \<and>
     - (2 ^ 63) \<le> rs_version s \<and> rs_version s < 2 ^ 63"

lemma route_names:
  "distinct (map fst route_members)" "list_all (\<lambda>(n, e, d). list_all is_ascii n) route_members"
  unfolding route_members_def member_defs by code_simp+

lemma route_flat: "list_all (\<lambda>(k, j). no_frac j \<and> json_depth j = 0) (marshal_members route_members s)"
  by (simp add: marshal_members_def route_members_def member_defs List.map_filter_simps)

lemma route_apply:
  "route_text_ok s \<Longrightarrow> apply_members route_members s default_state = Some s"
  by (simp add: route_members_def member_defs route_text_ok_def default_state_def zero_route_state_def)

interpretation route_file: struct_file route_members default_state route_text_ok
  by unfold_locales (auto simp only: route_names route_flat route_apply)

lemma route_decode:
  "route_text_ok s \<Longrightarrow>
     unmarshal (dec_struct False route_members) (json_indent (route_json s) @ [CHR 0x0A]) default_state = Inr s"
  unfolding route_json_def by (rule route_file.read_back)

subsection \<open>What the file holds\<close>

text \<open>The file holds the printed form of a valid state.\<close>

definition holds_route :: "string \<Rightarrow> host \<Rightarrow> route_state \<Rightarrow> bool" where
  "holds_route p h s \<longleftrightarrow>
     h_files h p = Some (json_indent (route_json s) @ [CHR 0x0A]) \<and>
     validate_route s = None \<and> route_text_ok s"

definition clock_in_range :: "host \<Rightarrow> bool" where
  "clock_in_range h \<longleftrightarrow> (\<forall>n. 0 \<le> h_clock h n \<and> h_clock h n < max_time)"

lemma plain_ascii: "list_all json_plain s \<Longrightarrow> list_all is_ascii s"
  by (induction s) (auto simp: json_plain_def is_ascii_def less_char_def)

lemma stamp_text:
  assumes "clock_in_range h"
  shows "utf8_fix (fst (route_stamp h)) = fst (route_stamp h)" and "fst (route_stamp h) \<noteq> []"
proof -
  let ?t = "h_clock h (h_reads h)"
  from assms have t: "0 \<le> ?t" "?t < max_time" by (simp_all add: clock_in_range_def)
  have "fst (route_stamp h) = format_rfc3339 ?t" by (simp add: route_stamp_def host_now_def)
  moreover from format_rfc3339_shape [OF t] have "length (format_rfc3339 ?t) = 20"
    "utf8_fix (format_rfc3339 ?t) = format_rfc3339 ?t"
    by (simp_all add: utf8_fix_ascii plain_ascii)
  ultimately show "utf8_fix (fst (route_stamp h)) = fst (route_stamp h)" "fst (route_stamp h) \<noteq> []" by auto
qed

lemma route_fill_valid: "validate_route s = None \<Longrightarrow> route_fill s h = (s, h)"
  by (auto simp: validate_route_def route_fill_def mode_whole_device_def Let_def split: if_splits)

lemma route_load_holds:
  assumes "holds_route p h s"
  shows "route_load p h =
    (case h_fault h (h_ops h) of
       Some f \<Rightarrow> (Inl (fault_error f), h\<lparr> h_ops := Suc (h_ops h) \<rparr>)
     | None \<Rightarrow> (Inr s, h\<lparr> h_ops := Suc (h_ops h) \<rparr>))"
  using assms
  by (simp add: holds_route_def route_load_def read_file_def next_fault_def route_decode split: option.split)

lemma route_save_holds:
  assumes "route_save p s h = (Inr u, h')" and "validate_route s = None" and "route_text_ok s"
  shows "holds_route p h' s" and "\<And>q. q \<noteq> p \<Longrightarrow> h_files h' q = h_files h q"
    and "h_clock h' = h_clock h" and "h_reads h' = h_reads h" and "h_env h' = h_env h"
  using assms
  by (auto simp: route_save_def route_fill_valid and_then_Inr mkdir_all_ok write_file_ok holds_route_def)

text \<open>The state the operation sees: the one in the file, or the default when the file is missing.\<close>

lemma route_load_or_default_holds:
  assumes "holds_route p h s" and "route_load_or_default p h = (Inr s', h')"
  shows "(s' = s \<or> s' = default_state \<and> (\<exists>f. h_fault h (h_ops h) = Some f \<and> is_not_exist (fault_error f)))"
    and "h' = h\<lparr> h_ops := Suc (h_ops h) \<rparr>"
  using assms
  by (auto simp: route_load_or_default_def route_load_holds split: option.splits if_splits)

subsection \<open>Properties\<close>

lemma route_save_quiet:
  assumes "quiet h" and "validate_route s = None" and "route_text_ok s"
  shows "route_save p s h =
    (Inr (), h\<lparr> h_ops := h_ops h + 2, h_files := (h_files h)(p \<mapsto> json_indent (route_json s) @ [CHR 0x0A]) \<rparr>)"
  using assms(1)
  by (simp add: route_save_def route_fill_valid [OF assms(2)] assms(2) mkdir_all_def write_file_def
      next_fault_def quiet_def)

text \<open>What marking and clearing make of a state.\<close>

definition marked :: "string \<Rightarrow> string \<Rightarrow> route_state \<Rightarrow> route_state" where
  "marked reason now s =
     (if rs_installed s
      then s\<lparr> rs_cleanup_required := True, rs_cleanup_reason := reason, rs_updated_at := now \<rparr> else s)"

definition cleared :: "string \<Rightarrow> route_state \<Rightarrow> route_state" where
  "cleared now s =
     (if rs_cleanup_required s \<or> rs_cleanup_reason s \<noteq> []
      then s\<lparr> rs_cleanup_required := False, rs_cleanup_reason := [], rs_updated_at := now \<rparr> else s)"

text \<open>A host whose route file holds a state and whose file operations all succeed.\<close>

definition route_host :: "string \<Rightarrow> host \<Rightarrow> route_state \<Rightarrow> bool" where
  "route_host p h s \<longleftrightarrow> holds_route p h s \<and> quiet h \<and> clock_in_range h"

lemma route_update_quiet:
  assumes h: "route_host p h s" and "validate_route (f (fst (route_stamp h))) = None"
    and "route_text_ok (f (fst (route_stamp h)))"
  shows "\<exists>h'. (case route_stamp h of (now, h) \<Rightarrow> route_save p (f now) h) = (Inr (), h') \<and>
    route_host p h' (f (fst (route_stamp h)))"
proof -
  have "quiet (snd (route_stamp h))" using h by (simp add: route_host_def quiet_def route_stamp_def host_now_def)
  from route_save_quiet [OF this assms(2,3), of p] h assms(2,3) show ?thesis
    by (auto simp: split_beta route_host_def holds_route_def quiet_def clock_in_range_def route_stamp_def host_now_def)
qed

lemma route_loaded:
  assumes "route_host p h s"
  shows "route_load_or_default p h = (Inr s, h\<lparr> h_ops := Suc (h_ops h) \<rparr>)"
    and "route_host p (h\<lparr> h_ops := n \<rparr>) s"
    and "route_stamp (h\<lparr> h_ops := n \<rparr>) = (fst (route_stamp h), (snd (route_stamp h))\<lparr> h_ops := n \<rparr>)"
  using assms
  by (auto simp: route_host_def route_load_or_default_def route_load_holds quiet_def holds_route_def
      clock_in_range_def route_stamp_def host_now_def)

lemma route_updated:
  assumes "route_host p h s"
    and "\<And>now. now \<noteq> [] \<Longrightarrow> utf8_fix now = now \<Longrightarrow> validate_route (f now) = None \<and> route_text_ok (f now)"
  shows "\<exists>h'. (case route_stamp (h\<lparr> h_ops := n \<rparr>) of (now, h) \<Rightarrow> route_save p (f now) h) = (Inr (), h') \<and>
    route_host p h' (f (fst (route_stamp h)))"
proof -
  have now: "fst (route_stamp (h\<lparr> h_ops := n \<rparr>)) = fst (route_stamp h)"
    using route_loaded(3) [OF assms(1), of n] by simp
  from stamp_text [of h] assms(1) have "utf8_fix (fst (route_stamp h)) = fst (route_stamp h)" "fst (route_stamp h) \<noteq> []"
    by (simp_all add: route_host_def)
  with assms(2) have "validate_route (f (fst (route_stamp (h\<lparr> h_ops := n \<rparr>)))) = None"
    "route_text_ok (f (fst (route_stamp (h\<lparr> h_ops := n \<rparr>))))" unfolding now by blast+
  from route_update_quiet [where f = f, OF route_loaded(2) [OF assms(1), of n] this] show ?thesis
    unfolding now .
qed

lemma mark_cleanup_quiet:
  assumes "route_host p h s" and "utf8_fix reason = reason"
  shows "\<exists>h'. mark_cleanup_required p reason h = (Inr (), h') \<and>
    route_host p h' (marked reason (fst (route_stamp h)) s)"
proof (cases "rs_installed s")
  case False
  with route_loaded [OF assms(1)] show ?thesis
    by (simp add: mark_cleanup_required_def done_ok_def marked_def)
next
  case True
  let ?f = "\<lambda>now. s\<lparr> rs_cleanup_required := True, rs_cleanup_reason := reason, rs_updated_at := now \<rparr>"
  have "validate_route (?f now) = None \<and> route_text_ok (?f now)" if "now \<noteq> []" "utf8_fix now = now" for now
    using assms that by (auto simp: route_host_def holds_route_def validate_route_def route_text_ok_def split: if_splits)
  from route_updated [where f = ?f, OF assms(1) this, of "Suc (h_ops h)"] True show ?thesis
    by (simp add: mark_cleanup_required_def route_loaded(1) [OF assms(1)] marked_def)
qed

lemma clear_cleanup_quiet:
  assumes "route_host p h s"
  shows "\<exists>h'. clear_cleanup_required p h = (Inr (), h') \<and>
    route_host p h' (cleared (fst (route_stamp h)) s)"
proof (cases "\<not> rs_cleanup_required s \<and> rs_cleanup_reason s = []")
  case True
  with route_loaded [OF assms] show ?thesis
    by (simp add: clear_cleanup_required_def done_ok_def cleared_def)
next
  case False
  let ?f = "\<lambda>now. s\<lparr> rs_cleanup_required := False, rs_cleanup_reason := [], rs_updated_at := now \<rparr>"
  have "validate_route (?f now) = None \<and> route_text_ok (?f now)" if "now \<noteq> []" "utf8_fix now = now" for now
    using assms that by (auto simp: route_host_def holds_route_def validate_route_def route_text_ok_def split: if_splits)
  from route_updated [where f = ?f, OF assms this, of "Suc (h_ops h)"] False show ?thesis
    by (auto simp: clear_cleanup_required_def route_loaded(1) [OF assms] cleared_def)
qed

text \<open>
  C25. What \<^verbatim>\<open>Save\<close> reports as written is what \<^verbatim>\<open>LoadOrDefault\<close> reads: a valid state of valid
  UTF-8 text saved without an error is loaded unchanged when the next read does not fail, no other
  file has changed, and this holds whatever faults the system had before.
\<close>

theorem route_save_load:
  assumes "route_save p s h = (Inr (), h')" and "validate_route s = None" and "route_text_ok s"
    and "h_fault h' (h_ops h') = None"
  shows "fst (route_load_or_default p h') = Inr s \<and> (\<forall>q. q = p \<or> h_files h' q = h_files h q)"
  using route_save_holds [OF assms(1,2,3)] assms(4)
  by (auto simp: route_load_or_default_def route_load_holds)

definition sample_route :: route_state where
  "sample_route = default_state\<lparr> rs_installed := True, rs_installed_at := ''2026-01-01T00:00:00Z'',
     rs_updated_at := ''2026-01-01T00:00:00Z'', rs_listen_addr := ''127.0.0.1:8787'', rs_last_action := ''install'' \<rparr>"

lemma sample_route_ok: "validate_route sample_route = None" "route_text_ok sample_route"
proof -
  show "validate_route sample_route = None" by code_simp
  have "list_all (list_all is_ascii) [rs_route_mode sample_route, rs_cleanup_reason sample_route,
    rs_installed_at sample_route, rs_uninstalled_at sample_route, rs_updated_at sample_route,
    rs_listen_addr sample_route, rs_proxy_listen_addr sample_route, rs_platform sample_route,
    rs_last_action sample_route]" by code_simp
  moreover have "rs_version sample_route = 1" by code_simp
  ultimately show "route_text_ok sample_route" by (simp add: route_text_ok_def utf8_fix_ascii)
qed

theorem route_save_load_witness:
  "fst (route_load_or_default ''/s'' (snd (route_save ''/s'' sample_route sample_host))) = Inr sample_route"
proof -
  obtain h' where h': "route_save ''/s'' sample_route sample_host = (Inr (), h')"
    "h_fault h' = h_fault sample_host"
    using route_save_quiet [OF sample_host_quiet sample_route_ok, of "''/s''"] by simp
  moreover from h'(2) sample_host_quiet have "h_fault h' (h_ops h') = None" by (simp add: quiet_def)
  ultimately show ?thesis using route_save_load [OF h'(1) sample_route_ok] by simp
qed

end
