(* ===== verification/Proxy_Platform.thy ===== *)
theory Proxy_Platform
  imports Go_Struct Go_Os Go_Net
begin

text \<open>
  The proxy settings of the operating system (\<^verbatim>\<open>client/internal/proxyplatform/platform.go\<close>): the
  environment variables on Linux, \<^verbatim>\<open>networksetup\<close> on macOS, \<^verbatim>\<open>netsh\<close> and the environment on
  Windows, and the file that keeps what was there before.

  The environment is that of the running process, commands are run by \<open>run_process\<close>, which
  records them and takes their outcome from the host. Errors of calls the code ignores
  (\<^verbatim>\<open>_ = f()\<close>) are dropped by \<open>ignore\<close>.
\<close>

subsection \<open>Data\<close>

definition state_env_var :: string where "state_env_var = ''ACTIONRELAY_PROXY_STATE_FILE''"

definition default_bypass_entries :: "string list" where
  "default_bypass_entries =
     [''localhost'', ''127.0.0.1'', ''::1'', ''10.0.0.0/8'', ''172.16.0.0/12'', ''192.168.0.0/16'',
      ''169.254.0.0/16'', ''*.local'']"

record platform_state =
  ps_platform :: string
  ps_http_proxy :: string
  ps_https_proxy :: string
  ps_no_proxy :: string
  ps_http_proxy_upper :: string
  ps_https_proxy_upper :: string
  ps_no_proxy_upper :: string

definition zero_platform_state :: platform_state where
  "zero_platform_state = \<lparr> ps_platform = [], ps_http_proxy = [], ps_https_proxy = [], ps_no_proxy = [],
     ps_http_proxy_upper = [], ps_https_proxy_upper = [], ps_no_proxy_upper = [] \<rparr>"

definition platform_members :: "platform_state member list" where
  "platform_members =
     [str_member ''platform'' ps_platform ps_platform_update,
      opt_str_member ''http_proxy'' ps_http_proxy ps_http_proxy_update,
      opt_str_member ''https_proxy'' ps_https_proxy ps_https_proxy_update,
      opt_str_member ''no_proxy'' ps_no_proxy ps_no_proxy_update,
      opt_str_member ''HTTP_PROXY'' ps_http_proxy_upper ps_http_proxy_upper_update,
      opt_str_member ''HTTPS_PROXY'' ps_https_proxy_upper ps_https_proxy_upper_update,
      opt_str_member ''NO_PROXY'' ps_no_proxy_upper ps_no_proxy_upper_update]"

record runtime_status =
  st_platform :: string
  st_supported :: bool
  st_supported_error :: string
  st_current_proxy_targets :: "string list"
  st_bypass_entries :: "string list"
  st_state_file_path :: string
  st_state_file_present :: bool
  st_state_file_error :: string

subsection \<open>Platform and state file\<close>

definition detect :: "host \<Rightarrow> string" where
  "detect h =
     (if h_goos h = ''windows'' then ''windows''
      else if h_goos h = ''darwin'' then ''macos''
      else if h_goos h = ''linux'' then ''linux''
      else h_goos h)"

definition unsupported :: "host \<Rightarrow> go_error" where
  "unsupported h = Err (''proxy integration is not supported on platform '' @ go_quote (detect h))"

definition validate_supported :: "host \<Rightarrow> go_error option" where
  "validate_supported h =
     (if detect h \<in> {''windows'', ''macos'', ''linux''} then None else Some (unsupported h))"

definition split_listen_addr :: "string \<Rightarrow> (string \<times> string) res" where
  "split_listen_addr addr =
     (case split_host_port (trim_space addr) of
        Inl e \<Rightarrow> Inl (Err (''invalid proxy listen address '' @ go_quote addr))
      | Inr (host, port) \<Rightarrow>
          if trim_space host = [] \<or> trim_space port = []
          then Inl (Err (''invalid proxy listen address '' @ go_quote addr))
          else Inr (trim_space host, trim_space port))"

definition state_file_path :: "host \<Rightarrow> string res" where
  "state_file_path h =
     (let path = trim_space (getenv state_env_var h)
      in if path \<noteq> [] then Inr path
         else (case user_home_dir h of
             Inl e \<Rightarrow> Inl e
           | Inr home \<Rightarrow> Inr (path_join [home, ''.actionrelay'', ''proxy-platform-state.json''])))"

definition load_state :: "host \<Rightarrow> (platform_state \<times> bool) io" where
  "load_state h =
     (case state_file_path h of
        Inl e \<Rightarrow> (Inl e, h)
      | Inr path \<Rightarrow>
          (case read_file path h of
             (Inl e, h) \<Rightarrow> if is_not_exist e then (Inr (zero_platform_state, False), h) else (Inl e, h)
           | (Inr content, h) \<Rightarrow>
               (case unmarshal (dec_struct False platform_members) content zero_platform_state of
                  Inl e \<Rightarrow> (Inl e, h) | Inr s \<Rightarrow> (Inr (s, True), h))))"

definition save_state :: "platform_state \<Rightarrow> host \<Rightarrow> unit io" where
  "save_state s h =
     (case state_file_path h of
        Inl e \<Rightarrow> (Inl e, h)
      | Inr path \<Rightarrow>
          and_then (mkdir_all (path_dir path) h) (\<lambda>_ h.
            write_file path (json_indent (marshal_struct platform_members s) @ [CHR 0x0A]) h))"

definition clear_state :: "host \<Rightarrow> unit io" where
  "clear_state h =
     (case state_file_path h of
        Inl e \<Rightarrow> (Inl e, h)
      | Inr path \<Rightarrow>
          (case remove_file path h of
             (Inl e, h) \<Rightarrow> if is_not_exist e then (Inr (), h) else (Inl e, h)
           | (Inr _, h) \<Rightarrow> (Inr (), h)))"

subsection \<open>Environment and commands\<close>

definition ignore :: "'a io \<Rightarrow> host" where
  "ignore = snd"

definition restore_env :: "string \<Rightarrow> string \<Rightarrow> host \<Rightarrow> unit io" where
  "restore_env key v h = (if v = [] then unsetenv key h else setenv key v h)"

definition run_command :: "string list \<Rightarrow> host \<Rightarrow> unit io" where
  "run_command argv h =
     (case run_process argv h of
        ((output, Some e), h) \<Rightarrow>
          (Inl (Err (hd argv @ '' '' @ join_str '' '' (tl argv) @ '' failed: '' @ err_text e @ '' ('' @
                     trim_space output @ '')'')), h)
      | ((output, None), h) \<Rightarrow> (Inr (), h))"

text \<open>Assignments one after the other; the first that fails ends the list with its error.\<close>

fun set_all :: "(string \<times> string) list \<Rightarrow> host \<Rightarrow> unit io" where
  "set_all [] h = done_ok h"
| "set_all ((k, v) # kvs) h = and_then (setenv k v h) (\<lambda>_ h. set_all kvs h)"

fun restore_all :: "(string \<times> string) list \<Rightarrow> host \<Rightarrow> host" where
  "restore_all [] h = h"
| "restore_all ((k, v) # kvs) h = restore_all kvs (ignore (restore_env k v h))"

fun unset_all :: "string list \<Rightarrow> host \<Rightarrow> host" where
  "unset_all [] h = h"
| "unset_all (k # ks) h = unset_all ks (ignore (unsetenv k h))"

subsection \<open>Linux\<close>

definition restore_linux :: "platform_state \<Rightarrow> host \<Rightarrow> host" where
  "restore_linux s h = restore_all
     [(''http_proxy'', ps_http_proxy s), (''https_proxy'', ps_https_proxy s), (''no_proxy'', ps_no_proxy s),
      (''HTTP_PROXY'', ps_http_proxy_upper s), (''HTTPS_PROXY'', ps_https_proxy_upper s),
      (''NO_PROXY'', ps_no_proxy_upper s)] h"

definition rollback_linux :: "platform_state \<Rightarrow> go_error \<Rightarrow> host \<Rightarrow> unit io" where
  "rollback_linux previous e h =
     (Inl (wrap_err ''linux proxy install failed and was rolled back: '' e), restore_linux previous h)"

definition linux_previous :: "host \<Rightarrow> platform_state" where
  "linux_previous h = \<lparr> ps_platform = ''linux'',
     ps_http_proxy = getenv ''http_proxy'' h, ps_https_proxy = getenv ''https_proxy'' h,
     ps_no_proxy = getenv ''no_proxy'' h, ps_http_proxy_upper = getenv ''HTTP_PROXY'' h,
     ps_https_proxy_upper = getenv ''HTTPS_PROXY'' h, ps_no_proxy_upper = getenv ''NO_PROXY'' h \<rparr>"

definition linux_assignments :: "string \<Rightarrow> string \<Rightarrow> (string \<times> string) list" where
  "linux_assignments host port =
     (let url = ''http://'' @ host @ '':'' @ port; bypass = join_str '','' default_bypass_entries
      in [(''http_proxy'', url), (''https_proxy'', url), (''HTTP_PROXY'', url), (''HTTPS_PROXY'', url),
          (''no_proxy'', bypass), (''NO_PROXY'', bypass)])"

definition install_linux_proxy :: "string \<Rightarrow> string \<Rightarrow> host \<Rightarrow> unit io" where
  "install_linux_proxy host port h =
     (let previous = linux_previous h
      in and_then (save_state previous h) (\<lambda>_ h.
           case set_all (linux_assignments host port) h of
             (Inl e, h) \<Rightarrow> rollback_linux previous e h
           | (Inr _, h) \<Rightarrow> (Inr (), h)))"

definition uninstall_linux_proxy :: "host \<Rightarrow> unit io" where
  "uninstall_linux_proxy h =
     and_then (load_state h) (\<lambda>(s, found) h.
       if found \<and> ps_platform s = ''linux'' then clear_state (restore_linux s h)
       else (Inr (), unset_all [''http_proxy'', ''https_proxy'', ''no_proxy'', ''HTTP_PROXY'', ''HTTPS_PROXY'',
                                ''NO_PROXY''] h))"

subsection \<open>macOS\<close>

definition macos_network_services :: "host \<Rightarrow> string list io" where
  "macos_network_services h =
     (case run_process [''networksetup'', ''-listallnetworkservices''] h of
        ((output, Some e), h) \<Rightarrow>
          (Inl (Err (''list network services: '' @ err_text e @ '' ('' @ trim_space output @ '')'')), h)
      | ((output, None), h) \<Rightarrow>
          (Inr (filter (\<lambda>l. l \<noteq> [] \<and> \<not> has_prefix l ''An asterisk'')
                  (map trim_space (split_byte CHR 0x0A output))), h))"

text \<open>Commands whose errors are ignored.\<close>

fun run_ignoring :: "string list list \<Rightarrow> host \<Rightarrow> host" where
  "run_ignoring [] h = h"
| "run_ignoring (c # cs) h = run_ignoring cs (ignore (run_command c h))"

definition service_off :: "string \<Rightarrow> string list list" where
  "service_off s =
     [[''networksetup'', ''-setwebproxystate'', s, ''off''],
      [''networksetup'', ''-setsecurewebproxystate'', s, ''off'']]"

definition uninstall_macos_proxy :: "host \<Rightarrow> unit io" where
  "uninstall_macos_proxy h =
     and_then (macos_network_services h) (\<lambda>services h.
       clear_state (run_ignoring (concat (map service_off services)) h))"

text \<open>The commands of one service, each with the text its failure is reported with.\<close>

definition service_on :: "string \<Rightarrow> string \<Rightarrow> string \<Rightarrow> (string \<times> string list) list" where
  "service_on host port s =
     [(''failed to set web proxy for '', [''networksetup'', ''-setwebproxy'', s, host, port]),
      (''failed to set secure web proxy for '', [''networksetup'', ''-setsecurewebproxy'', s, host, port]),
      (''failed to enable web proxy for '', [''networksetup'', ''-setwebproxystate'', s, ''on'']),
      (''failed to enable secure web proxy for '', [''networksetup'', ''-setsecurewebproxystate'', s, ''on'']),
      (''failed to set bypass domains for '',
        [''networksetup'', ''-setproxybypassdomains'', s] @ default_bypass_entries)]"

fun run_service :: "string \<Rightarrow> (string \<times> string list) list \<Rightarrow> host \<Rightarrow> unit io" where
  "run_service s [] h = done_ok h"
| "run_service s ((what, c) # cs) h =
     (case run_command c h of
        (Inl e, h) \<Rightarrow> (Inl (wrap_err (what @ go_quote s @ '': '') e), ignore (uninstall_macos_proxy h))
      | (Inr _, h) \<Rightarrow> run_service s cs h)"

fun run_services :: "string \<Rightarrow> string \<Rightarrow> string list \<Rightarrow> host \<Rightarrow> unit io" where
  "run_services host port [] h = done_ok h"
| "run_services host port (s # ss) h =
     and_then (run_service s (service_on host port s) h) (\<lambda>_ h. run_services host port ss h)"

definition install_macos_proxy :: "string \<Rightarrow> string \<Rightarrow> host \<Rightarrow> unit io" where
  "install_macos_proxy host port h =
     and_then (macos_network_services h) (\<lambda>services h.
       if services = [] then (Inl (Err ''no active macOS network services found''), h)
       else and_then (run_services host port services h) (\<lambda>_ h.
         save_state (zero_platform_state\<lparr> ps_platform := ''macos'' \<rparr>) h))"

subsection \<open>Windows\<close>

definition uninstall_windows_proxy :: "host \<Rightarrow> unit io" where
  "uninstall_windows_proxy h =
     (let h = ignore (run_command [''netsh'', ''winhttp'', ''reset'', ''proxy''] h)
      in and_then (load_state h) (\<lambda>(s, found) h.
           if found \<and> ps_platform s = ''windows''
           then clear_state (restore_all
             [(''http_proxy'', ps_http_proxy s), (''https_proxy'', ps_https_proxy s),
              (''HTTP_PROXY'', ps_http_proxy_upper s), (''HTTPS_PROXY'', ps_https_proxy_upper s)] h)
           else (Inr (), unset_all [''http_proxy'', ''https_proxy'', ''HTTP_PROXY'', ''HTTPS_PROXY''] h)))"

definition windows_previous :: "host \<Rightarrow> platform_state" where
  "windows_previous h = zero_platform_state\<lparr> ps_platform := ''windows'',
     ps_http_proxy := getenv ''http_proxy'' h, ps_https_proxy := getenv ''https_proxy'' h,
     ps_http_proxy_upper := getenv ''HTTP_PROXY'' h, ps_https_proxy_upper := getenv ''HTTPS_PROXY'' h \<rparr>"

definition install_windows_proxy :: "string \<Rightarrow> string \<Rightarrow> host \<Rightarrow> unit io" where
  "install_windows_proxy host port h =
     (let proxy = host @ '':'' @ port; url = ''http://'' @ proxy
      in and_then (save_state (windows_previous h) h) (\<lambda>_ h.
           case run_command [''netsh'', ''winhttp'', ''set'', ''proxy'', proxy,
                             join_str '';'' default_bypass_entries] h of
             (Inl e, h) \<Rightarrow> (Inl (wrap_err ''set WinHTTP proxy failed: '' e), ignore (clear_state h))
           | (Inr _, h) \<Rightarrow>
               (case set_all [(''http_proxy'', url), (''https_proxy'', url), (''HTTP_PROXY'', url),
                              (''HTTPS_PROXY'', url)] h of
                  (Inl e, h) \<Rightarrow> (Inl e, ignore (uninstall_windows_proxy h))
                | (Inr _, h) \<Rightarrow> (Inr (), h))))"

subsection \<open>Install, uninstall, status\<close>

definition platform_install :: "string \<Rightarrow> host \<Rightarrow> unit io" where
  "platform_install addr h =
     (case validate_supported h of
        Some e \<Rightarrow> (Inl e, h)
      | None \<Rightarrow>
          (case split_listen_addr addr of
             Inl e \<Rightarrow> (Inl e, h)
           | Inr (host, port) \<Rightarrow>
               if host \<noteq> ''127.0.0.1'' \<and> host \<noteq> ''localhost''
               then (Inl (Err ''proxy listen host must be localhost or 127.0.0.1''), h)
               else if detect h = ''linux'' then install_linux_proxy host port h
               else if detect h = ''macos'' then install_macos_proxy host port h
               else if detect h = ''windows'' then install_windows_proxy host port h
               else (Inl (unsupported h), h)))"

definition platform_uninstall :: "host \<Rightarrow> unit io" where
  "platform_uninstall h =
     (case validate_supported h of
        Some e \<Rightarrow> (Inl e, h)
      | None \<Rightarrow>
          if detect h = ''linux'' then uninstall_linux_proxy h
          else if detect h = ''macos'' then uninstall_macos_proxy h
          else if detect h = ''windows'' then uninstall_windows_proxy h
          else (Inl (unsupported h), h))"

fun collect_loop :: "string list \<Rightarrow> string list \<Rightarrow> string list" where
  "collect_loop seen [] = []"
| "collect_loop seen (raw # rest) =
     (let v = trim_space raw
      in if v = [] then collect_loop seen rest
         else if v \<in> set seen then collect_loop seen rest
         else v # collect_loop (v # seen) rest)"

definition collect_non_empty :: "string list \<Rightarrow> string list" where
  "collect_non_empty vs = collect_loop [] vs"

definition platform_status :: "host \<Rightarrow> runtime_status \<times> host" where
  "platform_status h =
     (let s = \<lparr> st_platform = detect h, st_supported = False, st_supported_error = [],
                st_current_proxy_targets = [], st_bypass_entries = [], st_state_file_path = [],
                st_state_file_present = False, st_state_file_error = [] \<rparr>
      in case validate_supported h of
        Some e \<Rightarrow> (s\<lparr> st_supported_error := err_text e \<rparr>, h)
      | None \<Rightarrow>
          (let s = s\<lparr> st_supported := True, st_bypass_entries := default_bypass_entries \<rparr>;
               s = (case state_file_path h of
                      Inr path \<Rightarrow> s\<lparr> st_state_file_path := path \<rparr>
                    | Inl e \<Rightarrow> s\<lparr> st_state_file_error := err_text e \<rparr>)
           in case load_state h of
                (Inl e, h) \<Rightarrow> (s\<lparr> st_state_file_error := err_text e \<rparr>, h)
              | (Inr (state, found), h) \<Rightarrow>
                  (let s = s\<lparr> st_state_file_present := found \<rparr>
                   in (if found
                       then s\<lparr> st_current_proxy_targets := collect_non_empty
                              [ps_http_proxy state, ps_https_proxy state, ps_http_proxy_upper state,
                               ps_https_proxy_upper state] \<rparr>
                       else s, h))))"

end
