(* ===== verification/Platform_Theorems.thy ===== *)
theory Platform_Theorems
  imports Proxy_Platform
begin

text \<open>
  Installing and uninstalling the proxy settings: \<^verbatim>\<open>Uninstall\<close> brings back the environment that
  \<^verbatim>\<open>Install\<close> saved, an \<^verbatim>\<open>Install\<close> that fails leaves the environment as it was, and on macOS the
  commands that are run are those of the services, in order.
\<close>

subsection \<open>What the environment operations change\<close>

text \<open>Only variables of \<open>K\<close> differ, and nothing else of the host.\<close>

definition env_only :: "string set \<Rightarrow> host \<Rightarrow> host \<Rightarrow> bool" where
  "env_only K h h' \<longleftrightarrow>
     (\<exists>e. h' = h\<lparr> h_env := e \<rparr> \<and> (\<forall>k. env_key h k \<notin> env_key h ` K \<longrightarrow> e (env_key h k) = h_env h (env_key h k)))"

lemma env_key_env [simp]: "env_key (h\<lparr> h_env := e \<rparr>) = env_key h"
  by (rule ext) (simp add: env_key_def)

lemma env_only_refl [simp]: "env_only K h h"
  unfolding env_only_def by (rule exI [of _ "h_env h"]) simp

lemma env_only_trans: "env_only K h1 h2 \<Longrightarrow> env_only K h2 h3 \<Longrightarrow> env_only K h1 h3"
  unfolding env_only_def by fastforce

lemma env_only_mono: "env_only K h h' \<Longrightarrow> K \<subseteq> L \<Longrightarrow> env_only L h h'"
  unfolding env_only_def by blast

lemma env_only_getenv: "env_only K h h' \<Longrightarrow> env_key h k \<notin> env_key h ` K \<Longrightarrow> getenv k h' = getenv k h"
  by (auto simp: env_only_def getenv_def)

lemma env_only_upd: "env_only {k} h (h\<lparr> h_env := (h_env h)(env_key h k := x) \<rparr>)"
  unfolding env_only_def by (rule exI [of _ "(h_env h)(env_key h k := x)"]) simp

lemma setenv_only: "setenv k v h = (r, h') \<Longrightarrow> env_only {k} h h'"
  by (auto simp: setenv_def env_only_upd split: if_splits option.splits)

lemma set_all_only: "set_all kvs h = (r, h') \<Longrightarrow> env_only (fst ` set kvs) h h'"
proof (induction kvs arbitrary: h)
  case Nil
  then show ?case by (simp add: done_ok_def)
next
  case (Cons kv kvs)
  obtain k v where kv: "kv = (k, v)" by fastforce
  obtain r1 h1 where s: "setenv k v h = (r1, h1)" by fastforce
  from setenv_only [OF s] have a: "env_only (fst ` set (kv # kvs)) h h1" by (rule env_only_mono) (simp add: kv)
  show ?case
  proof (cases r1)
    case (Inl e)
    with Cons.prems s kv a show ?thesis by simp
  next
    case (Inr u)
    with Cons.prems s kv have "set_all kvs h1 = (r, h')" by simp
    from Cons.IH [OF this] have "env_only (fst ` set (kv # kvs)) h1 h'" by (rule env_only_mono) auto
    with a show ?thesis by (rule env_only_trans)
  qed
qed

text \<open>A value that can be written back: no NUL byte and no error of the system.\<close>

definition writable :: "host \<Rightarrow> string \<Rightarrow> string \<Rightarrow> bool" where
  "writable h k v \<longleftrightarrow> CHR 0x00 \<notin> set v \<and> h_env_fault h k v = None"

definition env_name_ok :: "string \<Rightarrow> bool" where
  "env_name_ok k \<longleftrightarrow> k \<noteq> [] \<and> CHR ''='' \<notin> set k \<and> CHR 0x00 \<notin> set k"

lemma restore_env_effect:
  assumes "env_name_ok k" and "writable h k v"
  shows "ignore (restore_env k v h) = h\<lparr> h_env := (h_env h)(env_key h k := (if v = [] then None else Some v)) \<rparr>"
  using assms
  by (simp add: ignore_def restore_env_def unsetenv_def setenv_def env_text_ok_def env_name_ok_def writable_def)

lemma restore_env_value:
  assumes "env_name_ok k" and "writable h k v"
  shows "getenv l (ignore (restore_env k v h)) = (if env_key h l = env_key h k then v else getenv l h)"
  by (simp add: restore_env_effect [OF assms] getenv_def)

lemma restore_env_only: "env_only {k} h (ignore (restore_env k v h))"
  by (auto simp: ignore_def restore_env_def unsetenv_def env_only_upd setenv_def split: option.splits)

lemma restore_all_only: "env_only (fst ` set kvs) h (restore_all kvs h)"
proof (induction kvs arbitrary: h)
  case Nil
  then show ?case by simp
next
  case (Cons kv kvs)
  obtain k v where kv: "kv = (k, v)" by fastforce
  have "env_only (fst ` set (kv # kvs)) h (ignore (restore_env k v h))"
    by (rule env_only_mono [OF restore_env_only]) (simp add: kv)
  moreover have "env_only (fst ` set (kv # kvs)) (ignore (restore_env k v h)) (restore_all kvs (ignore (restore_env k v h)))"
    by (rule env_only_mono [OF Cons.IH]) auto
  ultimately show ?case unfolding kv restore_all.simps by (rule env_only_trans)
qed

text \<open>Restoring saved values gives every variable of the list its old value.\<close>

lemma restore_all_value:
  assumes "\<And>k v. (k, v) \<in> set kvs \<Longrightarrow> env_name_ok k \<and> writable h k v \<and> v = f (env_key h k)"
  shows "getenv l (restore_all kvs h) = (if env_key h l \<in> env_key h ` fst ` set kvs then f (env_key h l) else getenv l h)"
  using assms
proof (induction kvs arbitrary: h)
  case Nil
  then show ?case by simp
next
  case (Cons kv kvs)
  obtain k v where kv: "kv = (k, v)" by fastforce
  have "env_name_ok k \<and> writable h k v \<and> v = f (env_key h k)" by (rule Cons.prems) (simp add: kv)
  then have k: "env_name_ok k" "writable h k v" "v = f (env_key h k)" by blast+
  let ?h = "ignore (restore_env k v h)"
  note eff = restore_env_effect [OF k(1,2)]
  have key: "env_key ?h = env_key h" "\<And>k v. writable ?h k v = writable h k v"
    by (simp_all add: eff writable_def)
  have "getenv l (restore_all kvs ?h) =
      (if env_key ?h l \<in> env_key ?h ` fst ` set kvs then f (env_key ?h l) else getenv l ?h)"
    by (rule Cons.IH) (use Cons.prems key in auto)
  note IH = this [unfolded key(1)]
  show ?case
    unfolding kv restore_all.simps IH restore_env_value [OF k(1,2)] k(3) [symmetric] using k(3) by auto
qed

subsection \<open>The state file\<close>

definition platform_text_ok :: "platform_state \<Rightarrow> bool" where
  "platform_text_ok s \<longleftrightarrow>
     list_all (\<lambda>t. utf8_fix t = t)
       [ps_platform s, ps_http_proxy s, ps_https_proxy s, ps_no_proxy s, ps_http_proxy_upper s,
        ps_https_proxy_upper s, ps_no_proxy_upper s]"

interpretation platform_file: struct_file platform_members zero_platform_state platform_text_ok
proof
  show "distinct (map fst platform_members)" "list_all (\<lambda>(n, e, d). list_all is_ascii n) platform_members"
    unfolding platform_members_def member_defs by code_simp+
  show "list_all (\<lambda>(k, j). no_frac j \<and> json_depth j = 0) (marshal_members platform_members s)" for s
    by (simp add: marshal_members_def platform_members_def member_defs List.map_filter_simps)
  show "apply_members platform_members s zero_platform_state = Some s" if "platform_text_ok s" for s
    using that by (simp add: platform_members_def member_defs platform_text_ok_def zero_platform_state_def)
qed

lemmas platform_decode = platform_file.read_back

definition holds_state :: "platform_state \<Rightarrow> host \<Rightarrow> bool" where
  "holds_state s h \<longleftrightarrow>
     (\<exists>p. state_file_path h = Inr p \<and>
        h_files h p = Some (json_indent (marshal_struct platform_members s) @ [CHR 0x0A]))"

lemma save_state_ok:
  assumes "save_state s h = (Inr u, h')"
  obtains p where "state_file_path h = Inr p"
    and "h' = h\<lparr> h_ops := Suc (Suc (h_ops h)),
      h_files := (h_files h)(p \<mapsto> json_indent (marshal_struct platform_members s) @ [CHR 0x0A]) \<rparr>"
  using assms by (auto simp: save_state_def and_then_Inr mkdir_all_ok write_file_ok split: sum.splits)

lemma save_state_quiet:
  assumes "state_file_path h = Inr p" and "quiet h"
  shows "save_state s h = (Inr (), h\<lparr> h_ops := Suc (Suc (h_ops h)),
      h_files := (h_files h)(p \<mapsto> json_indent (marshal_struct platform_members s) @ [CHR 0x0A]) \<rparr>)"
  using assms by (simp add: save_state_def mkdir_all_def write_file_def next_fault_def quiet_def)

lemma load_state_holds:
  assumes "holds_state s h" and "quiet h" and "platform_text_ok s"
  shows "load_state h = (Inr (s, True), h\<lparr> h_ops := Suc (h_ops h) \<rparr>)"
  using assms
  by (auto simp: holds_state_def load_state_def read_file_def next_fault_def quiet_def platform_decode)

lemma clear_state_quiet:
  assumes "state_file_path h = Inr p" and "quiet h"
  shows "clear_state h = (Inr (), h\<lparr> h_ops := Suc (h_ops h), h_files := (h_files h)(p := None) \<rparr>)"
proof (cases "h_files h p")
  case None
  then have "(h_files h)(p := None) = h_files h" by auto
  with None assms show ?thesis by (simp add: clear_state_def remove_file_def next_fault_def quiet_def)
next
  case (Some s)
  with assms show ?thesis by (simp add: clear_state_def remove_file_def next_fault_def quiet_def)
qed

subsection \<open>Uninstall after install\<close>

text \<open>The variables a platform's proxy settings live in.\<close>

definition proxy_vars :: "host \<Rightarrow> string list" where
  "proxy_vars h =
     (if h_goos h = ''linux''
      then [''http_proxy'', ''https_proxy'', ''no_proxy'', ''HTTP_PROXY'', ''HTTPS_PROXY'', ''NO_PROXY'']
      else if h_goos h = ''windows'' then [''http_proxy'', ''https_proxy'', ''HTTP_PROXY'', ''HTTPS_PROXY'']
      else [])"

text \<open>The values are text that can be written to a JSON file and back into the environment.\<close>

definition env_recoverable :: "host \<Rightarrow> bool" where
  "env_recoverable h \<longleftrightarrow>
     list_all (\<lambda>k. utf8_fix (getenv k h) = getenv k h \<and> writable h k (getenv k h)) (proxy_vars h)"

text \<open>What the platform saves.\<close>

definition saved_previous :: "host \<Rightarrow> platform_state" where
  "saved_previous h = (if h_goos h = ''linux'' then linux_previous h else windows_previous h)"

definition env_lists :: "host \<Rightarrow> bool" where
  "env_lists h \<longleftrightarrow> h_goos h = ''linux'' \<or> h_goos h = ''windows''"

lemma saved_text_ok:
  assumes "env_recoverable h" and "env_lists h"
  shows "platform_text_ok (saved_previous h)"
proof -
  have "utf8_fix ''linux'' = ''linux''" "utf8_fix ''windows'' = ''windows''"
    by (rule utf8_fix_ascii, code_simp)+
  with assms show ?thesis
    by (auto simp: env_recoverable_def env_lists_def saved_previous_def proxy_vars_def platform_text_ok_def
        linux_previous_def windows_previous_def zero_platform_state_def)
qed

text \<open>The restoring assignments of both platforms.\<close>

definition previous_values :: "host \<Rightarrow> (string \<times> string) list" where
  "previous_values h = map (\<lambda>k. (k, getenv k h)) (proxy_vars h)"

lemma restore_previous:
  assumes "h_goos h' = h_goos h" and "h_env_fault h' = h_env_fault h" and "env_recoverable h"
  shows "getenv l (restore_all (previous_values h) h') =
    (if env_key h l \<in> env_key h ` set (proxy_vars h) then getenv l h else getenv l h')"
proof -
  have k: "env_key h' = env_key h" using assms(1) by (auto simp: env_key_def fun_eq_iff)
  have names: "list_all env_name_ok (proxy_vars h)"
    by (simp add: proxy_vars_def env_name_ok_def)
  let ?f = "\<lambda>k. case h_env h k of None \<Rightarrow> [] | Some v \<Rightarrow> v"
  have "getenv l (restore_all (previous_values h) h') =
    (if env_key h' l \<in> env_key h' ` fst ` set (previous_values h) then ?f (env_key h' l) else getenv l h')"
  proof (rule restore_all_value)
    fix k v
    assume "(k, v) \<in> set (previous_values h)"
    then have "k \<in> set (proxy_vars h)" and v: "v = getenv k h" by (auto simp: previous_values_def)
    with names assms(3) have "env_name_ok k" "writable h k v"
      unfolding env_recoverable_def list_all_iff by blast+
    with v assms(2) k show "env_name_ok k \<and> writable h' k v \<and> v = ?f (env_key h' k)"
      by (simp add: writable_def getenv_def)
  qed
  moreover have "fst ` set (previous_values h) = set (proxy_vars h)"
    by (force simp: previous_values_def)
  ultimately show ?thesis using k by (simp add: getenv_def)
qed

lemma restore_all_host:
  "h_files (restore_all kvs h) = h_files h" "h_ops (restore_all kvs h) = h_ops h"
  "h_goos (restore_all kvs h) = h_goos h" "h_fault (restore_all kvs h) = h_fault h"
  "h_env_fault (restore_all kvs h) = h_env_fault h"
  using restore_all_only [of kvs h] by (auto simp: env_only_def)

text \<open>No proxy variable names the state file or the home directory.\<close>

lemma names_apart:
  assumes "env_lists h"
  shows "env_key h state_env_var \<notin> env_key h ` set (proxy_vars h)"
    and "env_key h (if h_goos h = ''windows'' then ''USERPROFILE'' else ''HOME'') \<notin> env_key h ` set (proxy_vars h)"
proof -
  have u: "go_upper state_env_var = state_env_var" "go_upper ''USERPROFILE'' = ''USERPROFILE''"
    "go_upper ''http_proxy'' = ''HTTP_PROXY''" "go_upper ''https_proxy'' = ''HTTPS_PROXY''"
    "go_upper ''HTTP_PROXY'' = ''HTTP_PROXY''" "go_upper ''HTTPS_PROXY'' = ''HTTPS_PROXY''"
    by code_simp+
  with assms show "env_key h state_env_var \<notin> env_key h ` set (proxy_vars h)"
    "env_key h (if h_goos h = ''windows'' then ''USERPROFILE'' else ''HOME'') \<notin> env_key h ` set (proxy_vars h)"
    by (auto simp: env_lists_def env_key_def proxy_vars_def state_env_var_def)
qed

lemma state_file_path_env:
  assumes "env_lists h" and "env_only (set (proxy_vars h)) h h'"
  shows "state_file_path h' = state_file_path h"
proof -
  have g: "h_goos h' = h_goos h" using assms(2) by (auto simp: env_only_def)
  have "user_home_dir h' = user_home_dir h"
    using env_only_getenv [OF assms(2) names_apart(2) [OF assms(1)]] assms(1) g
    by (auto simp: user_home_dir_def env_lists_def Let_def split: if_splits)
  then show ?thesis
    using env_only_getenv [OF assms(2) names_apart(1) [OF assms(1)]] by (simp add: state_file_path_def Let_def)
qed

lemma getenv_host [simp]:
  "getenv k (h\<lparr> h_ops := n \<rparr>) = getenv k h" "getenv k (h\<lparr> h_files := f \<rparr>) = getenv k h"
  "getenv k (h\<lparr> h_runs := r \<rparr>) = getenv k h"
  by (simp_all add: getenv_def env_key_def)

lemma state_file_path_host [simp]:
  "state_file_path (h\<lparr> h_ops := n \<rparr>) = state_file_path h" "state_file_path (h\<lparr> h_files := f \<rparr>) = state_file_path h"
  "state_file_path (h\<lparr> h_runs := r \<rparr>) = state_file_path h"
  by (simp_all add: state_file_path_def user_home_dir_def Let_def)

lemma linux_restores: "h_goos h = ''linux'' \<Longrightarrow> restore_linux (linux_previous h) h' = restore_all (previous_values h) h'"
  by (simp add: restore_linux_def linux_previous_def previous_values_def proxy_vars_def)

lemma windows_restores:
  "h_goos h = ''windows'' \<Longrightarrow>
   restore_all [(''http_proxy'', ps_http_proxy (windows_previous h)), (''https_proxy'', ps_https_proxy (windows_previous h)),
     (''HTTP_PROXY'', ps_http_proxy_upper (windows_previous h)),
     (''HTTPS_PROXY'', ps_https_proxy_upper (windows_previous h))] h' = restore_all (previous_values h) h'"
  by (simp add: windows_previous_def previous_values_def proxy_vars_def)

lemma run_command_host:
  "snd (run_command c h) = h\<lparr> h_runs := h_runs h @ [c] \<rparr>"
  by (auto simp: run_command_def run_process_def split: option.splits prod.splits)

lemma detect_lists: "env_lists h \<Longrightarrow> detect h = h_goos h \<and> validate_supported h = None"
  by (auto simp: env_lists_def detect_def validate_supported_def)

text \<open>Restoring and removing the state file, the common end of both uninstallers.\<close>

lemma restore_and_clear:
  assumes "env_lists h" and "h_goos h' = h_goos h" and "h_env_fault h' = h_env_fault h" and "env_recoverable h"
    and "state_file_path h' = Inr p" and "quiet h'"
  shows "\<exists>h3. clear_state (restore_all (previous_values h) h') = (Inr (), h3) \<and>
    h_files h3 = (h_files h')(p := None) \<and>
    (\<forall>k. getenv k h3 = (if env_key h k \<in> env_key h ` set (proxy_vars h) then getenv k h else getenv k h'))"
proof -
  let ?r = "restore_all (previous_values h) h'"
  have vars: "proxy_vars h' = proxy_vars h" "env_lists h'" using assms(1,2) by (simp_all add: proxy_vars_def env_lists_def)
  have "fst ` set (previous_values h) = set (proxy_vars h')" unfolding vars by (force simp: previous_values_def)
  with restore_all_only [of "previous_values h" h'] have "env_only (set (proxy_vars h')) h' ?r" by simp
  from state_file_path_env [OF vars(2) this] assms(5) have "state_file_path ?r = Inr p" by simp
  moreover have "quiet ?r" using assms(6) by (simp add: quiet_def restore_all_host)
  ultimately have "clear_state ?r = (Inr (), ?r\<lparr> h_ops := Suc (h_ops ?r), h_files := (h_files ?r)(p := None) \<rparr>)"
    by (rule clear_state_quiet)
  then show ?thesis using restore_previous [OF assms(2,3,4)] by (auto simp: restore_all_host)
qed

lemma uninstall_restores:
  assumes "env_lists h" and "h_goos h' = h_goos h" and "h_env_fault h' = h_env_fault h" and "env_recoverable h"
    and "holds_state (saved_previous h) h'" and "quiet h'"
  shows "\<exists>h3 p. platform_uninstall h' = (Inr (), h3) \<and> state_file_path h' = Inr p \<and>
    h_files h3 = (h_files h')(p := None) \<and>
    (\<forall>k. getenv k h3 = (if env_key h k \<in> env_key h ` set (proxy_vars h) then getenv k h else getenv k h'))"
proof -
  from assms(5) obtain p where p: "state_file_path h' = Inr p" by (auto simp: holds_state_def)
  have d: "detect h' = h_goos h" "validate_supported h' = None"
    using detect_lists [of h'] assms(1,2) by (simp_all add: env_lists_def)
  note t = saved_text_ok [OF assms(4,1)]
  show ?thesis
  proof (cases "h_goos h = ''linux''")
    case True
    let ?h = "h'\<lparr> h_ops := Suc (h_ops h') \<rparr>"
    from load_state_holds [OF assms(5,6) t] True have "platform_uninstall h' = clear_state (restore_all (previous_values h) ?h)"
      by (simp add: platform_uninstall_def d uninstall_linux_proxy_def saved_previous_def linux_restores)
         (simp add: linux_previous_def)
    moreover have "state_file_path ?h = Inr p" "quiet ?h" "getenv k ?h = getenv k h'" for k
      using p assms(6) by (simp_all add: quiet_def)
    ultimately show ?thesis using restore_and_clear [OF assms(1) _ _ assms(4), of ?h p] assms(2,3) p by auto
  next
    case False
    with assms(1) have w: "h_goos h = ''windows''" by (simp add: env_lists_def)
    let ?c = "[''netsh'', ''winhttp'', ''reset'', ''proxy'']"
    let ?g = "h'\<lparr> h_runs := h_runs h' @ [?c] \<rparr>"
    let ?h = "?g\<lparr> h_ops := Suc (h_ops h') \<rparr>"
    have path: "state_file_path ?g = Inr p" "state_file_path ?h = Inr p" "quiet ?g" "quiet ?h" "\<And>k. getenv k ?h = getenv k h'"
      using p assms(6) by (simp_all add: quiet_def)
    with assms(5) p have "holds_state (saved_previous h) ?g" by (simp add: holds_state_def)
    from load_state_holds [OF this path(3) t] w False
    have "platform_uninstall h' = clear_state (restore_all (previous_values h) ?h)"
      by (simp add: platform_uninstall_def d uninstall_windows_proxy_def saved_previous_def ignore_def
          run_command_host Let_def windows_restores del: restore_all.simps)
         (simp add: windows_previous_def)
    with restore_and_clear [OF assms(1) _ _ assms(4), of ?h p] path assms(2,3) p show ?thesis by auto
  qed
qed

subsection \<open>Install\<close>

text \<open>The same host but for files, environment, operations and commands.\<close>

definition same_system :: "host \<Rightarrow> host \<Rightarrow> bool" where
  "same_system h h' \<longleftrightarrow>
     h_goos h' = h_goos h \<and> h_fault h' = h_fault h \<and> h_env_fault h' = h_env_fault h \<and> h_clock h' = h_clock h"

lemma save_state_system:
  "save_state s h = (r, h') \<Longrightarrow> same_system h h' \<and> h_env h' = h_env h"
  by (auto simp: save_state_def mkdir_all_def write_file_def next_fault_def same_system_def
      split: sum.splits option.splits io_fault.splits)

lemma env_only_system: "env_only K h h' \<Longrightarrow> same_system h h' \<and> h_files h' = h_files h \<and> h_ops h' = h_ops h"
  by (auto simp: env_only_def same_system_def)

lemma same_getenv: "h_env h' = h_env h \<Longrightarrow> same_system h h' \<Longrightarrow> getenv k h' = getenv k h"
  by (simp add: getenv_def env_key_def same_system_def)

lemma run_command_system:
  "run_command c h = (r, h') \<Longrightarrow> same_system h h' \<and> h_env h' = h_env h \<and> h_files h' = h_files h"
  using run_command_host [of c h] by (auto simp: same_system_def)

text \<open>A step that is undone when it fails.\<close>

lemma undo_Inr:
  "(case m of (Inl e, h) \<Rightarrow> (Inl (w e), u e h) | (Inr x, h) \<Rightarrow> k h) = (Inr y, s') \<longleftrightarrow>
     (\<exists>x s. m = (Inr x, s) \<and> k s = (Inr y, s'))"
  by (cases m) (auto split: sum.splits)

text \<open>The assignments of an installation are to the proxy variables.\<close>

lemma assignments_vars:
  "h_goos h = ''linux'' \<Longrightarrow> fst ` set (linux_assignments host port) = set (proxy_vars h)"
  "h_goos h = ''windows'' \<Longrightarrow>
    fst ` set [(''http_proxy'', u), (''https_proxy'', u), (''HTTP_PROXY'', u), (''HTTPS_PROXY'', u)] = set (proxy_vars h)"
  by (auto simp: linux_assignments_def proxy_vars_def Let_def)

text \<open>
  A successful installation on Linux or Windows: the previous values are in the state file, and
  only the proxy variables have changed.
\<close>

lemma install_saves:
  assumes "env_lists h" and "platform_install addr h = (Inr (), h1)"
  shows "\<exists>p. state_file_path h = Inr p \<and> same_system h h1 \<and>
    h_files h1 = (h_files h)(p \<mapsto> json_indent (marshal_struct platform_members (saved_previous h)) @ [CHR 0x0A]) \<and>
    (\<forall>k. env_key h k \<notin> env_key h ` set (proxy_vars h) \<longrightarrow> getenv k h1 = getenv k h)"
proof -
  have d: "detect h = h_goos h" "validate_supported h = None" using detect_lists [OF assms(1)] by simp_all
  from assms(2) obtain host port where i: "(if h_goos h = ''linux'' then install_linux_proxy host port h
      else install_windows_proxy host port h) = (Inr (), h1)"
    using assms(1) d by (auto simp: platform_install_def env_lists_def split: sum.splits if_splits)
  have "\<exists>g g' kvs u. save_state (saved_previous h) h = (Inr u, g) \<and> h_env g' = h_env g \<and> same_system g g' \<and>
      h_files g' = h_files g \<and> set_all kvs g' = (Inr (), h1) \<and> fst ` set kvs = set (proxy_vars h)"
  proof (cases "h_goos h = ''linux''")
    case True
    with i obtain g u where "save_state (linux_previous h) h = (Inr u, g)" "set_all (linux_assignments host port) g = (Inr (), h1)"
      unfolding install_linux_proxy_def Let_def rollback_linux_def if_P [OF True] and_then_Inr undo_Inr by auto
    moreover have "same_system g g" by (simp add: same_system_def)
    ultimately show ?thesis
      using assignments_vars(1) [OF True] True unfolding saved_previous_def
      by (intro exI [of _ g] exI [of _ "linux_assignments host port"]) auto
  next
    case False
    with assms(1) have w: "h_goos h = ''windows''" by (simp add: env_lists_def)
    let ?u = "''http://'' @ host @ '':'' @ port"
    let ?kvs = "[(''http_proxy'', ?u), (''https_proxy'', ?u), (''HTTP_PROXY'', ?u), (''HTTPS_PROXY'', ?u)]"
    from i False obtain g u g' where "save_state (windows_previous h) h = (Inr u, g)"
      and g': "run_command [''netsh'', ''winhttp'', ''set'', ''proxy'', host @ '':'' @ port,
          join_str '';'' default_bypass_entries] g = (Inr (), g')"
      and "set_all ?kvs g' = (Inr (), h1)"
      unfolding install_windows_proxy_def Let_def if_not_P [OF False] and_then_Inr undo_Inr
      by (auto simp del: set_all.simps)
    moreover from run_command_system [OF g'] have "h_env g' = h_env g" "same_system g g'" "h_files g' = h_files g"
      by simp_all
    moreover note assignments_vars(2) [OF w, of ?u]
    ultimately show ?thesis unfolding saved_previous_def if_not_P [OF False] by blast
  qed
  then obtain g g' kvs u where s: "save_state (saved_previous h) h = (Inr u, g)" and g: "h_env g' = h_env g" "same_system g g'"
    "h_files g' = h_files g" and kvs: "set_all kvs g' = (Inr (), h1)" "fst ` set kvs = set (proxy_vars h)" by blast
  obtain p where p: "state_file_path h = Inr p"
    "h_files g = (h_files h)(p \<mapsto> json_indent (marshal_struct platform_members (saved_previous h)) @ [CHR 0x0A])"
    using s by (elim save_state_ok) simp
  note sys = save_state_system [OF s] env_only_system [OF set_all_only [OF kvs(1)]]
  have same: "same_system h h1" "same_system h g'" "h_env g' = h_env h" using sys g by (simp_all add: same_system_def)
  then have "env_key g' = env_key h" by (auto simp: env_key_def same_system_def fun_eq_iff)
  with env_only_getenv [OF set_all_only [OF kvs(1)]] kvs(2) same_getenv [OF same(3,2)]
  have "\<forall>k. env_key h k \<notin> env_key h ` set (proxy_vars h) \<longrightarrow> getenv k h1 = getenv k h" by simp
  with p g(3) sys same(1) show ?thesis by auto
qed

text \<open>
  The environment and the files after \<^verbatim>\<open>Install\<close> and, maybe in a later process, \<^verbatim>\<open>Uninstall\<close>: the
  proxy variables are those before the installation, the others those before the removal, and
  the state file is gone.
\<close>

definition settings_restored :: "host \<Rightarrow> host \<Rightarrow> host \<Rightarrow> bool" where
  "settings_restored h h' h3 \<longleftrightarrow>
     (\<forall>k. getenv k h3 = (if env_key h k \<in> env_key h ` set (proxy_vars h) then getenv k h else getenv k h')) \<and>
     (\<exists>p. state_file_path h = Inr p \<and> h_files h3 = (h_files h)(p := None))"

lemma uninstall_restores_lemma:
  assumes "env_lists h" and "env_recoverable h" and "quiet h" and "platform_install addr h = (Inr (), h1)"
    and "state_file_path (h1\<lparr> h_env := e \<rparr>) = state_file_path h"
  shows "\<exists>h3. platform_uninstall (h1\<lparr> h_env := e \<rparr>) = (Inr (), h3) \<and> settings_restored h (h1\<lparr> h_env := e \<rparr>) h3"
proof -
  from install_saves [OF assms(1,4)] obtain p where p: "state_file_path h = Inr p" "same_system h h1"
    "h_files h1 = (h_files h)(p \<mapsto> json_indent (marshal_struct platform_members (saved_previous h)) @ [CHR 0x0A])"
    by blast
  let ?h = "h1\<lparr> h_env := e \<rparr>"
  from p assms(5) have "holds_state (saved_previous h) ?h" by (simp add: holds_state_def)
  moreover from p(2) assms(3) have "quiet ?h" "h_goos ?h = h_goos h" "h_env_fault ?h = h_env_fault h"
    by (simp_all add: quiet_def same_system_def)
  ultimately obtain h3 q where "platform_uninstall ?h = (Inr (), h3)" "state_file_path ?h = Inr q"
    "h_files h3 = (h_files ?h)(q := None)"
    "\<forall>k. getenv k h3 = (if env_key h k \<in> env_key h ` set (proxy_vars h) then getenv k h else getenv k ?h)"
    using uninstall_restores [OF assms(1) _ _ assms(2), of ?h] by blast
  with p assms(5) show ?thesis by (auto simp: settings_restored_def)
qed

text \<open>
  C32. \<^verbatim>\<open>Uninstall\<close> undoes \<^verbatim>\<open>Install\<close> on Linux and Windows. After a successful installation every proxy
  variable gets back the value it had, whatever the environment holds by then (it may be another
  process), the other variables are left alone, and the state file is gone; provided the files
  can be written and read, and the old values are text that JSON and the environment keep.
\<close>

theorem proxy_uninstall_restores:
  assumes "env_lists h" and "env_recoverable h" and "quiet h" and "platform_install addr h = (Inr (), h1)"
    and "state_file_path (h1\<lparr> h_env := e \<rparr>) = state_file_path h"
  shows "\<exists>h3. platform_uninstall (h1\<lparr> h_env := e \<rparr>) = (Inr (), h3) \<and> settings_restored h (h1\<lparr> h_env := e \<rparr>) h3"
  by (rule uninstall_restores_lemma [OF assms])

subsection \<open>Installations that fail\<close>

text \<open>Nothing on macOS touches the environment.\<close>

definition env_kept :: "host \<Rightarrow> host \<Rightarrow> bool" where
  "env_kept h h' \<longleftrightarrow> h_env h' = h_env h \<and> h_goos h' = h_goos h"

lemma env_kept_refl [simp]: "env_kept h h"
  by (simp add: env_kept_def)

lemma env_kept_trans: "env_kept h1 h2 \<Longrightarrow> env_kept h2 h3 \<Longrightarrow> env_kept h1 h3"
  by (simp add: env_kept_def)

lemma run_command_env: "env_kept h (snd (run_command c h))"
  by (simp add: run_command_host env_kept_def)

lemma run_ignoring_env: "env_kept h (run_ignoring cs h)"
proof (induction cs arbitrary: h)
  case Nil
  then show ?case by simp
next
  case (Cons c cs)
  from env_kept_trans [OF run_command_env Cons.IH] show ?case by (simp add: ignore_def)
qed

lemma clear_state_env: "env_kept h (snd (clear_state h))"
  by (auto simp: clear_state_def remove_file_def next_fault_def env_kept_def split: sum.splits option.splits)

lemma services_env: "env_kept h (snd (macos_network_services h))"
  by (auto simp: macos_network_services_def run_process_def env_kept_def split: prod.splits option.splits)

lemma uninstall_macos_env: "env_kept h (snd (uninstall_macos_proxy h))"
proof (cases "macos_network_services h")
  case (Pair r g)
  with services_env [of h] have a: "env_kept h g" by simp
  then show ?thesis
    using Pair env_kept_trans [OF a env_kept_trans [OF run_ignoring_env clear_state_env]]
    by (cases r) (simp_all add: uninstall_macos_proxy_def)
qed

lemma run_service_env: "env_kept h (snd (run_service s cs h))"
proof (induction s cs h rule: run_service.induct)
  case (1 s h)
  then show ?case by (simp add: done_ok_def)
next
  case (2 s what c cs h)
  obtain r g where r: "run_command c h = (r, g)" by fastforce
  with run_command_env [of h c] have a: "env_kept h g" by simp
  show ?case
  proof (cases r)
    case (Inl e)
    with r env_kept_trans [OF a uninstall_macos_env] show ?thesis by (simp add: ignore_def)
  next
    case (Inr u)
    with 2 r have "env_kept g (snd (run_service s cs g))" by simp
    with r Inr env_kept_trans [OF a] show ?thesis by simp
  qed
qed

lemma run_services_env: "env_kept h (snd (run_services host port ss h))"
proof (induction ss arbitrary: h)
  case Nil
  then show ?case by (simp add: done_ok_def)
next
  case (Cons s ss)
  obtain r g where r: "run_service s (service_on host port s) h = (r, g)" by fastforce
  with run_service_env [of h s "service_on host port s"] have a: "env_kept h g" by simp
  then show ?case using r env_kept_trans [OF a Cons.IH] by (cases r) simp_all
qed

lemma install_macos_env: "env_kept h (snd (install_macos_proxy host port h))"
proof (cases "macos_network_services h")
  case (Pair r g)
  with services_env [of h] have a: "env_kept h g" by simp
  show ?thesis
  proof (cases r)
    case (Inl e)
    with Pair a show ?thesis by (simp add: install_macos_proxy_def)
  next
    case (Inr ss)
    obtain r2 g2 where r2: "run_services host port ss g = (r2, g2)" by fastforce
    with run_services_env [of g host port ss] env_kept_trans [OF a] have b: "env_kept h g2" by simp
    obtain r3 g3 where s: "save_state (zero_platform_state\<lparr> ps_platform := ''macos'' \<rparr>) g2 = (r3, g3)" by fastforce
    with save_state_system [OF s] env_kept_trans [OF b] have "env_kept h g3" by (simp add: env_kept_def same_system_def)
    with Pair Inr a b r2 s show ?thesis by (cases r2) (simp_all add: install_macos_proxy_def)
  qed
qed

lemma env_kept_getenv: "env_kept h h' \<Longrightarrow> getenv k h' = getenv k h"
  by (simp add: env_kept_def getenv_def env_key_def)

lemma state_file_path_kept: "env_kept h h' \<Longrightarrow> state_file_path h' = state_file_path h"
  by (simp add: state_file_path_def user_home_dir_def env_kept_getenv Let_def) (simp add: env_kept_def)

lemma install_linux_failed:
  assumes "h_goos h = ''linux''" and "env_recoverable h" and "install_linux_proxy host port h = (Inl e, h1)"
  shows "getenv k h1 = getenv k h"
proof (cases "save_state (linux_previous h) h")
  case (Pair r g)
  note sys = save_state_system [OF Pair]
  then have g: "getenv l g = getenv l h" "env_key g = env_key h" for l
    by (auto intro: same_getenv simp: env_key_def same_system_def fun_eq_iff)
  show ?thesis
  proof (cases r)
    case (Inl err)
    with Pair assms(3) g show ?thesis by (simp add: install_linux_proxy_def)
  next
    case (Inr u)
    obtain r2 g2 where s: "set_all (linux_assignments host port) g = (r2, g2)" by fastforce
    with Inr Pair assms(3) have h1: "h1 = restore_all (previous_values h) g2"
      by (cases r2) (simp_all add: install_linux_proxy_def rollback_linux_def linux_restores [OF assms(1)])
    from env_only_getenv [OF set_all_only [OF s]] g assignments_vars(1) [OF assms(1)]
    have "env_key h k \<notin> env_key h ` set (proxy_vars h) \<Longrightarrow> getenv k g2 = getenv k h" by simp
    moreover from sys env_only_system [OF set_all_only [OF s]] have "h_goos g2 = h_goos h" "h_env_fault g2 = h_env_fault h"
      by (simp_all add: same_system_def)
    ultimately show ?thesis using restore_previous [OF _ _ assms(2)] unfolding h1 by simp
  qed
qed

lemma install_windows_failed:
  assumes "h_goos h = ''windows''" and "env_recoverable h" and "quiet h"
    and "install_windows_proxy host port h = (Inl e, h1)"
  shows "getenv k h1 = getenv k h"
proof (cases "save_state (windows_previous h) h")
  case (Pair r g)
  have l: "env_lists h" using assms(1) by (simp add: env_lists_def)
  from save_state_system [OF Pair] have g: "env_kept h g" "same_system h g" by (simp_all add: env_kept_def same_system_def)
  show ?thesis
  proof (cases r)
    case (Inl err)
    with Pair assms(4) g show ?thesis by (simp add: install_windows_proxy_def Let_def env_kept_getenv)
  next
    case (Inr u)
    obtain r2 g2 where c: "run_command [''netsh'', ''winhttp'', ''set'', ''proxy'', host @ '':'' @ port,
        join_str '';'' default_bypass_entries] g = (r2, g2)" by fastforce
    from run_command_system [OF c] g have g2: "env_kept h g2" "same_system h g2" "h_files g2 = h_files g"
      by (auto simp: env_kept_def same_system_def)
    show ?thesis
    proof (cases r2)
      case (Inl err)
      with Inr Pair assms(4) c have "h1 = snd (clear_state g2)" by (simp add: install_windows_proxy_def Let_def ignore_def)
      with env_kept_getenv [OF env_kept_trans [OF g2(1) clear_state_env]] show ?thesis by simp
    next
      case Inr2: (Inr u2)
      let ?u = "''http://'' @ host @ '':'' @ port"
      let ?kvs = "[(''http_proxy'', ?u), (''https_proxy'', ?u), (''HTTP_PROXY'', ?u), (''HTTPS_PROXY'', ?u)]"
      obtain r3 g3 where s: "set_all ?kvs g2 = (r3, g3)" by fastforce
      have "(case set_all ?kvs g2 of (Inl e, h) \<Rightarrow> (Inl e, ignore (uninstall_windows_proxy h)) | (Inr _, h) \<Rightarrow> (Inr (), h)) = (Inl e, h1)"
        using assms(4) by (simp only: install_windows_proxy_def Let_def Pair Inr and_then.simps c Inr2 prod.case sum.case)
      then have h1: "h1 = snd (uninstall_windows_proxy g3)" unfolding s by (cases r3) (simp_all add: ignore_def)
      note only = set_all_only [OF s, unfolded assignments_vars(2) [OF assms(1)]]
      have keys: "env_key g2 = env_key h" "proxy_vars g2 = proxy_vars h" "env_lists g2"
        using g2(2) l by (auto simp: env_key_def proxy_vars_def same_system_def env_lists_def fun_eq_iff)
      have out: "env_key h k \<notin> env_key h ` set (proxy_vars h) \<Longrightarrow> getenv k g3 = getenv k h"
        using env_only_getenv [OF only, of k] env_kept_getenv [OF g2(1), of k] keys by simp
      note sys3 = env_only_system [OF only]
      obtain p where p: "state_file_path h = Inr p"
        "h_files g = (h_files h)(p \<mapsto> json_indent (marshal_struct platform_members (windows_previous h)) @ [CHR 0x0A])"
        using Pair [unfolded Inr] by (elim save_state_ok) simp
      have "state_file_path g3 = state_file_path h"
        using state_file_path_env [OF keys(3), of g3] only state_file_path_kept [OF g2(1)] keys(2) by simp
      with p sys3 g2(3) assms(1) have "holds_state (saved_previous h) g3" by (simp add: holds_state_def saved_previous_def)
      moreover from sys3 g2(2) assms(3) have "quiet g3" "h_goos g3 = h_goos h" "h_env_fault g3 = h_env_fault h"
        by (simp_all add: quiet_def same_system_def)
      ultimately obtain h3 where h3: "platform_uninstall g3 = (Inr (), h3)"
        "getenv k h3 = (if env_key h k \<in> env_key h ` set (proxy_vars h) then getenv k h else getenv k g3)"
        using uninstall_restores [OF l _ _ assms(2), of g3] by blast
      from \<open>h_goos g3 = h_goos h\<close> assms(1) have "platform_uninstall g3 = uninstall_windows_proxy g3"
        by (simp add: platform_uninstall_def detect_def validate_supported_def)
      with h3 h1 out show ?thesis by simp
    qed
  qed
qed

text \<open>What undoing an installation needs: readable files on Windows, writable old values.\<close>

definition can_undo :: "host \<Rightarrow> bool" where
  "can_undo h \<longleftrightarrow> env_recoverable h \<and> (h_goos h = ''windows'' \<longrightarrow> quiet h)"

text \<open>
  C33. An installation that fails leaves the environment as it was, on every platform and
  wherever it fails: before anything was set, at the state file, at a command, or between two
  assignments.
\<close>

theorem failed_install_keeps_environment:
  assumes "can_undo h" and "platform_install addr h = (Inl e, h1)"
  shows "getenv k h1 = getenv k h"
proof -
  from assms(1) have r: "env_recoverable h" "h_goos h = ''windows'' \<Longrightarrow> quiet h" by (simp_all add: can_undo_def)
  from assms(2) consider "h1 = h"
    | host port where "h_goos h = ''linux''" "install_linux_proxy host port h = (Inl e, h1)"
    | host port where "install_macos_proxy host port h = (Inl e, h1)"
    | host port where "h_goos h = ''windows''" "install_windows_proxy host port h = (Inl e, h1)"
    by (auto simp: platform_install_def detect_def split: option.splits sum.splits if_splits)
  then show ?thesis
  proof cases
    case 2
    then show ?thesis using install_linux_failed r(1) by blast
  next
    case 3
    with install_macos_env [of h] show ?thesis by (metis env_kept_getenv snd_conv)
  next
    case 4
    then show ?thesis using install_windows_failed r by blast
  qed simp
qed

text \<open>An installation does not move the state file.\<close>

lemma install_path:
  assumes "env_lists h" and "platform_install addr h = (Inr (), h1)"
  shows "state_file_path h1 = state_file_path h" "state_file_path (h1\<lparr> h_env := h_env h1 \<rparr>) = state_file_path h"
proof -
  from install_saves [OF assms] have s: "same_system h h1"
    and g: "\<And>k. env_key h k \<notin> env_key h ` set (proxy_vars h) \<Longrightarrow> getenv k h1 = getenv k h" by blast+
  from s assms(1) show "state_file_path h1 = state_file_path h"
    using g [OF names_apart(1) [OF assms(1)]] g [OF names_apart(2) [OF assms(1)]]
    by (auto simp: state_file_path_def user_home_dir_def Let_def same_system_def env_lists_def split: if_splits)
  then show "state_file_path (h1\<lparr> h_env := h_env h1 \<rparr>) = state_file_path h" by simp
qed

text \<open>
  A second installation saves the values of the first: uninstalling then keeps the proxy set.
\<close>

lemma second_install_forgets:
  assumes "env_lists h" and "env_recoverable h1" and "quiet h"
    and "platform_install addr h = (Inr (), h1)" and "platform_install addr h1 = (Inr (), h2)"
    and "platform_uninstall h2 = (Inr (), h3)" and "k \<in> set (proxy_vars h)"
  shows "getenv k h3 = getenv k h1"
proof -
  have same: "same_system h h1" "env_lists h1" "quiet h1" "proxy_vars h1 = proxy_vars h"
    using install_saves [OF assms(1,4)] assms(1,3)
    by (auto simp: same_system_def env_lists_def quiet_def proxy_vars_def)
  from uninstall_restores_lemma [OF same(2) assms(2) same(3) assms(5) install_path(2) [OF same(2) assms(5)]] assms(6,7) same(4)
  show ?thesis by (auto simp: settings_restored_def)
qed

subsection \<open>Examples\<close>

lemma set_all_calm:
  assumes "h_goos h = ''linux''" and "h_env_fault h = (\<lambda>_ _. None)" and "list_all (\<lambda>(k, v). env_text_ok k v) kvs"
  shows "set_all kvs h = (Inr (), h\<lparr> h_env := h_env h ++ map_of (rev kvs) \<rparr>)"
  using assms
proof (induction kvs arbitrary: h)
  case Nil
  then show ?case by (simp add: done_ok_def)
next
  case (Cons kv kvs)
  then show ?case by (cases kv) (auto simp: setenv_def env_key_def map_add_def fun_eq_iff split: option.split)
qed

lemma set_all_fault:
  assumes "(k, v) \<in> set kvs" and "h_env_fault h k v = Some e"
  shows "\<exists>e' h'. set_all kvs h = (Inl e', h')"
  using assms
proof (induction kvs arbitrary: h)
  case Nil
  then show ?case by simp
next
  case (Cons kv kvs)
  obtain k1 v1 where kv: "kv = (k1, v1)" by fastforce
  obtain r h1 where s: "setenv k1 v1 h = (r, h1)" by fastforce
  show ?case
  proof (cases r)
    case (Inl e1)
    with s kv show ?thesis by simp
  next
    case (Inr u)
    with s have ok: "h_env_fault h k1 v1 = None" by (auto simp: setenv_def split: if_splits option.splits)
    from setenv_only [OF s] have "h_env_fault h1 = h_env_fault h" by (auto simp: env_only_def)
    moreover from Cons.prems ok kv have "(k, v) \<in> set kvs" by auto
    ultimately show ?thesis using Cons.IH [of h1] Cons.prems(2) s kv Inr by simp
  qed
qed

lemma sample_platform:
  "env_lists sample_host" "env_recoverable sample_host" "can_undo sample_host"
  "\<exists>h. platform_install ''127.0.0.1:8788'' sample_host = (Inr (), h) \<and> h_env_fault h = h_env_fault sample_host \<and>
     getenv ''http_proxy'' h = ''http://127.0.0.1:8788''"
proof -
  show l: "env_lists sample_host" by (simp add: env_lists_def sample_host_def)
  show r: "env_recoverable sample_host"
    by (simp add: env_recoverable_def proxy_vars_def sample_host_def writable_def getenv_def env_key_def)
  then show "can_undo sample_host" by (simp add: can_undo_def sample_host_def)
  have a: "split_listen_addr ''127.0.0.1:8788'' = Inr (''127.0.0.1'', ''8788'')" by code_simp
  have d: "detect sample_host = ''linux''" "validate_supported sample_host = None"
    using detect_lists [OF l] by (simp_all add: sample_host_def)
  obtain p where p: "state_file_path sample_host = Inr p"
    by (simp add: state_file_path_def user_home_dir_def Let_def sample_host_def getenv_def env_key_def state_env_var_def)
  let ?g = "sample_host\<lparr> h_ops := Suc (Suc (h_ops sample_host)), h_files := (h_files sample_host)(p \<mapsto>
      json_indent (marshal_struct platform_members (linux_previous sample_host)) @ [CHR 0x0A]) \<rparr>"
  have s: "save_state (linux_previous sample_host) sample_host = (Inr (), ?g)"
    by (rule save_state_quiet [OF p sample_host_quiet])
  have t: "list_all (\<lambda>(k, v). env_text_ok k v) (linux_assignments ''127.0.0.1'' ''8788'')" by code_simp
  define h where "h = ?g\<lparr> h_env := h_env ?g ++ map_of (rev (linux_assignments ''127.0.0.1'' ''8788'')) \<rparr>"
  have h: "set_all (linux_assignments ''127.0.0.1'' ''8788'') ?g = (Inr (), h)"
    unfolding h_def by (rule set_all_calm [OF _ _ t]) (simp_all add: sample_host_def)
  have v: "h_env_fault h = h_env_fault sample_host" "getenv ''http_proxy'' h = ''http://127.0.0.1:8788''"
    by (simp_all add: h_def getenv_def env_key_def sample_host_def linux_assignments_def Let_def)
  have "install_linux_proxy ''127.0.0.1'' ''8788'' sample_host = (Inr (), h)"
    by (simp only: install_linux_proxy_def Let_def s and_then.simps h prod.case sum.case)
  then have "platform_install ''127.0.0.1:8788'' sample_host = (Inr (), h)"
    by (simp add: platform_install_def a d)
  with v show "\<exists>h. platform_install ''127.0.0.1:8788'' sample_host = (Inr (), h) \<and> h_env_fault h = h_env_fault sample_host \<and>
     getenv ''http_proxy'' h = ''http://127.0.0.1:8788''" by blast
qed

theorem proxy_uninstall_restores_witness:
  "\<exists>h1 h3. platform_install ''127.0.0.1:8788'' sample_host = (Inr (), h1) \<and>
     getenv ''http_proxy'' h1 = ''http://127.0.0.1:8788'' \<and>
     platform_uninstall h1 = (Inr (), h3) \<and> getenv ''http_proxy'' h3 = []"
proof -
  obtain h1 where h1: "platform_install ''127.0.0.1:8788'' sample_host = (Inr (), h1)"
    "getenv ''http_proxy'' h1 = ''http://127.0.0.1:8788''" using sample_platform(4) by blast
  from proxy_uninstall_restores [OF sample_platform(1,2) sample_host_quiet h1(1)
      install_path(2) [OF sample_platform(1) h1(1)]] obtain h3
    where h3: "platform_uninstall h1 = (Inr (), h3)" "settings_restored sample_host h1 h3" by auto
  have "''http_proxy'' \<in> set (proxy_vars sample_host)" by (simp add: proxy_vars_def sample_host_def)
  then have "getenv ''http_proxy'' h3 = getenv ''http_proxy'' sample_host"
    using h3(2) unfolding settings_restored_def by simp
  moreover have "getenv ''http_proxy'' sample_host = []" by (simp add: getenv_def env_key_def sample_host_def)
  ultimately show ?thesis using h1 h3(1) by auto
qed

text \<open>A host that lets every assignment through but that of \<^verbatim>\<open>no_proxy\<close>, the fifth.\<close>

definition stubborn_host :: host where
  "stubborn_host = sample_host\<lparr> h_env_fault :=
     (\<lambda>k v. if k = ''no_proxy'' \<and> v \<noteq> [] then Some (Err ''setenv: not permitted'') else None) \<rparr>"

theorem failed_install_keeps_environment_witness:
  "\<exists>e h1. platform_install ''127.0.0.1:8788'' stubborn_host = (Inl e, h1) \<and>
     getenv ''http_proxy'' h1 = getenv ''http_proxy'' stubborn_host"
proof -
  have a: "split_listen_addr ''127.0.0.1:8788'' = Inr (''127.0.0.1'', ''8788'')" by code_simp
  have l: "env_lists stubborn_host" by (simp add: env_lists_def stubborn_host_def sample_host_def)
  have u: "can_undo stubborn_host"
    by (simp add: can_undo_def env_recoverable_def proxy_vars_def stubborn_host_def sample_host_def writable_def
        getenv_def env_key_def)
  obtain r g where s: "save_state (linux_previous stubborn_host) stubborn_host = (r, g)" by fastforce
  have "\<exists>e h1. install_linux_proxy ''127.0.0.1'' ''8788'' stubborn_host = (Inl e, h1)"
  proof (cases r)
    case (Inl e)
    with s show ?thesis by (simp add: install_linux_proxy_def)
  next
    case (Inr u)
    have "join_str '','' default_bypass_entries \<noteq> []" by code_simp
    with save_state_system [OF s] have "h_env_fault g ''no_proxy'' (join_str '','' default_bypass_entries) =
        Some (Err ''setenv: not permitted'')"
      by (simp add: same_system_def stubborn_host_def)
    moreover have "(''no_proxy'', join_str '','' default_bypass_entries) \<in> set (linux_assignments ''127.0.0.1'' ''8788'')"
      by (simp add: linux_assignments_def Let_def)
    ultimately obtain e h' where "set_all (linux_assignments ''127.0.0.1'' ''8788'') g = (Inl e, h')"
      using set_all_fault by blast
    with s Inr show ?thesis by (simp add: install_linux_proxy_def rollback_linux_def)
  qed
  moreover have "h_goos stubborn_host = ''linux''" by (simp add: stubborn_host_def sample_host_def)
  ultimately have "\<exists>e h1. platform_install ''127.0.0.1:8788'' stubborn_host = (Inl e, h1)"
    using detect_lists [OF l] by (simp add: platform_install_def a)
  then show ?thesis using failed_install_keeps_environment [OF u] by blast
qed

end
