(* ===== verification/Proxy_Server.thy ===== *)
theory Proxy_Server
  imports Protocol Go_Url Agent_Classify
begin

text \<open>
  The local HTTP proxy (\<^verbatim>\<open>client/internal/proxy/server.go\<close>): a request is checked, normalised,
  submitted to the agent and its result written back as an HTTP response.

  \<open>proxy_request\<close> is the request as \<^verbatim>\<open>net/http\<close> hands it over: header names are canonical, the body
  is the bytes that arrive and the error, if any, that a further read reports after them.
  \<open>response_writer\<close> is \<^verbatim>\<open>http.ResponseWriter\<close>: the first final status counts, a 1xx status is
  sent ahead and does not. The agent is a function \<open>submit\<close> on a state, as the interface
  \<^verbatim>\<open>requestSubmitter\<close>; its 90 second timeout is one of the errors it can return. Log output is
  left out.
\<close>

subsection \<open>Tables\<close>

definition max_proxy_request_body_bytes :: int where "max_proxy_request_body_bytes = 1048576"

definition default_https_port :: int where "default_https_port = 443"

definition allowed_proxy_methods :: "string list" where
  "allowed_proxy_methods = [''GET'', ''HEAD'', ''POST'', ''PUT'', ''PATCH'', ''DELETE'', ''OPTIONS'']"

definition rejected_proxy_headers :: "string list" where
  "rejected_proxy_headers = [''proxy-authenticate'', ''proxy-authorization'']"

definition stripped_proxy_headers :: "string list" where
  "stripped_proxy_headers =
     [''host'', ''connection'', ''keep-alive'', ''proxy-connection'', ''transfer-encoding'', ''te'', ''trailer'', ''upgrade'']"

definition stripped_proxy_response_headers :: "string list" where
  "stripped_proxy_response_headers =
     [''connection'', ''proxy-connection'', ''proxy-authenticate'', ''proxy-authorization'', ''keep-alive'',
      ''transfer-encoding'', ''te'', ''trailer'', ''upgrade'']"

subsection \<open>Requests\<close>

record proxy_request =
  px_method :: string
  px_url :: "go_url option"
  px_host :: string
  px_request_uri :: string
  px_tls :: bool
  px_header :: "string list gomap"
  px_body :: string
  px_body_error :: "go_error option"

record proxy_server =
  px_listen_addr :: string

text \<open>\<^verbatim>\<open>NewServer\<close>: the agent is there or nil.\<close>

definition new_server :: "string \<Rightarrow> 'a option \<Rightarrow> (proxy_server \<times> 'a) res" where
  "new_server addr agent =
     (case agent of
        None \<Rightarrow> Inl (Err ''proxy agent is required'')
      | Some a \<Rightarrow> Inr (\<lparr> px_listen_addr = addr \<rparr>, a))"

definition header_get :: "string list gomap \<Rightarrow> string \<Rightarrow> string" where
  "header_get h k = (case map_of h k of Some (v # _) \<Rightarrow> v | _ \<Rightarrow> [])"

definition proxy_target_url :: "proxy_request \<Rightarrow> string res" where
  "proxy_target_url q =
     (case px_url q of
        None \<Rightarrow> Inl (Err ''missing request URL'')
      | Some u \<Rightarrow>
          if url_is_abs u then Inr (url_string u)
          else if px_host q = []
            then Inl (Err ''proxy request must use absolute-form URL or Host header'')
          else Inr ((if px_tls q then ''https'' else ''http'') @ ''://'' @ px_host q @ request_uri u))"

text \<open>\<^verbatim>\<open>io.ReadAll(io.LimitReader(body, max+1))\<close>\<close>

definition read_bounded_body :: "proxy_request \<Rightarrow> int \<Rightarrow> (string \<times> bool) res" where
  "read_bounded_body q max_bytes =
     (if int (length (px_body q)) > max_bytes then Inr ([], True)
      else (case px_body_error q of Some e \<Rightarrow> Inl e | None \<Rightarrow> Inr (px_body q, False)))"

definition normalize_parsed :: "go_url \<Rightarrow> go_url res" where
  "normalize_parsed u =
     (if \<not> url_is_abs u then Inl (Err ''url must be absolute'')
      else (let scheme = go_lower (trim_space (u_scheme u)) in
        if scheme \<noteq> ''http'' \<and> scheme \<noteq> ''https''
          then Inl (Err (''url scheme '' @ go_quote (u_scheme u) @ '' is not supported''))
        else if u_user u \<noteq> None then Inl (Err ''url credentials are not allowed'')
        else (let hostname = trim_space (url_hostname u) in
          if hostname = [] then Inl (Err ''url host is required'')
          else (let port = trim_space (url_port u);
                    checked = (if port = [] then Inr [] else
                      (case atoi port of
                         None \<Rightarrow> Inl (Err ''url port is invalid'')
                       | Some n \<Rightarrow> if n \<le> 0 \<or> n > 65535 then Inl (Err ''url port is invalid'') else Inr (itoa n)))
                in case checked of
                  Inl e \<Rightarrow> Inl e
                | Inr port \<Rightarrow>
                    Inr (u\<lparr> u_scheme := scheme, u_user := None, u_fragment := [],
                            u_path := (if u_path u = [] then ''/'' else u_path u),
                            u_host := (if port = [] then go_lower hostname
                                       else join_host_port (go_lower hostname) port) \<rparr>)))))"

definition normalize_proxy_url :: "string \<Rightarrow> string res" where
  "normalize_proxy_url raw =
     (case url_parse (trim_space raw) of
        Inl e \<Rightarrow> Inl (wrap_err ''invalid url: '' e)
      | Inr u \<Rightarrow> (case normalize_parsed u of Inl e \<Rightarrow> Inl e | Inr v \<Rightarrow> Inr (url_string v)))"

definition proxy_token_list_contains :: "string \<Rightarrow> string \<Rightarrow> bool" where
  "proxy_token_list_contains xs token =
     (if trim_space xs = [] then False
      else list_ex (\<lambda>p. equal_fold (trim_space p) token) (split_byte CHR '','' xs))"

fun normalize_headers_loop :: "string list gomap \<Rightarrow> string gomap \<Rightarrow> string gomap res" where
  "normalize_headers_loop [] m = Inr m"
| "normalize_headers_loop ((key, vs) # rest) m =
     (let k = go_lower (trim_space key) in
      if k = [] then normalize_headers_loop rest m
      else if k \<in> set rejected_proxy_headers then Inl (Err (''header '' @ go_quote k @ '' is not allowed''))
      else if k \<in> set stripped_proxy_headers then normalize_headers_loop rest m
      else if vs = [] then normalize_headers_loop rest m
      else (let merged = trim_space (join_str '', '' vs) in
        if merged = [] then normalize_headers_loop rest m
        else normalize_headers_loop rest (AList.update k merged m)))"

definition normalize_proxy_headers :: "string list gomap \<Rightarrow> string gomap res" where
  "normalize_proxy_headers h =
     (if proxy_token_list_contains (header_get h ''Connection'') ''upgrade'' \<or>
         trim_space (header_get h ''Upgrade'') \<noteq> []
      then Inl (Err ''protocol upgrades are not supported'')
      else normalize_headers_loop h [])"

definition normalize_submission :: "string \<Rightarrow> string \<Rightarrow> string list gomap \<Rightarrow> string \<Rightarrow> submit_request res" where
  "normalize_submission method raw_url headers body =
     (let m = go_upper (trim_space method) in
      if m \<notin> set allowed_proxy_methods then Inl (Err (''method '' @ go_quote m @ '' is not supported''))
      else (case normalize_proxy_url raw_url of
          Inl e \<Rightarrow> Inl e
        | Inr u \<Rightarrow>
            (case normalize_proxy_headers headers of
               Inl e \<Rightarrow> Inl e
             | Inr hs \<Rightarrow> Inr \<lparr> sr_method = m, sr_url = u, sr_body = body, sr_header = hs \<rparr>)))"

definition valid_target_port :: "string \<Rightarrow> int option" where
  "valid_target_port p =
     (case atoi (trim_space p) of
        None \<Rightarrow> None
      | Some n \<Rightarrow> if n \<le> 0 \<or> n > 65535 then None else Some n)"

definition validate_connect_authority :: "string \<Rightarrow> string \<Rightarrow> string res" where
  "validate_connect_authority host uri =
     (let target = (if trim_space host \<noteq> [] then trim_space host else trim_space uri) in
      if target = [] then Inl (Err ''CONNECT requires host:port'')
      else (case (case split_host_port target of
                    Inr hp \<Rightarrow> Inr hp
                  | Inl e \<Rightarrow>
                      if contains_str (err_text e) ''missing port in address''
                      then split_host_port (join_host_port target (itoa default_https_port))
                      else Inl e) of
          Inl e \<Rightarrow> Inl (Err ''CONNECT target must be host:port'')
        | Inr (hostname, port) \<Rightarrow>
            if trim_space hostname = [] then Inl (Err ''CONNECT target host is required'')
            else (case valid_target_port port of
                None \<Rightarrow> Inl (Err ''CONNECT target port is invalid'')
              | Some n \<Rightarrow> Inr (join_host_port (go_lower (trim_space hostname)) (itoa n)))))"

subsection \<open>Responses\<close>

text \<open>\<^verbatim>\<open>textproto.CanonicalMIMEHeaderKey\<close>: a name with a byte that is no token byte stays as it is.\<close>

definition token_byte :: "char \<Rightarrow> bool" where
  "token_byte c \<longleftrightarrow> is_alnum c \<or> c \<in> set ''!#$%&*+-.^_`|~'' \<union> {CHR 0x27}"

fun canonical_bytes :: "bool \<Rightarrow> string \<Rightarrow> string" where
  "canonical_bytes up [] = []"
| "canonical_bytes up (c # s) =
     (if up then upper_byte c else lower_byte c) # canonical_bytes (c = CHR ''-'') s"

definition canonical_key :: "string \<Rightarrow> string" where
  "canonical_key k = (if list_all token_byte k then canonical_bytes True k else k)"

record response_writer =
  rw_header :: "string gomap"
  rw_informed :: "int list"
  rw_status :: "int option"
  rw_body :: string

definition fresh_writer :: response_writer where
  "fresh_writer = \<lparr> rw_header = [], rw_informed = [], rw_status = None, rw_body = [] \<rparr>"

definition set_header :: "string \<Rightarrow> string \<Rightarrow> response_writer \<Rightarrow> response_writer" where
  "set_header k v w = w\<lparr> rw_header := AList.update (canonical_key k) v (rw_header w) \<rparr>"

definition informational :: "int \<Rightarrow> bool" where
  "informational c \<longleftrightarrow> 100 \<le> c \<and> c \<le> 199 \<and> c \<noteq> 101"

definition write_header :: "int \<Rightarrow> response_writer \<Rightarrow> response_writer" where
  "write_header c w =
     (if rw_status w \<noteq> None then w
      else if informational c then w\<lparr> rw_informed := rw_informed w @ [c] \<rparr>
      else w\<lparr> rw_status := Some c \<rparr>)"

definition body_allowed :: "int \<Rightarrow> bool" where
  "body_allowed c \<longleftrightarrow> \<not> (100 \<le> c \<and> c \<le> 199) \<and> c \<noteq> 204 \<and> c \<noteq> 304"

definition write_bytes :: "string \<Rightarrow> response_writer \<Rightarrow> response_writer" where
  "write_bytes s w =
     (let w = write_header 200 w
      in case rw_status w of
           Some c \<Rightarrow> if body_allowed c then w\<lparr> rw_body := rw_body w @ s \<rparr> else w
         | None \<Rightarrow> w)"

definition error_document :: "string \<Rightarrow> time \<Rightarrow> json" where
  "error_document message now =
     JObj [(''error'', JStr message), (''ok'', JBool False), (''timestamp'', JStr (format_rfc3339 now))]"

definition write_proxy_error :: "int \<Rightarrow> string \<Rightarrow> time \<Rightarrow> response_writer \<Rightarrow> response_writer" where
  "write_proxy_error status message now w =
     write_bytes (json_text (error_document message now) @ [CHR 0x0A])
       (write_header status (set_header ''Content-Type'' ''application/json'' w))"

definition stripped_response_header :: "string \<Rightarrow> string \<Rightarrow> bool" where
  "stripped_response_header k v \<longleftrightarrow>
     trim_space k = [] \<or> v = [] \<or> go_lower (trim_space k) \<in> set stripped_proxy_response_headers"

fun copy_headers :: "string gomap \<Rightarrow> response_writer \<Rightarrow> response_writer" where
  "copy_headers [] w = w"
| "copy_headers ((k, v) # rest) w =
     (if stripped_response_header k v then copy_headers rest w else copy_headers rest (set_header k v w))"

definition decode_response_body :: "response_body \<Rightarrow> string res" where
  "decode_response_body b =
     (if rsb_encoding b = [] then Inr (rsb_data b)
      else if rsb_encoding b \<noteq> ''base64''
        then Inl (Err (''unsupported body encoding '' @ go_quote (rsb_encoding b)))
      else b64_decode (rsb_data b))"

text \<open>Message and status a failed result is reported with.\<close>

definition failure_message :: "request_result \<Rightarrow> string" where
  "failure_message r =
     (case rr_error r of
        Some e \<Rightarrow> if trim_space (re_message e) \<noteq> [] then re_message e else ''request failed''
      | None \<Rightarrow> ''request failed'')"

definition failure_status :: "request_result \<Rightarrow> int" where
  "failure_status r =
     (case rr_error r of
        Some e \<Rightarrow> if re_code e = ''UNSUPPORTED_METHOD'' \<or> re_code e = ''METHOD_REJECTED'' then 405 else 502
      | None \<Rightarrow> 502)"

definition write_result_as_http :: "request_result \<Rightarrow> time \<Rightarrow> response_writer \<Rightarrow> unit res \<times> response_writer" where
  "write_result_as_http r now w =
     (if \<not> rr_ok r then (Inr (), write_proxy_error (failure_status r) (failure_message r) now w)
      else (case rr_response r of
          None \<Rightarrow> (Inl (Err ''missing response payload''), w)
        | Some resp \<Rightarrow>
            if hr_status resp < 100 \<or> hr_status resp > 599
            then (Inl (Err (''invalid response status '' @ itoa (hr_status resp))), w)
            else (case decode_response_body (hr_body resp) of
                Inl e \<Rightarrow> (Inl (wrap_err ''invalid response body: '' e), w)
              | Inr payload \<Rightarrow>
                  (Inr (), write_bytes payload (write_header (hr_status resp)
                     (set_header ''Content-Length'' (itoa (int (length payload)))
                        (copy_headers (hr_headers resp) w)))))))"

subsection \<open>Handlers\<close>

definition handle_connect :: "proxy_request \<Rightarrow> time \<Rightarrow> response_writer \<Rightarrow> response_writer" where
  "handle_connect q now w =
     (case validate_connect_authority (px_host q) (px_request_uri q) of
        Inl e \<Rightarrow> write_proxy_error 400 (err_text e) now w
      | Inr _ \<Rightarrow>
          write_proxy_error 501
            ''CONNECT tunneling is not supported in this mode; use explicit http/https proxy requests'' now w)"

definition submit_and_write_http ::
  "(submit_request \<Rightarrow> 's \<Rightarrow> request_result res \<times> 's) \<Rightarrow> submit_request \<Rightarrow> time \<Rightarrow>
   response_writer \<times> 's \<Rightarrow> response_writer \<times> 's" where
  "submit_and_write_http submit submission now ws =
     (case ws of (w, s) \<Rightarrow>
       (case submit submission s of
          (Inl e, s) \<Rightarrow> (write_proxy_error 502 (''proxy submit failed: '' @ err_text e) now w, s)
        | (Inr result, s) \<Rightarrow>
            (case write_result_as_http result now w of
               (Inl e, w) \<Rightarrow> (write_proxy_error 502 (err_text e) now w, s)
             | (Inr _, w) \<Rightarrow> (w, s))))"

definition handle_proxy_request ::
  "(submit_request \<Rightarrow> 's \<Rightarrow> request_result res \<times> 's) \<Rightarrow> proxy_request \<Rightarrow> time \<Rightarrow>
   response_writer \<times> 's \<Rightarrow> response_writer \<times> 's" where
  "handle_proxy_request submit q now ws =
     (case ws of (w, s) \<Rightarrow>
        if px_method q = ''CONNECT'' then (handle_connect q now w, s)
        else (case proxy_target_url q of
            Inl e \<Rightarrow> (write_proxy_error 400 (err_text e) now w, s)
          | Inr target \<Rightarrow>
              (case read_bounded_body q max_proxy_request_body_bytes of
                 Inl e \<Rightarrow> (write_proxy_error 400 ''failed to read proxy request body'' now w, s)
               | Inr (body, truncated) \<Rightarrow>
                   if truncated then (write_proxy_error 413 ''proxy request body exceeds max bytes'' now w, s)
                   else (case normalize_submission (px_method q) target (px_header q) body of
                       Inl e \<Rightarrow> (write_proxy_error 400 (err_text e) now w, s)
                     | Inr submission \<Rightarrow> submit_and_write_http submit submission now (w, s)))))"

subsection \<open>Responses on a raw connection\<close>

text \<open>
  The functions for tunnelled connections write to an \<^verbatim>\<open>io.Writer\<close>; no handler calls them yet.
  \<open>sk_fault\<close> gives the error of a write by its position.
\<close>

record sink =
  sk_out :: string
  sk_writes :: nat
  sk_fault :: "nat \<Rightarrow> go_error option"

definition sink_write :: "string \<Rightarrow> sink \<Rightarrow> unit res \<times> sink" where
  "sink_write t k =
     (case sk_fault k (sk_writes k) of
        Some e \<Rightarrow> (Inl e, k\<lparr> sk_writes := Suc (sk_writes k) \<rparr>)
      | None \<Rightarrow> (Inr (), k\<lparr> sk_writes := Suc (sk_writes k), sk_out := sk_out k @ t \<rparr>))"

definition crlf :: string where "crlf = [CHR 0x0D, CHR 0x0A]"

text \<open>\<^verbatim>\<open>http.StatusText\<close>\<close>

definition status_texts :: "(int \<times> string) list" where
  "status_texts =
     [(100, ''Continue''), (101, ''Switching Protocols''), (102, ''Processing''), (103, ''Early Hints''),
      (200, ''OK''), (201, ''Created''), (202, ''Accepted''), (203, ''Non-Authoritative Information''),
      (204, ''No Content''), (205, ''Reset Content''), (206, ''Partial Content''), (207, ''Multi-Status''),
      (208, ''Already Reported''), (226, ''IM Used''), (300, ''Multiple Choices''),
      (301, ''Moved Permanently''), (302, ''Found''), (303, ''See Other''), (304, ''Not Modified''),
      (305, ''Use Proxy''), (307, ''Temporary Redirect''), (308, ''Permanent Redirect''),
      (400, ''Bad Request''), (401, ''Unauthorized''), (402, ''Payment Required''), (403, ''Forbidden''),
      (404, ''Not Found''), (405, ''Method Not Allowed''), (406, ''Not Acceptable''),
      (407, ''Proxy Authentication Required''), (408, ''Request Timeout''), (409, ''Conflict''),
      (410, ''Gone''), (411, ''Length Required''), (412, ''Precondition Failed''),
      (413, ''Request Entity Too Large''), (414, ''Request URI Too Long''),
      (415, ''Unsupported Media Type''), (416, ''Requested Range Not Satisfiable''),
      (417, ''Expectation Failed''), (418, ''I'' @ [CHR 0x27] @ ''m a teapot''),
      (421, ''Misdirected Request''), (422, ''Unprocessable Entity''), (423, ''Locked''),
      (424, ''Failed Dependency''), (425, ''Too Early''), (426, ''Upgrade Required''),
      (428, ''Precondition Required''), (429, ''Too Many Requests''),
      (431, ''Request Header Fields Too Large''), (451, ''Unavailable For Legal Reasons''),
      (500, ''Internal Server Error''), (501, ''Not Implemented''), (502, ''Bad Gateway''),
      (503, ''Service Unavailable''), (504, ''Gateway Timeout''), (505, ''HTTP Version Not Supported''),
      (506, ''Variant Also Negotiates''), (507, ''Insufficient Storage''), (508, ''Loop Detected''),
      (510, ''Not Extended''), (511, ''Network Authentication Required'')]"

definition status_text :: "int \<Rightarrow> string" where
  "status_text c = (case map_of status_texts c of Some t \<Rightarrow> t | None \<Rightarrow> ''Status'')"

definition status_line :: "int \<Rightarrow> string" where
  "status_line c = ''HTTP/1.1 '' @ itoa c @ '' '' @ status_text c @ crlf"

definition write_tunnel_http_error :: "int \<Rightarrow> string \<Rightarrow> time \<Rightarrow> sink \<Rightarrow> unit res \<times> sink" where
  "write_tunnel_http_error status message now k =
     (let payload = json_text (error_document message now) in
      and_then (sink_write (status_line status) k) (\<lambda>_ k.
      and_then (sink_write (''Content-Type: application/json'' @ crlf @ ''Content-Length: '' @
          itoa (int (length payload)) @ crlf @ ''Connection: close'' @ crlf @ crlf) k) (\<lambda>_ k.
      sink_write payload k)))"

fun write_tunnel_headers :: "string gomap \<Rightarrow> sink \<Rightarrow> unit res \<times> sink" where
  "write_tunnel_headers [] k = done_ok k"
| "write_tunnel_headers ((key, v) # rest) k =
     (if stripped_response_header key v then write_tunnel_headers rest k
      else and_then (sink_write (key @ '': '' @ v @ crlf) k) (\<lambda>_ k. write_tunnel_headers rest k))"

definition write_result_to_tunnel :: "request_result \<Rightarrow> time \<Rightarrow> sink \<Rightarrow> unit res \<times> sink" where
  "write_result_to_tunnel r now k =
     (if \<not> rr_ok r then write_tunnel_http_error (failure_status r) (failure_message r) now k
      else (case rr_response r of
          None \<Rightarrow> write_tunnel_http_error 502 ''missing response payload'' now k
        | Some resp \<Rightarrow>
            if hr_status resp < 100 \<or> hr_status resp > 599
            then write_tunnel_http_error 502 (''invalid response status '' @ itoa (hr_status resp)) now k
            else (case decode_response_body (hr_body resp) of
                Inl e \<Rightarrow> write_tunnel_http_error 502 (''invalid response body: '' @ err_text e) now k
              | Inr payload \<Rightarrow>
                  and_then (sink_write (status_line (hr_status resp)) k) (\<lambda>_ k.
                  and_then (write_tunnel_headers (hr_headers resp) k) (\<lambda>_ k.
                  and_then (sink_write (''Content-Length: '' @ itoa (int (length payload)) @ crlf @ crlf) k) (\<lambda>_ k.
                  sink_write payload k))))))"

definition submit_and_write_tunnel_response ::
  "(submit_request \<Rightarrow> 's \<Rightarrow> request_result res \<times> 's) \<Rightarrow> submit_request \<Rightarrow> time \<Rightarrow>
   sink \<times> 's \<Rightarrow> unit res \<times> sink \<times> 's" where
  "submit_and_write_tunnel_response submit submission now ks =
     (case ks of (k, s) \<Rightarrow>
       (case submit submission s of
          (Inl e, s) \<Rightarrow>
            (case write_tunnel_http_error 502 (''proxy submit failed: '' @ err_text e) now k of (r, k) \<Rightarrow> (r, k, s))
        | (Inr result, s) \<Rightarrow> (case write_result_to_tunnel result now k of (r, k) \<Rightarrow> (r, k, s))))"

definition https_target_url :: "proxy_request \<Rightarrow> string \<Rightarrow> string res" where
  "https_target_url q host_port =
     (case px_url q of
        None \<Rightarrow> Inl (Err ''missing tunneled request URL'')
      | Some u \<Rightarrow>
          (let host = (if trim_space (px_host q) \<noteq> [] then trim_space (px_host q) else trim_space host_port);
               uri = (if request_uri u = [] then ''/'' else request_uri u)
           in if host = [] then Inl (Err ''missing tunneled request host'')
              else normalize_proxy_url (''https://'' @ host @ uri)))"

end
