(* ===== verification/Http_Mux.thy ===== *)
theory Http_Mux
  imports Proxy_Server Go_Os
begin

text \<open>
  Go's \<^verbatim>\<open>http.ServeMux\<close>, as far as the client uses it: patterns without a method or a host that do
  not overlap, each a fixed path or, with a slash at its end, a subtree. The path is matched as it
  is escaped, segment by segment. A path that is not in its canonical form is answered with a
  redirection, except for \<^verbatim>\<open>CONNECT\<close>. No pattern of the client has a fixed path with a slash added
  below another one, so the redirection to such a path does not occur.

  The reply of a redirection is the parameter \<open>redirect\<close>, since its status differs between
  releases of Go (301 or 307). \<open>canonical_path\<close> says which paths are not redirected.
\<close>

subsection \<open>Requests and patterns\<close>

text \<open>A request as the server receives it: always with a URL, and with its protocol version.\<close>

record routed_request =
  rt_url :: go_url
  rt_http11 :: bool
  rt_request :: proxy_request

definition inner_request :: "routed_request \<Rightarrow> proxy_request" where
  "inner_request r = (rt_request r)\<lparr> px_url := Some (rt_url r) \<rparr>"

lemma inner_request_simps [simp]:
  "px_method (inner_request r) = px_method (rt_request r)"
  "px_body (inner_request r) = px_body (rt_request r)"
  "px_url (inner_request r) = Some (rt_url r)"
  by (simp_all add: inner_request_def)

definition unescape_segment :: "string \<Rightarrow> string" where
  "unescape_segment s = (case url_unescape s EncPath of Some t \<Rightarrow> t | None \<Rightarrow> s)"

definition first_segment :: "string \<Rightarrow> string \<times> string" where
  "first_segment p =
     (if p = ''/'' then (''/'', [])
      else (unescape_segment (takeWhile (\<lambda>c. c \<noteq> CHR ''/'') (tl p)), dropWhile (\<lambda>c. c \<noteq> CHR ''/'') (tl p)))"

text \<open>The segments of a pattern, and whether it is a subtree.\<close>

fun match_segments :: "string list \<Rightarrow> bool \<Rightarrow> string \<Rightarrow> bool" where
  "match_segments [] subtree p \<longleftrightarrow> (if p = [] then \<not> subtree else subtree)"
| "match_segments (s # ss) subtree p \<longleftrightarrow>
     p \<noteq> [] \<and> (case first_segment p of (seg, rest) \<Rightarrow> seg = s \<and> match_segments ss subtree rest)"

type_synonym mux_pattern = "string list \<times> bool"

definition mux_matches :: "string \<Rightarrow> mux_pattern \<Rightarrow> bool" where
  "mux_matches p pat \<longleftrightarrow> match_segments (fst pat) (snd pat) p"

subsection \<open>Canonical paths\<close>

definition clean_path :: "string \<Rightarrow> string" where
  "clean_path p =
     (if p = [] then ''/''
      else (let p = (if hd p = CHR ''/'' then p else CHR ''/'' # p); np = path_clean p
            in if last p = CHR ''/'' \<and> np \<noteq> ''/'' then np @ ''/'' else np))"

text \<open>
  A canonical path starts with a slash, has no empty segment but perhaps the last, and no segment
  of one or two dots.
\<close>

definition canonical_path :: "string \<Rightarrow> bool" where
  "canonical_path p \<longleftrightarrow>
     (\<exists>ss t. split_byte CHR ''/'' p = [] # ss @ [t] \<and> [] \<notin> set ss \<and> {''.'', ''..''} \<inter> set (t # ss) = {})"

lemma clean_parts_plain:
  "{[], ''.'', ''..''} \<inter> set ss = {} \<Longrightarrow> clean_parts b acc ss = rev acc @ ss"
  by (induction b acc ss rule: clean_parts.induct) auto

lemma clean_parts_kept:
  assumes "{[], ''.'', ''..''} \<inter> set acc = {}"
  shows "{[], ''.'', ''..''} \<inter> set (clean_parts True acc ss) = {} \<and> set (clean_parts True acc ss) \<subseteq> set acc \<union> set ss"
  using assms
proof (induction ss arbitrary: acc)
  case (Cons p ps)
  show ?case
  proof (cases "p = ''..'' \<and> acc \<noteq> []")
    case True
    then have "hd acc \<in> set acc" "set (tl acc) \<subseteq> set acc" by (simp_all add: set_mono_suffix suffix_tl)
    with Cons.prems have "hd acc \<noteq> ''..''" "{[], ''.'', ''..''} \<inter> set (tl acc) = {}" by blast+
    with True Cons.IH [of "tl acc"] \<open>set (tl acc) \<subseteq> set acc\<close> show ?thesis by auto
  next
    case False
    then show ?thesis using Cons.IH [of acc] Cons.IH [of "p # acc"] Cons.prems by auto
  qed
qed simp

lemma clean_parts_snoc_empty: "clean_parts b acc (ss @ [[]]) = clean_parts b acc ss"
proof (induction ss arbitrary: acc)
  case (Cons p ps)
  show ?case unfolding append_Cons clean_parts.simps Cons.IH ..
qed simp

text \<open>A path written with its slashes, read back in segments.\<close>

lemma split_join:
  assumes "ss \<noteq> []" and "\<forall>s\<in>set ss. d \<notin> set s"
  shows "split_byte d (join_str [d] ss) = ss"
  using assms
proof (induction ss rule: induct_list012)
  case (3 s t ss)
  then show ?case using split_byte_append_sep [of d s "join_str [d] (t # ss)"] by simp
qed (simp_all add: split_byte_none)

lemma join_snoc: "join_str d (ss @ [t]) = (if ss = [] then t else join_str d ss @ d @ t)"
  by (induction ss rule: induct_list012) auto

lemma join_last: "t \<noteq> [] \<Longrightarrow> join_str d (ss @ [t]) \<noteq> [] \<and> last (join_str d (ss @ [t])) = last t"
  by (simp add: join_snoc)

text \<open>The two forms of a canonical path: without a slash at the end, and with one.\<close>

lemma canonical_pathI:
  assumes "\<forall>s\<in>set (t # ss). CHR ''/'' \<notin> set s" and "[] \<notin> set ss" and "{''.'', ''..''} \<inter> set (t # ss) = {}"
  shows "canonical_path (CHR ''/'' # join_str ''/'' (ss @ [t]))"
proof -
  from split_join [of "ss @ [t]" "CHR ''/''"] assms(1)
  have "split_byte CHR ''/'' (CHR ''/'' # join_str ''/'' (ss @ [t])) = [] # ss @ [t]" by simp
  with assms(2,3) show ?thesis unfolding canonical_path_def by blast
qed

lemma canonical_pathE:
  assumes "canonical_path p"
  obtains ss t where "p = CHR ''/'' # join_str ''/'' (ss @ [t])" "[] \<notin> set ss" "{''.'', ''..''} \<inter> set (t # ss) = {}"
    "split_byte CHR ''/'' p = [] # ss @ [t]" "CHR ''/'' \<notin> set t"
proof -
  from assms obtain ss t where c: "split_byte CHR ''/'' p = [] # ss @ [t]" "[] \<notin> set ss" "{''.'', ''..''} \<inter> set (t # ss) = {}"
    unfolding canonical_path_def by blast
  have "p = join_str ''/'' ([] # ss @ [t])" using join_split [of "CHR ''/''" p] c(1) by simp
  moreover have "join_str ''/'' ([] # ss @ [t]) = CHR ''/'' # join_str ''/'' (ss @ [t])" by (cases ss) simp_all
  moreover have "CHR ''/'' \<notin> set t" using split_byte_parts [of t "CHR ''/''" p] c(1) by simp
  ultimately show ?thesis using that c by metis
qed

lemma clean_path_rooted:
  "clean_path (CHR ''/'' # r) =
     (let np = CHR ''/'' # join_str ''/'' (clean_parts True [] (split_byte CHR ''/'' r))
      in if last (CHR ''/'' # r) = CHR ''/'' \<and> np \<noteq> ''/'' then np @ ''/'' else np)"
  by (simp add: clean_path_def path_clean_def Let_def)

lemma clean_path_unrooted: "p \<noteq> [] \<Longrightarrow> hd p \<noteq> CHR ''/'' \<Longrightarrow> clean_path p = clean_path (CHR ''/'' # p)"
  by (simp add: clean_path_def)

lemma clean_path_rooted_canonical: "canonical_path (clean_path (CHR ''/'' # r))"
proof -
  let ?cs = "clean_parts True [] (split_byte CHR ''/'' r)"
  have k: "{[], ''.'', ''..''} \<inter> set ?cs = {}" "\<forall>s\<in>set ?cs. CHR ''/'' \<notin> set s"
    using clean_parts_kept [of "[]" "split_byte CHR ''/'' r"] split_byte_parts [of _ "CHR ''/''" r] by auto
  have bare: "canonical_path ''/''" using canonical_pathI [of "[]" "[]"] by simp
  show ?thesis
  proof (cases "?cs = []")
    case True
    then show ?thesis using bare by (simp add: clean_path_rooted)
  next
    case False
    then obtain ss t where st: "?cs = ss @ [t]" by (metis rev_exhaust)
    have n: "canonical_path (CHR ''/'' # join_str ''/'' ?cs)" using k st by (auto intro!: canonical_pathI)
    have "canonical_path (CHR ''/'' # join_str ''/'' (?cs @ [[]]))" using k by (intro canonical_pathI) auto
    then have "canonical_path ((CHR ''/'' # join_str ''/'' ?cs) @ ''/'')" using False by (simp add: join_snoc)
    with n show ?thesis by (simp add: clean_path_rooted Let_def)
  qed
qed

lemma clean_path_canonical: "canonical_path (clean_path p)"
proof (cases "p = []")
  case True
  then have "clean_path p = clean_path ''/''" by (simp add: clean_path_def path_clean_def)
  then show ?thesis using clean_path_rooted_canonical [of "[]"] by simp
next
  case False
  then show ?thesis
    using clean_path_rooted_canonical [of p] clean_path_rooted_canonical [of "tl p"] clean_path_unrooted [of p]
    by (cases "hd p = CHR ''/''"; cases p) auto
qed

lemma clean_canonical_path:
  assumes "canonical_path p"
  shows "clean_path p = p"
proof -
  obtain ss t where c: "p = CHR ''/'' # join_str ''/'' (ss @ [t])" "[] \<notin> set ss" "{''.'', ''..''} \<inter> set (t # ss) = {}"
    "split_byte CHR ''/'' p = [] # ss @ [t]" "CHR ''/'' \<notin> set t" using canonical_pathE [OF assms] by blast
  let ?r = "join_str ''/'' (ss @ [t])"
  have r: "split_byte CHR ''/'' ?r = ss @ [t]" using c(1,4) by simp
  show ?thesis
  proof (cases "t = []")
    case True
    have "clean_parts True [] (ss @ [t]) = ss"
      unfolding True clean_parts_snoc_empty using c(2,3) by (simp add: clean_parts_plain)
    moreover have "join_str ''/'' ss \<noteq> []" if "ss \<noteq> []"
      using that c(2) by (cases ss rule: rev_cases) (auto simp: join_snoc)
    ultimately show ?thesis unfolding c(1) clean_path_rooted r using True by (cases "ss = []") (auto simp: join_snoc Let_def)
  next
    case False
    have "clean_parts True [] (ss @ [t]) = ss @ [t]" using c(2,3) False by (simp add: clean_parts_plain)
    moreover have "last (CHR ''/'' # ?r) \<noteq> CHR ''/''"
      using join_last [OF False, of "''/''" ss] c(5) last_in_set [OF False] by auto
    ultimately show ?thesis unfolding c(1) clean_path_rooted r by simp
  qed
qed

lemma clean_path_iff: "clean_path p = p \<longleftrightarrow> canonical_path p"
  using clean_canonical_path clean_path_canonical by metis

lemma canonical_not_empty [simp]: "\<not> canonical_path []"
  by (simp add: canonical_path_def)

subsection \<open>Serving\<close>

datatype mux_choice = Mux_star | Mux_redirect | Mux_not_found | Mux_handler mux_pattern

definition mux_find :: "mux_pattern list \<Rightarrow> string \<Rightarrow> mux_choice" where
  "mux_find pats p = (case find (mux_matches p) pats of Some pat \<Rightarrow> Mux_handler pat | None \<Rightarrow> Mux_not_found)"

definition mux_choose :: "mux_pattern list \<Rightarrow> routed_request \<Rightarrow> mux_choice" where
  "mux_choose pats r =
     (let p = escaped_path (rt_url r) in
      if px_request_uri (rt_request r) = ''*'' then Mux_star
      else if px_method (rt_request r) = ''CONNECT'' then mux_find pats p
      else if clean_path p \<noteq> p then Mux_redirect
      else mux_find pats p)"

text \<open>\<^verbatim>\<open>http.NotFound\<close>\<close>

definition write_not_found :: "response_writer \<Rightarrow> response_writer" where
  "write_not_found w =
     write_bytes (''404 page not found'' @ [CHR 0x0A]) (write_header 404
       (set_header ''X-Content-Type-Options'' ''nosniff''
         (set_header ''Content-Type'' ''text/plain; charset=utf-8''
           (w\<lparr> rw_header := AList.delete ''Content-Length'' (rw_header w) \<rparr>))))"

definition write_star :: "routed_request \<Rightarrow> response_writer \<Rightarrow> response_writer" where
  "write_star r w = write_header 400 (if rt_http11 r then set_header ''Connection'' ''close'' w else w)"

definition mux_serve ::
  "(routed_request \<Rightarrow> response_writer \<Rightarrow> response_writer) \<Rightarrow> mux_pattern list \<Rightarrow>
   (mux_pattern \<Rightarrow> proxy_request \<Rightarrow> response_writer \<times> 's \<Rightarrow> response_writer \<times> 's) \<Rightarrow>
   routed_request \<Rightarrow> response_writer \<times> 's \<Rightarrow> response_writer \<times> 's" where
  "mux_serve redirect pats handler r ws =
     (case mux_choose pats r of
        Mux_star \<Rightarrow> (write_star r (fst ws), snd ws)
      | Mux_redirect \<Rightarrow> (redirect r (fst ws), snd ws)
      | Mux_not_found \<Rightarrow> (write_not_found (fst ws), snd ws)
      | Mux_handler pat \<Rightarrow> handler pat (inner_request r) ws)"

text \<open>The subtree of the root has every path but the empty one.\<close>

lemma root_matches: "mux_matches p ([], True) \<longleftrightarrow> p \<noteq> []"
  by (simp add: mux_matches_def)

end
