(* ===== verification/Proxy_Theorems.thy ===== *)
theory Proxy_Theorems
  imports Proxy_Server
begin

text \<open>
  What the proxy promises, for every request and every agent behind it: one response, at most one
  submission, none for \<^verbatim>\<open>CONNECT\<close>; a submission carries the request without its hop-by-hop
  headers; a result is written back with its status, its payload and its end-to-end headers.
\<close>

subsection \<open>Normalised targets and headers\<close>

text \<open>A target: http or https, without credentials or fragment, its host in lower case.\<close>

definition clean_target :: "string \<Rightarrow> bool" where
  "clean_target t \<longleftrightarrow>
     (\<exists>u. t = url_string u \<and> (u_scheme u = ''http'' \<or> u_scheme u = ''https'') \<and> u_user u = None \<and>
        u_fragment u = [] \<and> u_path u \<noteq> [] \<and> u_host u \<noteq> [] \<and> \<not> list_ex is_upper (u_host u))"

lemma go_lower_upper_free: "\<not> list_ex is_upper (go_lower s)"
  using go_lower_no_upper by (auto simp: list_ex_iff)

lemma nat_digits_upper_free: "\<not> list_ex is_upper (nat_digits n)"
proof -
  have "is_digit c \<Longrightarrow> \<not> is_upper c" for c by (auto simp: is_digit_def is_upper_def less_eq_char_def)
  with nat_digits_all_digits [of n] show ?thesis unfolding list_ex_iff list_all_iff by blast
qed

lemma upper_free_chars: "\<not> is_upper CHR ''-''" "\<not> is_upper CHR ''[''" "\<not> is_upper CHR '']''" "\<not> is_upper CHR '':''"
  by code_simp+

lemma join_host_port_upper_free:
  "\<not> list_ex is_upper (join_host_port (go_lower h) (itoa n))" "join_host_port h p \<noteq> []"
  by (auto simp: join_host_port_def itoa_def go_lower_upper_free nat_digits_upper_free upper_free_chars)

lemma go_lower_trim_empty: "trim_space h \<noteq> [] \<Longrightarrow> go_lower (trim_space h) \<noteq> []"
  by (cases "trim_space h" rule: go_lower.cases) auto

lemma normalize_parsed_clean:
  assumes "normalize_parsed u = Inr v"
  shows "clean_target (url_string v)"
proof -
  have "u_scheme v = ''http'' \<or> u_scheme v = ''https''" "u_user v = None" "u_fragment v = []" "u_path v \<noteq> []"
    using assms by (auto simp: normalize_parsed_def Let_def split: if_splits sum.splits)
  moreover have "u_host v \<noteq> [] \<and> \<not> list_ex is_upper (u_host v)"
    using assms go_lower_trim_empty [of "url_hostname u"]
    by (auto simp: normalize_parsed_def Let_def join_host_port_upper_free go_lower_upper_free
        split: if_splits sum.splits option.splits)
  ultimately show ?thesis unfolding clean_target_def by blast
qed

lemma normalize_proxy_url_clean: "normalize_proxy_url raw = Inr t \<Longrightarrow> clean_target t"
  by (auto simp: normalize_proxy_url_def intro: normalize_parsed_clean split: sum.splits)

text \<open>What a header line of the request becomes, if it is passed on.\<close>

definition relayed_header :: "string \<times> string list \<Rightarrow> (string \<times> string) option" where
  "relayed_header h =
     (let k = go_lower (trim_space (fst h)); v = trim_space (join_str '', '' (snd h))
      in if k = [] \<or> k \<in> set stripped_proxy_headers \<or> snd h = [] \<or> v = [] then None else Some (k, v))"

text \<open>The headers passed on: a map, each entry from a header line, every line that is passed on there.\<close>

definition headers_relayed :: "string list gomap \<Rightarrow> string gomap \<Rightarrow> bool" where
  "headers_relayed h m \<longleftrightarrow>
     gomap_ok m \<and>
     list_all (\<lambda>l. go_lower (trim_space (fst l)) \<notin> set rejected_proxy_headers) h \<and>
     set m \<subseteq> set (List.map_filter relayed_header h) \<and>
     fst ` set m = fst ` set (List.map_filter relayed_header h)"

lemma relayed_key: "go_lower (trim_space k) = [] \<Longrightarrow> relayed_header (k, vs) = None"
  by (simp add: relayed_header_def Let_def)

lemma update_set_subset: "set (AList.update k v m) \<subseteq> insert (k, v) (set m)"
  by (induction m) auto

lemma update_subset: "set m \<subseteq> S \<Longrightarrow> (k, v) \<in> S \<Longrightarrow> set (AList.update k v m) \<subseteq> S"
  using update_set_subset [of k v m] by blast

lemma normalize_headers_loop_ok:
  assumes "normalize_headers_loop h m = Inr m'" and "gomap_ok m"
  shows "gomap_ok m' \<and> list_all (\<lambda>l. go_lower (trim_space (fst l)) \<notin> set rejected_proxy_headers) h \<and>
    set m' \<subseteq> set m \<union> set (List.map_filter relayed_header h) \<and>
    fst ` set m' = fst ` set m \<union> fst ` set (List.map_filter relayed_header h)"
  using assms
proof (induction h arbitrary: m)
  case Nil
  then show ?case by (simp add: List.map_filter_simps)
next
  case (Cons l h)
  obtain key vs where l: "l = (key, vs)" by fastforce
  define k where "k = go_lower (trim_space key)"
  define v where "v = trim_space (join_str '', '' vs)"
  have r: "k \<notin> set rejected_proxy_headers"
    using Cons.prems(1) by (auto simp: l Let_def k_def rejected_proxy_headers_def split: if_splits)
  show ?case
  proof (cases "relayed_header l")
    case None
    then have "normalize_headers_loop h m = Inr m'"
      using Cons.prems(1) r by (auto simp: l relayed_header_def Let_def k_def split: if_splits)
    from Cons.IH [OF this Cons.prems(2)] None r show ?thesis by (simp add: List.map_filter_simps l k_def)
  next
    case (Some kv)
    then have kv: "kv = (k, v)" "k \<noteq> []" "k \<notin> set stripped_proxy_headers" "vs \<noteq> []" "v \<noteq> []"
      by (auto simp: l relayed_header_def Let_def k_def v_def split: if_splits)
    with Cons.prems(1) r have n: "normalize_headers_loop h (AList.update k v m) = Inr m'"
      by (simp add: l Let_def k_def v_def)
    from Cons.IH [OF n gomap_ok_update [OF Cons.prems(2)]] update_set_subset [of k v m] Some kv(1) r dom_update [of k v m]
    show ?thesis by (auto simp: List.map_filter_simps l k_def)
  qed
qed

lemma normalize_proxy_headers_relayed: "normalize_proxy_headers h = Inr m \<Longrightarrow> headers_relayed h m"
  using normalize_headers_loop_ok [of h "[]" m]
  by (auto simp: normalize_proxy_headers_def headers_relayed_def split: if_splits)

subsection \<open>Responses\<close>

definition error_reply :: "int \<Rightarrow> string \<Rightarrow> time \<Rightarrow> response_writer" where
  "error_reply status message now =
     \<lparr> rw_header = [(''Content-Type'', ''application/json'')], rw_informed = [], rw_status = Some status,
       rw_body = json_text (error_document message now) @ [CHR 0x0A] \<rparr>"

lemma write_error_fresh:
  assumes "200 \<le> status" and "status \<noteq> 204" and "status \<noteq> 304"
  shows "write_proxy_error status message now fresh_writer = error_reply status message now"
proof -
  have "canonical_key ''Content-Type'' = ''Content-Type''" by code_simp
  with assms show ?thesis
    by (simp add: write_proxy_error_def write_bytes_def write_header_def set_header_def fresh_writer_def
        informational_def body_allowed_def error_reply_def Let_def)
qed

text \<open>The end-to-end headers of a response, as the writer names them.\<close>

definition kept_headers :: "string gomap \<Rightarrow> string gomap" where
  "kept_headers hs =
     map (\<lambda>(k, v). (canonical_key k, v)) (filter (\<lambda>(k, v). \<not> stripped_response_header k v) hs)"

text \<open>
  A result written back: its status, its headers (of two with one name the later), the length of the
  payload, and the payload where the status has one. An informational status is sent ahead, and
  the response that follows has status 200.
\<close>

definition relays_response :: "http_response \<Rightarrow> string \<Rightarrow> response_writer \<Rightarrow> bool" where
  "relays_response resp payload w \<longleftrightarrow>
     (let c = (if informational (hr_status resp) then 200 else hr_status resp) in
      rw_status w = Some c \<and> rw_informed w = (if informational (hr_status resp) then [hr_status resp] else []) \<and>
      rw_body w = (if body_allowed c then payload else []) \<and>
      map_of (rw_header w) =
        (map_of (rev (kept_headers (hr_headers resp))))(''Content-Length'' \<mapsto> itoa (int (length payload))))"

lemma copy_headers_writer:
  "map_of (rw_header (copy_headers hs w)) = map_of (rw_header w) ++ map_of (rev (kept_headers hs))"
  "rw_status (copy_headers hs w) = rw_status w" "rw_informed (copy_headers hs w) = rw_informed w"
  "rw_body (copy_headers hs w) = rw_body w"
proof -
  show "map_of (rw_header (copy_headers hs w)) = map_of (rw_header w) ++ map_of (rev (kept_headers hs))"
    by (induction hs w rule: copy_headers.induct)
       (auto simp: kept_headers_def set_header_def update_conv' map_add_def fun_eq_iff split: option.splits)
  show "rw_status (copy_headers hs w) = rw_status w" "rw_informed (copy_headers hs w) = rw_informed w"
    "rw_body (copy_headers hs w) = rw_body w"
    by (induction hs w rule: copy_headers.induct) (simp_all add: set_header_def)
qed

text \<open>What the client is told of the agent's answer.\<close>

definition result_reply :: "request_result res \<Rightarrow> time \<Rightarrow> response_writer \<Rightarrow> bool" where
  "result_reply r now w =
     (case r of
        Inl e \<Rightarrow> w = error_reply 502 (''proxy submit failed: '' @ err_text e) now
      | Inr res \<Rightarrow>
          if \<not> rr_ok res then w = error_reply (failure_status res) (failure_message res) now
          else (case rr_response res of
              None \<Rightarrow> w = error_reply 502 ''missing response payload'' now
            | Some resp \<Rightarrow>
                if hr_status resp < 100 \<or> hr_status resp > 599
                then w = error_reply 502 (''invalid response status '' @ itoa (hr_status resp)) now
                else (case decode_response_body (hr_body resp) of
                    Inl e \<Rightarrow> w = error_reply 502 (''invalid response body: '' @ err_text e) now
                  | Inr payload \<Rightarrow> relays_response resp payload w)))"

lemma failure_status_final: "200 \<le> failure_status r" "failure_status r \<noteq> 204" "failure_status r \<noteq> 304"
  by (auto simp: failure_status_def split: option.split)

lemma write_payload_relays:
  assumes "100 \<le> hr_status resp"
  shows "relays_response resp payload
    (write_bytes payload (write_header (hr_status resp)
       (set_header ''Content-Length'' (itoa (int (length payload))) (copy_headers (hr_headers resp) fresh_writer))))"
proof -
  have c: "canonical_key ''Content-Length'' = ''Content-Length''" by code_simp
  have e: "map_of (rw_header (copy_headers (hr_headers resp) fresh_writer)) = map_of (rev (kept_headers (hr_headers resp)))"
    "rw_status (copy_headers (hr_headers resp) fresh_writer) = None"
    "rw_informed (copy_headers (hr_headers resp) fresh_writer) = []" "rw_body (copy_headers (hr_headers resp) fresh_writer) = []"
    by (simp_all add: copy_headers_writer fresh_writer_def)
  show ?thesis
    using e by (auto simp: relays_response_def write_bytes_def write_header_def set_header_def Let_def c update_conv'
        informational_def)
qed

lemma submit_and_write_reply:
  "\<exists>w s'. submit_and_write_http submit sub now (fresh_writer, s) = (w, s') \<and> s' = snd (submit sub s) \<and>
     result_reply (fst (submit sub s)) now w"
proof (cases "submit sub s")
  case (Pair r s')
  show ?thesis
  proof (cases r)
    case (Inl e)
    with Pair show ?thesis by (simp add: submit_and_write_http_def result_reply_def write_error_fresh)
  next
    case (Inr res)
    have "\<exists>w. (case write_result_as_http res now fresh_writer of
        (Inl e, w) \<Rightarrow> (write_proxy_error 502 (err_text e) now w, s') | (Inr _, w) \<Rightarrow> (w, s')) = (w, s') \<and>
        result_reply (Inr res) now w"
      by (auto simp: write_result_as_http_def result_reply_def write_error_fresh failure_status_final
          write_payload_relays split: option.split sum.split)
    with Pair Inr show ?thesis by (auto simp: submit_and_write_http_def)
  qed
qed

subsection \<open>The handler\<close>

text \<open>A submission of the request: all of its body, no more than a MiB of it.\<close>

definition submission_of :: "proxy_request \<Rightarrow> submit_request \<Rightarrow> bool" where
  "submission_of q sub \<longleftrightarrow>
     sr_method sub = go_upper (trim_space (px_method q)) \<and> sr_method sub \<in> set allowed_proxy_methods \<and>
     sr_body sub = px_body q \<and> px_body_error q = None \<and> length (px_body q) \<le> 1048576 \<and>
     clean_target (sr_url sub) \<and> headers_relayed (px_header q) (sr_header sub)"

definition refusal :: "time \<Rightarrow> response_writer \<Rightarrow> bool" where
  "refusal now w \<longleftrightarrow> (\<exists>c m. w = error_reply c m now \<and> (c = 400 \<or> c = 413 \<or> c = 501))"

definition answered :: "(submit_request \<Rightarrow> 's \<Rightarrow> request_result res \<times> 's) \<Rightarrow> proxy_request \<Rightarrow> time \<Rightarrow> 's \<Rightarrow>
    response_writer \<Rightarrow> 's \<Rightarrow> bool" where
  "answered submit q now s w s' \<longleftrightarrow>
     (refusal now w \<and> s' = s) \<or>
     (\<exists>sub. px_method q \<noteq> ''CONNECT'' \<and> submission_of q sub \<and> s' = snd (submit sub s) \<and>
        result_reply (fst (submit sub s)) now w)"

lemma normalize_submission_of:
  assumes "normalize_submission (px_method q) target (px_header q) body = Inr sub"
    and "read_bounded_body q max_proxy_request_body_bytes = Inr (body, False)"
  shows "submission_of q sub"
proof -
  from assms(2) have "body = px_body q" "px_body_error q = None" "length (px_body q) \<le> 1048576"
    by (auto simp: read_bounded_body_def max_proxy_request_body_bytes_def split: if_splits option.splits)
  then show ?thesis
    using assms(1) normalize_proxy_url_clean normalize_proxy_headers_relayed
    by (auto simp: normalize_submission_def submission_of_def Let_def split: if_splits sum.splits)
qed

lemma handle_answered:
  "answered submit q now s (fst (handle_proxy_request submit q now (fresh_writer, s)))
     (snd (handle_proxy_request submit q now (fresh_writer, s)))"
proof -
  have ref: "refusal now (write_proxy_error 400 m now fresh_writer)" "refusal now (write_proxy_error 413 m now fresh_writer)"
    "refusal now (write_proxy_error 501 m now fresh_writer)" for m
    by (auto simp: refusal_def write_error_fresh)
  have connect: "refusal now (handle_connect q now fresh_writer)"
    using ref by (simp add: handle_connect_def split: sum.split)
  show ?thesis
  proof (cases "px_method q = ''CONNECT''")
    case True
    with connect show ?thesis by (simp add: handle_proxy_request_def answered_def)
  next
    case False
    show ?thesis
    proof (cases "\<exists>target body sub. proxy_target_url q = Inr target \<and>
        read_bounded_body q max_proxy_request_body_bytes = Inr (body, False) \<and>
        normalize_submission (px_method q) target (px_header q) body = Inr sub")
      case True
      then obtain target body sub where t: "proxy_target_url q = Inr target"
        "read_bounded_body q max_proxy_request_body_bytes = Inr (body, False)"
        "normalize_submission (px_method q) target (px_header q) body = Inr sub" by blast
      obtain w s' where w: "submit_and_write_http submit sub now (fresh_writer, s) = (w, s')" "s' = snd (submit sub s)"
        "result_reply (fst (submit sub s)) now w" using submit_and_write_reply by metis
      with False t normalize_submission_of [OF t(3,2)] show ?thesis
        by (auto simp: handle_proxy_request_def answered_def)
    next
      case no: False
      then have "\<exists>w. handle_proxy_request submit q now (fresh_writer, s) = (w, s) \<and> refusal now w"
        using False ref by (auto simp: handle_proxy_request_def split: sum.split)
      then show ?thesis by (auto simp: answered_def)
    qed
  qed
qed


end
