(* ===== verification/Proxy_Handler.thy ===== *)
theory Proxy_Handler
  imports Http_Mux Proxy_Theorems
begin

text \<open>
  The proxy as its listener serves it (\<^verbatim>\<open>Server.Handler\<close> in \<^verbatim>\<open>client/internal/proxy/server.go\<close>): the
  handler stands behind a \<^verbatim>\<open>ServeMux\<close> with the single pattern \<^verbatim>\<open>/\<close>.
\<close>

definition proxy_patterns :: "mux_pattern list" where "proxy_patterns = [([], True)]"

definition proxy_handler ::
  "(routed_request \<Rightarrow> response_writer \<Rightarrow> response_writer) \<Rightarrow>
   (submit_request \<Rightarrow> 's \<Rightarrow> request_result res \<times> 's) \<Rightarrow> routed_request \<Rightarrow> time \<Rightarrow>
   response_writer \<times> 's \<Rightarrow> response_writer \<times> 's" where
  "proxy_handler redirect submit r now =
     mux_serve redirect proxy_patterns (\<lambda>_ q. handle_proxy_request submit q now) r"

lemma proxy_find: "mux_find proxy_patterns p = (if p = [] then Mux_not_found else Mux_handler ([], True))"
  by (simp add: mux_find_def proxy_patterns_def root_matches)

lemma proxy_choose:
  "mux_choose proxy_patterns r =
     (let p = escaped_path (rt_url r) in
      if px_request_uri (rt_request r) = ''*'' then Mux_star
      else if px_method (rt_request r) = ''CONNECT'' then (if p = [] then Mux_not_found else Mux_handler ([], True))
      else if canonical_path p then Mux_handler ([], True) else Mux_redirect)"
  by (auto simp: mux_choose_def proxy_find Let_def clean_path_iff)

text \<open>
  C35. What reaches the agent. Behind its \<^verbatim>\<open>ServeMux\<close> the proxy submits a request only when it is
  not a CONNECT and its path is canonical: a path with an empty segment before its end, a segment
  of one or two dots, or no path at all is answered with a redirection; a CONNECT with the
  authority as its target has no path and is answered \<^verbatim>\<open>404 page not found\<close>, any other CONNECT is
  refused; in none of these cases the agent is touched. Every other request is answered as
  \<^verbatim>\<open>handleProxyRequest\<close> promises.
\<close>

theorem proxy_handler_routes:
  "case proxy_handler redirect submit r now (fresh_writer, s) of (w, s') \<Rightarrow>
     (if px_request_uri (rt_request r) = ''*'' then w = write_star r fresh_writer \<and> s' = s
      else if px_method (rt_request r) = ''CONNECT''
        then (if escaped_path (rt_url r) = [] then w = write_not_found fresh_writer else refusal now w) \<and> s' = s
      else if canonical_path (escaped_path (rt_url r)) then answered submit (inner_request r) now s w s'
      else w = redirect r fresh_writer \<and> s' = s)"
proof -
  let ?h = "handle_proxy_request submit (inner_request r) now (fresh_writer, s)"
  have a: "answered submit (inner_request r) now s (fst ?h) (snd ?h)" by (rule handle_answered)
  then have "px_method (rt_request r) = ''CONNECT'' \<Longrightarrow> refusal now (fst ?h) \<and> snd ?h = s" by (simp add: answered_def)
  with a show ?thesis by (simp add: proxy_handler_def mux_serve_def proxy_choose Let_def case_prod_beta)
qed

text \<open>
  A CONNECT as clients send it, with the authority as target, never gets to \<^verbatim>\<open>handleConnect\<close>:
  \<^verbatim>\<open>net/http\<close> parses it to a URL with a host and no path.
\<close>

lemma connect_not_found:
  assumes "px_request_uri (rt_request r) \<noteq> ''*''" and "px_method (rt_request r) = ''CONNECT''"
    and "u_path (rt_url r) = []" and "u_raw_path (rt_url r) = []"
  shows "proxy_handler redirect submit r now (fresh_writer, s) = (write_not_found fresh_writer, s)"
  using assms by (simp add: proxy_handler_def mux_serve_def proxy_choose escaped_path_def url_escape_def)

text \<open>A request for a path with two slashes in a row is not relayed.\<close>

lemma double_slash_redirected:
  assumes "px_request_uri (rt_request r) \<noteq> ''*''" and "px_method (rt_request r) = ''GET''"
    and "url_parse ''http://a.b/c//d'' = Inr (rt_url r)"
  shows "proxy_handler redirect submit r now (fresh_writer, s) = (redirect r fresh_writer, s)"
proof -
  have "case url_parse ''http://a.b/c//d'' of Inl _ \<Rightarrow> False | Inr u \<Rightarrow> clean_path (escaped_path u) \<noteq> escaped_path u"
    by code_simp
  then have "\<not> canonical_path (escaped_path (rt_url r))" using assms(3) by (simp add: clean_path_iff)
  with assms(1,2) show ?thesis by (simp add: proxy_handler_def mux_serve_def proxy_choose)
qed

end
