(* ===== verification/Proxy_Relay.thy ===== *)
theory Proxy_Relay
  imports Proxy_Handler Dispatcher_Theorems Agent_System
begin

text \<open>
  The proxy over the agent over the dispatcher. The locale \<open>request_submitter\<close> is the interface the
  proxy relies on (\<^verbatim>\<open>requestSubmitter\<close> of \<^verbatim>\<open>server.go\<close>). Its instance runs the segments of \<^verbatim>\<open>Submit\<close>
  and \<^verbatim>\<open>Run\<close> for a single caller in the order in which they happen when nobody else is there:
  submit, queue, count, receive, tick, dispatch, deliver.
\<close>

subsection \<open>The interface\<close>

text \<open>
  A submitter that is ready answers with a result of the proper shape (a response when it is a
  success, an error otherwise) and stays ready.
\<close>

locale request_submitter =
  fixes submit :: "submit_request \<Rightarrow> 's \<Rightarrow> request_result res \<times> 's"
    and ready :: "'s \<Rightarrow> bool"
  assumes submits: "ready s \<Longrightarrow> \<exists>r s'. submit q s = (Inr r, s') \<and> result_shape r \<and> ready s'"
begin

lemma handle_ready:
  assumes "ready s"
  shows "\<exists>w s'. handle_proxy_request submit q now (fresh_writer, s) = (w, s') \<and> ready s' \<and>
    (refusal now w \<or> (\<exists>r. result_shape r \<and> px_method q \<noteq> ''CONNECT'' \<and> result_reply (Inr r) now w))"
proof -
  let ?h = "handle_proxy_request submit q now (fresh_writer, s)"
  from handle_answered [of submit q now s] consider "refusal now (fst ?h)" "snd ?h = s"
    | sub where "px_method q \<noteq> ''CONNECT''" "snd ?h = snd (submit sub s)" "result_reply (fst (submit sub s)) now (fst ?h)"
    unfolding answered_def by blast
  then show ?thesis
  proof cases
    case 1
    with assms show ?thesis by (metis prod.collapse)
  next
    case (2 sub)
    from submits [OF assms, of sub] obtain r s' where "submit sub s = (Inr r, s')" "result_shape r" "ready s'" by blast
    with 2 show ?thesis by (metis prod.collapse fst_conv snd_conv)
  qed
qed

end

text \<open>Requests served one after the other, each with its own response.\<close>

fun serve_all ::
  "(routed_request \<Rightarrow> response_writer \<Rightarrow> response_writer) \<Rightarrow>
   (submit_request \<Rightarrow> 's \<Rightarrow> request_result res \<times> 's) \<Rightarrow> (routed_request \<times> time) list \<Rightarrow> 's \<Rightarrow>
   response_writer list \<times> 's" where
  "serve_all redirect submit [] s = ([], s)"
| "serve_all redirect submit ((r, now) # rs) s =
     (case proxy_handler redirect submit r now (fresh_writer, s) of (w, s) \<Rightarrow>
       (case serve_all redirect submit rs s of (ws, s) \<Rightarrow> (w # ws, s)))"

text \<open>
  The answer of a proxy whose agent answers: what \<^verbatim>\<open>ServeMux\<close> writes itself when the request does
  not get to the handler, else a refusal, or a well-formed result written back.
\<close>

definition served_properly ::
  "(routed_request \<Rightarrow> response_writer \<Rightarrow> response_writer) \<Rightarrow> routed_request \<times> time \<Rightarrow> response_writer \<Rightarrow> bool" where
  "served_properly redirect rt w \<longleftrightarrow>
     (case rt of (r, now) \<Rightarrow>
       (case mux_choose proxy_patterns r of
          Mux_star \<Rightarrow> w = write_star r fresh_writer
        | Mux_redirect \<Rightarrow> w = redirect r fresh_writer
        | Mux_not_found \<Rightarrow> w = write_not_found fresh_writer
        | Mux_handler _ \<Rightarrow>
            refusal now w \<or>
            (\<exists>x. result_shape x \<and> px_method (rt_request r) \<noteq> ''CONNECT'' \<and> result_reply (Inr x) now w)))"

context request_submitter
begin

lemma handler_ready:
  assumes "ready s"
  shows "\<exists>w s'. proxy_handler redirect submit r now (fresh_writer, s) = (w, s') \<and> ready s' \<and>
    served_properly redirect (r, now) w"
  using assms handle_ready [OF assms, of "inner_request r" now]
  by (auto simp: proxy_handler_def mux_serve_def served_properly_def split: mux_choice.split)

lemma serve_all_ready:
  assumes "ready s"
  shows "\<exists>ws s'. serve_all redirect submit rs s = (ws, s') \<and> ready s' \<and> list_all2 (served_properly redirect) rs ws"
  using assms
proof (induction rs arbitrary: s)
  case Nil
  then show ?case by simp
next
  case (Cons rt rs)
  obtain r now where rt: "rt = (r, now)" by fastforce
  from handler_ready [OF Cons.prems, of redirect r now] obtain w s1 where
    h: "proxy_handler redirect submit r now (fresh_writer, s) = (w, s1)" "ready s1" "served_properly redirect (r, now) w"
    by blast
  from Cons.IH [OF h(2)] obtain ws s2 where "serve_all redirect submit rs s1 = (ws, s2)" "ready s2"
    "list_all2 (served_properly redirect) rs ws" by blast
  with h rt show ?case by simp
qed

end

subsection \<open>Submit and Run for a single caller\<close>

definition deadline_exceeded :: go_error where "deadline_exceeded = Err ''context deadline exceeded''"

text \<open>What the channel of the caller receives, or the end of its context.\<close>

definition channel_reply :: "nat \<Rightarrow> nat \<Rightarrow> agent \<Rightarrow> request_result res" where
  "channel_reply ch n a =
     (case map_of (drop n (ag_sends a)) ch of Some r \<Rightarrow> Inr r | None \<Rightarrow> Inl deadline_exceeded)"

definition submit_alone ::
  "(request_batch \<Rightarrow> 's \<Rightarrow> (result_package res \<times> 's) option) \<Rightarrow> submit_request \<Rightarrow> agent \<times> 's \<Rightarrow>
   request_result res \<times> (agent \<times> 's)" where
  "submit_alone process q as =
     (case as of (a, s) \<Rightarrow>
        (case submit_begin q a of
           (Inl r, a) \<Rightarrow> (Inr r, (a, s))
         | (Inr item, a) \<Rightarrow>
             (let n = length (ag_sends a) in
              case submit_enqueue item n a of
                (Some r, a) \<Rightarrow> (Inr r, (a, s))
              | (None, a) \<Rightarrow>
                  (case run_receive [] (record_submitted a) of (pending, a) \<Rightarrow>
                    (case run_tick pending a of
                       (None, _, a) \<Rightarrow> (channel_reply n n a, (a, s))
                     | (Some fl, _, a) \<Rightarrow>
                         (case process (fl_batch fl) s of
                            None \<Rightarrow> (Inl deadline_exceeded, (a, s))
                          | Some (r, s) \<Rightarrow>
                              (let a = dispatch_finish fl r a in (channel_reply n n a, (a, s)))))))))"

text \<open>An agent that takes requests: room in the queue, a chunk can hold one.\<close>

definition agent_idle :: "agent \<Rightarrow> bool" where
  "agent_idle a \<longleftrightarrow>
     cache_shape a \<and> ag_queue a = [] \<and> 0 < as_max_queue_requests (ag_settings a) \<and>
     0 < as_max_batch_requests (ag_settings a)"

lemma agent_idle_keeps: "agent_idle a \<Longrightarrow> keeps a b \<Longrightarrow> cache_shape b \<Longrightarrow> agent_idle b"
  by (simp add: agent_idle_def keeps_def)

lemma agent_idle_quiet: "agent_idle a \<Longrightarrow> Agent_System.quiet a b \<Longrightarrow> agent_idle b"
  using cache_shape_cong [of a b] by (auto simp: Agent_System.quiet_def agent_idle_def keeps_def)

lemma new_agent_ready: "new_agent d st clock entropy = Inr a \<Longrightarrow> agent_idle a"
  using new_agent_fresh [of d st clock entropy a] by (simp add: fresh_agent_def agent_idle_def)

lemma channel_reply_answers:
  assumes "answers a [p] b"
  shows "\<exists>r. channel_reply (pr_result_ch p) (length (ag_sends a)) b = Inr r \<and> result_shape r \<and> rr_request_id r = item_id p"
  using assms by (auto simp: answers_def channel_reply_def list_all2_Cons1 answers_request_def)

context batch_processor
begin

lemma submit_alone_ready:
  assumes "agent_idle a" and "live s"
  shows "\<exists>r a' s'. submit_alone process q (a, s) = (Inr r, (a', s')) \<and> result_shape r \<and> agent_idle a' \<and> live s'"
proof -
  obtain r0 a0 where b: "submit_begin q a = (r0, a0)" by fastforce
  with submit_begin_quiet [of a q] have q0: "Agent_System.quiet a a0" by simp
  note idle0 = agent_idle_quiet [OF assms(1) q0]
  show ?thesis
  proof (cases r0)
    case (Inl r)
    with b idle0 assms(2) submit_begin_rejected [of q a r a0] show ?thesis by (simp add: submit_alone_def)
  next
    case (Inr item)
    let ?n = "length (ag_sends a0)"
    define p where "p = \<lparr> pr_request = item, pr_result_ch = ?n \<rparr>"
    have "\<not> queue_full a0" using idle0 by (simp add: queue_full_def agent_idle_def)
    then have e: "submit_enqueue item ?n a0 = (None, a0\<lparr> ag_queue := [p] \<rparr>)"
      using idle0 by (simp add: submit_enqueue_def p_def agent_idle_def)
    define a1 where "a1 = set_pending_in_batch_buffer 1 (record_submitted (a0\<lparr> ag_queue := [p] \<rparr>)\<lparr> ag_queue := [] \<rparr>)"
    have rc: "run_receive [] (record_submitted (a0\<lparr> ag_queue := [p] \<rparr>)) = ([p], a1)"
      by (simp add: run_receive_def relay_simps a1_def)
    have same: "ag_settings a1 = ag_settings a0" "ag_cache a1 = ag_cache a0" "ag_sends a1 = ag_sends a0" "ag_queue a1 = []"
      by (simp_all add: a1_def relay_simps)
    then have idle1: "agent_idle a1" using idle0 cache_shape_cong [of a0 a1] by (simp add: agent_idle_def)
    obtain fo rest a2 where t: "run_tick [p] a1 = (fo, rest, a2)" by (metis prod_cases3)
    from idle1 have sh: "cache_shape a1" "0 < as_max_batch_requests (ag_settings a1)" by (simp_all add: agent_idle_def)
    note step = run_tick_step [OF t sh(1)]
    with sh(2) have "rest = []" by auto
    with step obtain ps where ps: "keeps a1 a2" "cache_shape a2" "answers a1 ps a2" "{#p#} = mset ps + mset (in_flight fo)"
      and fl: "\<And>fl. fo = Some fl \<Longrightarrow> flight_ok fl a2" by (auto simp: run_step_def)
    note idle2 = agent_idle_keeps [OF idle1 ps(1,2)]
    show ?thesis
    proof (cases fo)
      case None
      with ps(4) have "ps = [p]" by simp
      from channel_reply_answers [of a1 p a2] ps(3) this same(3) obtain r where
        "channel_reply ?n ?n a2 = Inr r" "result_shape r" by (auto simp: p_def)
      with b Inr e rc t None idle2 assms(2) show ?thesis by (simp add: submit_alone_def)
    next
      case (Some f)
      from returns [OF assms(2)] obtain r s' where pr: "process (fl_batch f) s = Some (r, s')" "live s'" by blast
      let ?a = "dispatch_finish f r a2"
      from dispatch_finish_spec [OF fl [OF Some] ps(2), of r]
      have k: "keeps a2 ?a" "cache_shape ?a" "answers a2 (in_flight fo) ?a" by (simp_all add: Some)
      from answers_trans [OF ps(3) k(3)] have "answers a1 (ps @ in_flight fo) ?a" .
      moreover from ps(4) have "mset (ps @ in_flight fo) = {#p#}" by simp
      then have "ps @ in_flight fo = [p]" by (metis mset_single_iff_right mset_eq_setD)
      ultimately obtain x where "channel_reply ?n ?n ?a = Inr x" "result_shape x"
        using channel_reply_answers [of a1 p ?a] same(3) by (auto simp: p_def)
      with b Inr e rc t Some pr agent_idle_keeps [OF idle2 k(1,2)] show ?thesis by (simp add: submit_alone_def Let_def)
    qed
  qed
qed

end

subsection \<open>The whole relay\<close>

text \<open>The relay is ready: an idle agent, and a dispatcher for which time passes.\<close>

definition relay_ready :: "agent \<times> dispatcher \<Rightarrow> bool" where
  "relay_ready ad \<longleftrightarrow> agent_idle (fst ad) \<and> time_passes (snd ad)"

text \<open>Any batch processor makes, with an agent in front of it, a submitter for the proxy.\<close>

sublocale batch_processor \<subseteq> relayed: request_submitter "submit_alone process" "\<lambda>(a, s). agent_idle a \<and> live s"
proof
  fix as q
  assume "case as of (a, s) \<Rightarrow> agent_idle a \<and> live s"
  then show "\<exists>r as'. submit_alone process q as = (Inr r, as') \<and> result_shape r \<and>
      (case as' of (a, s) \<Rightarrow> agent_idle a \<and> live s)"
    using submit_alone_ready [of "fst as" "snd as" q] by (cases as) fastforce
qed

interpretation relay: request_submitter "submit_alone process_batch" relay_ready
  using github.relayed.submits by unfold_locales (simp add: relay_ready_def case_prod_beta)


end
