(* ===== verification/Proxy_Scenario.thy ===== *)
theory Proxy_Scenario
  imports Proxy_Relay Dispatcher_Scenario
begin

text \<open>
  The proxy on concrete requests: a served pair, and two places where it does not do what a client
  of a proxy expects.
\<close>

definition sample_get :: proxy_request where
  "sample_get = \<lparr> px_method = ''GET'', px_url = Some (empty_url\<lparr> u_scheme := ''http'', u_host := ''a.b'', u_path := ''/'' \<rparr>),
     px_host = ''a.b'', px_request_uri = ''http://a.b/'', px_tls = False,
     px_header = [(''Accept'', [''*/*'']), (''Proxy-Connection'', [''keep-alive''])], px_body = [],
     px_body_error = None \<rparr>"

definition sample_connect :: proxy_request where
  "sample_connect = sample_get\<lparr> px_method := ''CONNECT'', px_url := None, px_host := ''a.b:443'' \<rparr>"

lemma sample_submission:
  "normalize_submission ''GET'' ''http://a.b/'' (px_header sample_get) [] =
     Inr \<lparr> sr_method = ''GET'', sr_url = ''http://a.b/'', sr_body = [], sr_header = [(''accept'', ''*/*'')] \<rparr>"
  by code_simp

text \<open>As the listener receives them: the first is answered by \<^verbatim>\<open>ServeMux\<close>, the second relayed.\<close>

definition routed_connect :: routed_request where
  "routed_connect = \<lparr> rt_url = empty_url\<lparr> u_host := ''a.b:443'' \<rparr>, rt_http11 = True, rt_request = sample_connect \<rparr>"

definition routed_get :: routed_request where
  "routed_get = \<lparr> rt_url = empty_url\<lparr> u_scheme := ''http'', u_host := ''a.b'', u_path := ''/'' \<rparr>, rt_http11 = True,
     rt_request = sample_get \<rparr>"

lemma routed_choices:
  "mux_choose proxy_patterns routed_connect = Mux_not_found"
  "mux_choose proxy_patterns routed_get = Mux_handler ([], True)"
  by code_simp+


text \<open>
  An IPv6 literal without a port loses its brackets, and the agent then refuses the URL; with a port
  it keeps them.
\<close>

lemma ipv6_target_loses_brackets:
  "normalize_proxy_url ''http://[2001:db8::1]/'' = Inr ''http://2001:db8::1/''"
  "normalize_proxy_url ''http://[2001:db8::1]:80/'' = Inr ''http://[2001:db8::1]:80/''"
  "case url_parse ''http://2001:db8::1/'' of Inl _ \<Rightarrow> True | Inr _ \<Rightarrow> False"
  by code_simp+

text \<open>A result with status 103 reaches the client with status 200 and the payload.\<close>

lemma informational_result_becomes_ok:
  "let r = \<lparr> rr_request_id = ''r'', rr_ok = True,
        rr_response = Some \<lparr> hr_status = 103, hr_headers = [],
          hr_body = \<lparr> rsb_encoding = [], rsb_data = ''x'', rsb_bytes = 1, rsb_truncated = False \<rparr>,
          hr_url = [], hr_timing_ms = 0 \<rparr>, rr_error = None \<rparr>;
       w = snd (write_result_as_http r 0 fresh_writer)
   in rw_informed w = [103] \<and> rw_status w = Some 200 \<and> rw_body w = ''x''"
  by (simp add: write_result_as_http_def decode_response_body_def Let_def write_bytes_def write_header_def
      set_header_def fresh_writer_def informational_def body_allowed_def)

end
