(* ===== verification/Go_Flag.thy ===== *)
theory Go_Flag
  imports Relay_Prelude Go_Strings
begin

text \<open>
  Go's package \<^verbatim>\<open>flag\<close> with \<^verbatim>\<open>ContinueOnError\<close>. A flag is its name, whether it is boolean, and
  its \<^verbatim>\<open>Set\<close> method on the record of the command's options. \<open>parse_flags\<close> is \<^verbatim>\<open>FlagSet.Parse\<close>: it
  takes flags from the front of the arguments until one is no flag, and returns the options and
  the positional arguments that are left. The usage text it prints on an error is left out.
\<close>

subsection \<open>Values\<close>

type_synonym 'o flag = "string \<times> bool \<times> (string \<Rightarrow> 'o \<Rightarrow> 'o res)"

text \<open>\<^verbatim>\<open>strconv.ParseBool\<close>\<close>

definition parse_bool :: "string \<Rightarrow> bool option" where
  "parse_bool s =
     (if s \<in> {''1'', ''t'', ''T'', ''TRUE'', ''true'', ''True''} then Some True
      else if s \<in> {''0'', ''f'', ''F'', ''FALSE'', ''false'', ''False''} then Some False
      else None)"

definition string_flag :: "string \<Rightarrow> ((string \<Rightarrow> string) \<Rightarrow> 'o \<Rightarrow> 'o) \<Rightarrow> 'o flag" where
  "string_flag name upd = (name, False, \<lambda>v opts. Inr (upd (\<lambda>_. v) opts))"

definition bool_flag :: "string \<Rightarrow> ((bool \<Rightarrow> bool) \<Rightarrow> 'o \<Rightarrow> 'o) \<Rightarrow> 'o flag" where
  "bool_flag name upd = (name, True, \<lambda>v opts.
     case parse_bool v of None \<Rightarrow> Inl (Err ''parse error'') | Some b \<Rightarrow> Inr (upd (\<lambda>_. b) opts))"

subsection \<open>Parsing\<close>

text \<open>
  The argument that a flag is given by: \<open>None\<close> for a positional argument, else the text after the
  one or two dashes.
\<close>

definition flag_text :: "string \<Rightarrow> string option" where
  "flag_text s =
     (case s of
        d # e # r \<Rightarrow> if d \<noteq> CHR ''-'' then None else if e = CHR ''-'' then Some r else Some (e # r)
      | _ \<Rightarrow> None)"

text \<open>Name and value: the first \<^verbatim>\<open>=\<close> that is not the first byte separates them.\<close>

definition flag_name_value :: "string \<Rightarrow> string \<times> string option" where
  "flag_name_value t =
     (case cut_byte CHR ''='' (tl t) of
        (a, b, found) \<Rightarrow> (take 1 t @ a, if found then Some b else None))"

text \<open>\<^verbatim>\<open>flag.ErrHelp\<close>\<close>

definition help_requested :: go_error where "help_requested = Err ''flag: help requested''"

text \<open>The error of a value that \<^verbatim>\<open>Set\<close> refuses names the kind of value and the flag.\<close>

definition set_flag :: "string \<Rightarrow> string \<Rightarrow> string \<Rightarrow> 'o res \<Rightarrow> 'o res" where
  "set_flag what v flag r =
     (case r of
        Inr opts \<Rightarrow> Inr opts
      | Inl e \<Rightarrow> Inl (Err (''invalid '' @ what @ '' '' @ go_quote v @ '' for '' @ flag @ '': '' @ err_text e)))"

fun parse_flags :: "'o flag list \<Rightarrow> string list \<Rightarrow> 'o \<Rightarrow> ('o \<times> string list) res" where
  "parse_flags fs [] opts = Inr (opts, [])"
| "parse_flags fs (s # args) opts =
     (case flag_text s of
        None \<Rightarrow> Inr (opts, s # args)
      | Some t \<Rightarrow>
          if s = ''--'' then Inr (opts, args)
          else if t = [] \<or> hd t = CHR ''-'' \<or> hd t = CHR ''='' then Inl (Err (''bad flag syntax: '' @ s))
          else (case flag_name_value t of (name, val) \<Rightarrow>
            (case map_of fs name of
               None \<Rightarrow>
                 if name = ''help'' \<or> name = ''h'' then Inl help_requested
                 else Inl (Err (''flag provided but not defined: -'' @ name))
             | Some (True, put) \<Rightarrow>
                 (case val of
                    Some v \<Rightarrow>
                      (case set_flag ''boolean value'' v (''-'' @ name) (put v opts) of
                         Inl e \<Rightarrow> Inl e | Inr opts \<Rightarrow> parse_flags fs args opts)
                  | None \<Rightarrow>
                      (case put ''true'' opts of
                         Inl e \<Rightarrow> Inl (Err (''invalid boolean flag '' @ name @ '': '' @ err_text e))
                       | Inr opts \<Rightarrow> parse_flags fs args opts))
             | Some (False, put) \<Rightarrow>
                 (case (val, args) of
                    (Some v, _) \<Rightarrow>
                      (case set_flag ''value'' v (''flag -'' @ name) (put v opts) of
                         Inl e \<Rightarrow> Inl e | Inr opts \<Rightarrow> parse_flags fs args opts)
                  | (None, []) \<Rightarrow> Inl (Err (''flag needs an argument: -'' @ name))
                  | (None, v # rest) \<Rightarrow>
                      (case set_flag ''value'' v (''flag -'' @ name) (put v opts) of
                         Inl e \<Rightarrow> Inl e | Inr opts \<Rightarrow> parse_flags fs rest opts)))))"

lemma cut_byte_absent: "d \<notin> set s \<Longrightarrow> cut_byte d s = (s, [], False)"
  by (induction s) auto

lemma set_flag_Inr [simp]: "set_flag what v flag r = Inr opts \<longleftrightarrow> r = Inr opts"
  by (simp add: set_flag_def split: sum.splits)

text \<open>A string flag followed by its value, and a boolean flag alone.\<close>

lemma parse_string_flag:
  assumes "map_of fs name = Some (False, put)" and "put v opts = Inr opts'"
    and "name \<noteq> []" and "hd name \<noteq> CHR ''-''" and "CHR ''='' \<notin> set name"
  shows "parse_flags fs ((''--'' @ name) # v # args) opts = parse_flags fs args opts'"
proof -
  obtain c cs where n: "name = c # cs" using assms(3) by (cases name) auto
  have "cut_byte CHR ''='' cs = (cs, [], False)"
    using assms(5) by (simp add: n cut_byte_absent)
  with assms n show ?thesis by (auto simp: flag_text_def flag_name_value_def set_flag_def)
qed

end
