(* ===== verification/Cli_Setup.thy ===== *)
theory Cli_Setup
  imports Go_Flag Client_Config Route_State Proxy_Platform
begin

text \<open>
  The commands that set the client up (\<^verbatim>\<open>client/cmd/actionrelay/main.go\<close>): \<^verbatim>\<open>init\<close>, \<^verbatim>\<open>route\<close> and
  \<^verbatim>\<open>proxy\<close>. A command takes the arguments after its name and the host, and returns its error or
  success with the host it leaves. The confirmation lines it prints are left out; \<^verbatim>\<open>proxy status\<close>
  returns the text it prints.
\<close>

definition default_config_path :: string where "default_config_path = ''.actionrelay/config.json''"

subsection \<open>init\<close>

record init_options =
  io_repo :: string
  io_workflow :: string
  io_workflow_ref :: string
  io_token_env :: string
  io_config :: string

definition default_init_options :: init_options where
  "default_init_options = \<lparr> io_repo = [], io_workflow = ''actionrelay.yml'', io_workflow_ref = ''main'',
     io_token_env = ''ACTIONRELAY_GITHUB_TOKEN'', io_config = default_config_path \<rparr>"

definition init_flags :: "init_options flag list" where
  "init_flags =
     [string_flag ''repo'' io_repo_update,
      string_flag ''workflow'' io_workflow_update,
      string_flag ''workflow-ref'' io_workflow_ref_update,
      string_flag ''token-env'' io_token_env_update,
      string_flag ''config'' io_config_update]"

definition init_config :: "init_options \<Rightarrow> config" where
  "init_config opts = default_config
     \<lparr> cf_repo := io_repo opts, cf_workflow := io_workflow opts,
       cf_workflow_ref := io_workflow_ref opts, cf_github_token_env := io_token_env opts \<rparr>"

definition run_init :: "string list \<Rightarrow> host \<Rightarrow> unit io" where
  "run_init args h =
     and_then (parse_flags init_flags args default_init_options, h) (\<lambda>(opts, rest) h.
       case validate_config (init_config opts) of
         Some e \<Rightarrow> (Inl e, h)
       | None \<Rightarrow> config_save (io_config opts) (init_config opts) h)"

subsection \<open>route\<close>

record setup_options =
  so_config :: string
  so_listen :: string
  so_yes :: bool

definition default_setup_options :: setup_options where
  "default_setup_options = \<lparr> so_config = default_config_path, so_listen = [], so_yes = False \<rparr>"

definition config_flag :: "setup_options flag" where
  "config_flag = string_flag ''config'' so_config_update"

definition yes_flag :: "setup_options flag" where
  "yes_flag = bool_flag ''yes'' so_yes_update"

text \<open>Flags of a command that needs \<^verbatim>\<open>--yes\<close> and takes no positional argument.\<close>

definition confirmed :: "string \<Rightarrow> setup_options flag list \<Rightarrow> string list \<Rightarrow> setup_options res" where
  "confirmed cmd fs args =
     (case parse_flags fs args default_setup_options of
        Inl e \<Rightarrow> Inl e
      | Inr (opts, rest) \<Rightarrow>
          if rest \<noteq> [] then Inl (Err (cmd @ '' does not accept positional arguments''))
          else if \<not> so_yes opts then Inl (Err (cmd @ '' requires --yes to confirm local authorization''))
          else Inr opts)"

definition route_installed :: "string \<Rightarrow> string \<Rightarrow> route_state \<Rightarrow> route_state" where
  "route_installed now listen s = s
     \<lparr> rs_version := state_version, rs_route_mode := mode_whole_device, rs_installed := True,
       rs_cleanup_required := False, rs_cleanup_reason := [], rs_installed_at := now,
       rs_uninstalled_at := [], rs_updated_at := now, rs_listen_addr := listen,
       rs_last_action := ''install'' \<rparr>"

definition run_route_install :: "string list \<Rightarrow> host \<Rightarrow> unit io" where
  "run_route_install args h =
     and_then (confirmed ''route install'' [config_flag, string_flag ''listen'' so_listen_update, yes_flag] args, h)
       (\<lambda>opts h.
     and_then (config_load (so_config opts) h) (\<lambda>c h.
     and_then
       (if so_listen opts \<noteq> []
        then (let c = c\<lparr> cf_agent_listen_addr := so_listen opts \<rparr>
              in case validate_config c of Some e \<Rightarrow> Inl e | None \<Rightarrow> Inr c)
        else Inr c, h) (\<lambda>c h.
     and_then (route_state_path (so_config opts) h, h) (\<lambda>p h.
     and_then (route_load_or_default p h) (\<lambda>s h.
     case route_stamp h of (now, h) \<Rightarrow>
       route_save p (route_installed now (cf_agent_listen_addr c) s) h)))))"

definition route_uninstalled :: "string \<Rightarrow> route_state \<Rightarrow> route_state" where
  "route_uninstalled now s = s
     \<lparr> rs_version := state_version, rs_route_mode := mode_whole_device, rs_installed := False,
       rs_cleanup_required := False, rs_cleanup_reason := [], rs_uninstalled_at := now,
       rs_updated_at := now, rs_last_action := ''uninstall'' \<rparr>"

definition run_route_uninstall :: "string list \<Rightarrow> host \<Rightarrow> unit io" where
  "run_route_uninstall args h =
     and_then (confirmed ''route uninstall'' [config_flag, yes_flag] args, h) (\<lambda>opts h.
     and_then (route_state_path (so_config opts) h, h) (\<lambda>p h.
     and_then (route_load_or_default p h) (\<lambda>s h.
       if \<not> rs_installed s \<and> \<not> rs_cleanup_required s then (Inl (Err ''route is already uninstalled''), h)
       else (case route_stamp h of (now, h) \<Rightarrow> route_save p (route_uninstalled now s) h))))"

definition run_route :: "string list \<Rightarrow> host \<Rightarrow> unit io" where
  "run_route args h =
     (case args of
        [] \<Rightarrow> (Inl (Err ''route requires a subcommand: install or uninstall''), h)
      | cmd # rest \<Rightarrow>
          if cmd = ''install'' then run_route_install rest h
          else if cmd = ''uninstall'' then run_route_uninstall rest h
          else (Inl (Err (''unknown route subcommand '' @ go_quote cmd)), h))"

subsection \<open>proxy\<close>

definition proxy_installed :: "string \<Rightarrow> string \<Rightarrow> string \<Rightarrow> route_state \<Rightarrow> route_state" where
  "proxy_installed now listen platform s = s
     \<lparr> rs_version := state_version, rs_route_mode := mode_whole_device, rs_proxy_installed := True,
       rs_proxy_listen_addr := listen, rs_platform := platform, rs_updated_at := now,
       rs_last_action := ''proxy_install'' \<rparr>"

definition run_proxy_install :: "string list \<Rightarrow> host \<Rightarrow> unit io" where
  "run_proxy_install args h =
     and_then (confirmed ''proxy install'' [config_flag, string_flag ''proxy-listen'' so_listen_update, yes_flag] args, h)
       (\<lambda>opts h.
     and_then (config_load (so_config opts) h) (\<lambda>c h.
     let c = (if so_listen opts \<noteq> [] then c\<lparr> cf_proxy_listen_addr := so_listen opts \<rparr> else c) in
     case validate_config c of
       Some e \<Rightarrow> (Inl e, h)
     | None \<Rightarrow>
         and_then (platform_install (cf_proxy_listen_addr c) h) (\<lambda>_ h.
         and_then (route_state_path (so_config opts) h, h) (\<lambda>p h.
         and_then (route_load_or_default p h) (\<lambda>s h.
         case route_stamp h of (now, h) \<Rightarrow>
           route_save p (proxy_installed now (cf_proxy_listen_addr c) (detect h) s) h)))))"

definition proxy_uninstalled :: "string \<Rightarrow> string \<Rightarrow> route_state \<Rightarrow> route_state" where
  "proxy_uninstalled now platform s = s
     \<lparr> rs_version := state_version, rs_route_mode := mode_whole_device, rs_proxy_installed := False,
       rs_proxy_listen_addr := [], rs_platform := platform, rs_updated_at := now,
       rs_last_action := ''proxy_uninstall'' \<rparr>"

definition run_proxy_uninstall :: "string list \<Rightarrow> host \<Rightarrow> unit io" where
  "run_proxy_uninstall args h =
     and_then (confirmed ''proxy uninstall'' [config_flag, yes_flag] args, h) (\<lambda>opts h.
     and_then (platform_uninstall h) (\<lambda>_ h.
     and_then (route_state_path (so_config opts) h, h) (\<lambda>p h.
     and_then (route_load_or_default p h) (\<lambda>s h.
     case route_stamp h of (now, h) \<Rightarrow>
       route_save p (proxy_uninstalled now (detect h) s) h))))"

text \<open>The document of \<^verbatim>\<open>proxy status\<close>: Go prints the keys of a map in byte order.\<close>

definition opt_list :: "string \<Rightarrow> string list \<Rightarrow> (string \<times> json) list" where
  "opt_list k xs = (if xs = [] then [] else [(k, JArr (map JStr xs))])"

definition opt_text :: "string \<Rightarrow> string \<Rightarrow> (string \<times> json) list" where
  "opt_text k t = (if t = [] then [] else [(k, JStr t)])"

definition runtime_status_json :: "runtime_status \<Rightarrow> json" where
  "runtime_status_json st = JObj
     ([(''platform'', JStr (st_platform st)), (''supported'', JBool (st_supported st))] @
      opt_text ''supported_error'' (st_supported_error st) @
      opt_list ''current_proxy_targets'' (st_current_proxy_targets st) @
      opt_list ''bypass_entries'' (st_bypass_entries st) @
      opt_text ''state_file_path'' (st_state_file_path st) @
      [(''state_file_present'', JBool (st_state_file_present st))] @
      opt_text ''state_file_error'' (st_state_file_error st))"

definition proxy_status_json :: "string \<Rightarrow> string \<Rightarrow> route_state \<Rightarrow> runtime_status \<Rightarrow> json" where
  "proxy_status_json now p s st = JObj
     [(''platform_runtime'', runtime_status_json st),
      (''proxy'', JObj
        [(''installed'', JBool (rs_proxy_installed s)),
         (''last_action'', JStr (rs_last_action s)),
         (''listen_addr'', JStr (rs_proxy_listen_addr s)),
         (''platform'', JStr (rs_platform s)),
         (''supported'', JBool (st_supported st)),
         (''supported_error'', JStr (st_supported_error st))]),
      (''route_state_path'', JStr p),
      (''timestamp'', JStr now)]"

definition run_proxy_status :: "string list \<Rightarrow> host \<Rightarrow> string io" where
  "run_proxy_status args h =
     and_then (parse_flags [config_flag] args default_setup_options, h) (\<lambda>(opts, rest) h.
       if rest \<noteq> [] then (Inl (Err ''proxy status does not accept positional arguments''), h)
       else and_then (route_state_path (so_config opts) h, h) (\<lambda>p h.
         and_then (route_load_or_default p h) (\<lambda>s h.
           case platform_status h of (st, h) \<Rightarrow>
             (case route_stamp h of (now, h) \<Rightarrow>
               (Inr (json_indent (proxy_status_json now p s st) @ [CHR 0x0A]), h)))))"

text \<open>The dispatch of \<^verbatim>\<open>proxy\<close>, with what it prints.\<close>

definition silent :: "unit io \<Rightarrow> string io" where
  "silent m = and_then m (\<lambda>_ h. (Inr [], h))"

definition run_proxy :: "string list \<Rightarrow> host \<Rightarrow> string io" where
  "run_proxy args h =
     (case args of
        [] \<Rightarrow> (Inl (Err ''proxy requires a subcommand: install, uninstall, or status''), h)
      | cmd # rest \<Rightarrow>
          if cmd = ''install'' then silent (run_proxy_install rest h)
          else if cmd = ''uninstall'' then silent (run_proxy_uninstall rest h)
          else if cmd = ''status'' then run_proxy_status rest h
          else (Inl (Err (''unknown proxy subcommand '' @ go_quote cmd)), h))"

end
