(* ===== verification/Cli_Serve.thy ===== *)
theory Cli_Serve
  imports Cli_Setup Proxy_Relay Protocol_Json
begin

text \<open>
  \<^verbatim>\<open>actionrelay serve\<close> (\<^verbatim>\<open>client/cmd/actionrelay/main.go\<close>): from the arguments and the configuration
  to a running agent, its dispatcher and its proxy, the mark it leaves in the route state, and
  the handlers of its local API.

  \<open>outside\<close> is the world the parts read when they are made: the clock and the entropy of the
  agent, and the clock, the HTTP exchanges, the context and the date parser of the dispatcher.
  Where the listeners run is the parameter \<open>listen\<close>: it takes what was started and the host, and
  returns success when \<^verbatim>\<open>ListenAndServe\<close> ended with \<^verbatim>\<open>http.ErrServerClosed\<close>. The theory
  Cli_Session holds what happens in between: the signal, the listeners and the goroutine that
  shuts them down, Cli_Api the handlers behind their \<^verbatim>\<open>ServeMux\<close>.
\<close>

subsection \<open>Options and settings\<close>

record serve_options =
  vo_config :: string
  vo_listen :: string
  vo_proxy_listen :: string
  vo_proxy_enabled :: bool

definition default_serve_options :: serve_options where
  "default_serve_options =
     \<lparr> vo_config = default_config_path, vo_listen = [], vo_proxy_listen = [], vo_proxy_enabled = True \<rparr>"

definition serve_flags :: "serve_options flag list" where
  "serve_flags =
     [string_flag ''config'' vo_config_update,
      string_flag ''listen'' vo_listen_update,
      string_flag ''proxy-listen'' vo_proxy_listen_update,
      bool_flag ''proxy-enabled'' vo_proxy_enabled_update]"

text \<open>The overrides of the command line.\<close>

definition serve_overrides :: "serve_options \<Rightarrow> config \<Rightarrow> config" where
  "serve_overrides opts c =
     (let c = (if vo_listen opts \<noteq> [] then c\<lparr> cf_agent_listen_addr := vo_listen opts \<rparr> else c);
          c = (if vo_proxy_listen opts \<noteq> [] then c\<lparr> cf_proxy_listen_addr := vo_proxy_listen opts \<rparr> else c)
      in c\<lparr> cf_proxy_enabled := vo_proxy_enabled opts \<rparr>)"

text \<open>The configuration to run with, and the path of the route state.\<close>

definition serve_config :: "string list \<Rightarrow> host \<Rightarrow> (config \<times> string) io" where
  "serve_config args h =
     and_then (parse_flags serve_flags args default_serve_options, h) (\<lambda>(opts, rest) h.
     and_then (config_load (vo_config opts) h) (\<lambda>c h.
       let c = serve_overrides opts c in
       case validate_config c of
         Some e \<Rightarrow> (Inl e, h)
       | None \<Rightarrow> and_then (route_state_path (vo_config opts) h, h) (\<lambda>p h. (Inr (c, p), h))))"

definition agent_settings :: "config \<Rightarrow> settings" where
  "agent_settings c =
     \<lparr> as_batch_interval = cf_batch_interval_ms c * millisecond,
       as_request_timeout = cf_request_timeout_ms c * millisecond,
       as_max_request_body_bytes = cf_max_request_body_bytes c,
       as_max_response_bytes = cf_max_response_bytes c,
       as_worker_concurrency = cf_worker_concurrency c,
       as_max_worker_concurrency = 0,
       as_max_batch_requests = cf_max_batch_requests c,
       as_max_batch_bytes = cf_max_batch_bytes c,
       as_max_queue_requests = cf_max_queue_requests c,
       as_cache_ttl = cf_cache_ttl_ms c * millisecond,
       as_cache_max_entries = cf_cache_max_entries c,
       as_stale_if_error_ttl = cf_stale_if_error_ttl_ms c * millisecond,
       as_backpressure_cooldown = cf_backpressure_cooldown_ms c * millisecond,
       as_reliability_mode = cf_reliability_mode c \<rparr>"

subsection \<open>Starting and stopping\<close>

record outside_world =
  ow_clock :: "nat \<Rightarrow> time"
  ow_entropy :: "nat \<Rightarrow> string option"
  ow_server_clock :: "nat \<Rightarrow> time"
  ow_net :: "nat \<Rightarrow> api_reply res"
  ow_ctx :: "nat \<Rightarrow> go_error option"
  ow_http_date :: "string \<Rightarrow> time option"

record serving =
  sv_agent :: agent
  sv_dispatcher :: dispatcher
  sv_proxy :: "proxy_server option"
  sv_listen_addr :: string
  sv_route_path :: string

definition serve_launch :: "config \<Rightarrow> string \<Rightarrow> outside_world \<Rightarrow> host \<Rightarrow> serving io" where
  "serve_launch c p w h =
     and_then (config_token c h, h) (\<lambda>token h.
     and_then (new_dispatcher c token (ow_server_clock w) (ow_net w) (ow_ctx w) (ow_http_date w), h) (\<lambda>d h.
     and_then (new_agent (Some d) (agent_settings c) (ow_clock w) (ow_entropy w), h) (\<lambda>a h.
     and_then
       (if cf_proxy_enabled c
        then (case new_server (cf_proxy_listen_addr c) (Some a) of
            Inl e \<Rightarrow> Inl e | Inr (server, _) \<Rightarrow> Inr (Some server))
        else Inr None, h) (\<lambda>server h.
     and_then (clear_cleanup_required p h) (\<lambda>_ h.
       (Inr \<lparr> sv_agent = a, sv_dispatcher = d, sv_proxy = server,
              sv_listen_addr = cf_agent_listen_addr c, sv_route_path = p \<rparr>, h))))))"

definition cleanup_reason :: string where
  "cleanup_reason = ''agent stopped while route remained installed; run route uninstall --yes''"

text \<open>The deferred call: whatever happened, the route is marked, and an error of that is dropped.\<close>

definition marking_cleanup :: "string \<Rightarrow> 'a io \<Rightarrow> 'a io" where
  "marking_cleanup p m = (case m of (r, h) \<Rightarrow> (r, ignore (mark_cleanup_required p cleanup_reason h)))"

definition run_serve :: "(serving \<Rightarrow> host \<Rightarrow> unit io) \<Rightarrow> outside_world \<Rightarrow> string list \<Rightarrow> host \<Rightarrow> unit io" where
  "run_serve listen w args h =
     and_then (serve_config args h) (\<lambda>(c, p) h.
       marking_cleanup p (and_then (serve_launch c p w h) listen))"

subsection \<open>The local API\<close>

text \<open>
  A request to the API is a \<open>proxy_request\<close> as well: method, body, and how reading the body ends.
  The body is read through a limit of one megabyte, and only its first JSON value.
\<close>

definition api_body_limit :: nat where "api_body_limit = 1048576"

definition write_json :: "int \<Rightarrow> json \<Rightarrow> response_writer \<Rightarrow> response_writer" where
  "write_json status v w =
     write_bytes (json_text v @ [CHR 0x0A])
       (write_header status (set_header ''Content-Type'' ''application/json'' w))"

definition error_json :: "string \<Rightarrow> json" where
  "error_json message = JObj [(''error'', JStr message)]"

definition handle_healthz :: "response_writer \<Rightarrow> response_writer" where
  "handle_healthz w = write_json 200 (JObj [(''ok'', JBool True)]) w"

text \<open>\<^verbatim>\<open>protocol.RequestResult\<close> as JSON.\<close>

definition response_body_json :: "response_body \<Rightarrow> json" where
  "response_body_json b = JObj
     [(''encoding'', JStr (rsb_encoding b)), (''data'', JStr (rsb_data b)),
      (''bytes'', JNum (rsb_bytes b)), (''truncated'', JBool (rsb_truncated b))]"

definition response_json :: "http_response \<Rightarrow> json" where
  "response_json r = JObj
     ([(''status'', JNum (hr_status r))] @
      (if hr_headers r = [] then [] else [(''headers'', json_string_map (hr_headers r))]) @
      [(''body'', response_body_json (hr_body r)), (''url'', JStr (hr_url r)),
       (''timing_ms'', JNum (hr_timing_ms r))])"

definition result_error_json :: "result_error \<Rightarrow> json" where
  "result_error_json e = JObj [(''code'', JStr (re_code e)), (''message'', JStr (re_message e))]"

definition result_json :: "request_result \<Rightarrow> json" where
  "result_json r = JObj
     [(''request_id'', JStr (rr_request_id r)), (''ok'', JBool (rr_ok r)),
      (''response'', (case rr_response r of None \<Rightarrow> JNull | Some x \<Rightarrow> response_json x)),
      (''error'', (case rr_error r of None \<Rightarrow> JNull | Some e \<Rightarrow> result_error_json e))]"

text \<open>\<^verbatim>\<open>agent.Snapshot\<close> as JSON.\<close>

definition uint_member :: "string \<Rightarrow> ('r \<Rightarrow> 64 word) \<Rightarrow> ((64 word \<Rightarrow> 64 word) \<Rightarrow> 'r \<Rightarrow> 'r) \<Rightarrow> 'r member" where
  "uint_member n get upd = (n, \<lambda>r. Some (JNum (uint (get r))), in_field get upd dec_uint)"

definition snapshot_members :: "snapshot member list" where
  "snapshot_members =
     [str_member ''started_at'' sn_started_at sn_started_at_update,
      int_member ''queue_capacity'' sn_queue_capacity sn_queue_capacity_update,
      int_member ''queue_depth'' sn_queue_depth sn_queue_depth_update,
      int_member ''pending_in_batch_buffer'' sn_pending_in_batch_buffer sn_pending_in_batch_buffer_update,
      bool_member ''dispatch_in_flight'' sn_dispatch_in_flight sn_dispatch_in_flight_update,
      opt_str_member ''last_batch_id'' sn_last_batch_id sn_last_batch_id_update,
      opt_str_member ''last_batch_sent_at'' sn_last_batch_sent_at sn_last_batch_sent_at_update,
      int_member ''last_batch_request_count'' sn_last_batch_request_count sn_last_batch_request_count_update,
      opt_str_member ''last_dispatch_error'' sn_last_dispatch_error sn_last_dispatch_error_update,
      opt_str_member ''last_dispatch_error_code'' sn_last_dispatch_error_code sn_last_dispatch_error_code_update,
      opt_str_member ''last_dispatch_error_at'' sn_last_dispatch_error_at sn_last_dispatch_error_at_update,
      opt_str_member ''last_result_at'' sn_last_result_at sn_last_result_at_update,
      opt_str_member ''last_batch_completed_at'' sn_last_batch_completed_at sn_last_batch_completed_at_update,
      int_member ''last_batch_latency_ms'' sn_last_batch_latency_ms sn_last_batch_latency_ms_update,
      uint_member ''total_submitted_requests'' sn_total_submitted sn_total_submitted_update,
      uint_member ''total_local_rejected_requests'' sn_total_local_rejected sn_total_local_rejected_update,
      uint_member ''total_dispatched_batches'' sn_total_dispatched_batches sn_total_dispatched_batches_update,
      uint_member ''total_dispatched_requests'' sn_total_dispatched_requests sn_total_dispatched_requests_update,
      uint_member ''total_completed_requests'' sn_total_completed sn_total_completed_update,
      uint_member ''total_failed_requests'' sn_total_failed sn_total_failed_update,
      bool_member ''cache_enabled'' sn_cache_enabled sn_cache_enabled_update,
      int_member ''cache_ttl_ms'' sn_cache_ttl_ms sn_cache_ttl_ms_update,
      int_member ''cache_entries'' sn_cache_entries sn_cache_entries_update,
      int_member ''cache_max_entries'' sn_cache_max_entries sn_cache_max_entries_update,
      uint_member ''total_cache_hits'' sn_total_cache_hits sn_total_cache_hits_update,
      uint_member ''total_deduplicated_requests'' sn_total_deduplicated sn_total_deduplicated_update,
      uint_member ''total_fail_open_served'' sn_total_fail_open_served sn_total_fail_open_served_update,
      bool_member ''backpressure_active'' sn_backpressure_active sn_backpressure_active_update,
      opt_str_member ''backpressure_until'' sn_backpressure_until sn_backpressure_until_update,
      opt_str_member ''backpressure_reason'' sn_backpressure_reason sn_backpressure_reason_update]"

definition handle_status :: "string \<Rightarrow> proxy_request \<Rightarrow> response_writer \<times> agent \<times> host \<Rightarrow> response_writer \<times> agent \<times> host" where
  "handle_status p q wah =
     (case wah of (w, a, h) \<Rightarrow>
        if px_method q \<noteq> ''GET'' then (write_json 405 (error_json ''method not allowed'') w, a, h)
        else (case route_load_or_default p h of
            (Inl e, h) \<Rightarrow> (write_json 500 (error_json ''failed to load route state'') w, a, h)
          | (Inr s, h) \<Rightarrow>
              (case take_snapshot a of (sn, a) \<Rightarrow>
                (write_json 200 (JObj [(''ok'', JBool True), (''route'', route_json s),
                   (''runtime'', marshal_struct snapshot_members sn)]) w, a, h))))"

record api_payload =
  ap_method :: string
  ap_url :: string
  ap_headers :: "string gomap"
  ap_body_base64 :: string

definition zero_payload :: api_payload where
  "zero_payload = \<lparr> ap_method = [], ap_url = [], ap_headers = [], ap_body_base64 = [] \<rparr>"

definition payload_members :: "api_payload member list" where
  "payload_members =
     [read_member ''method'' ap_method ap_method_update dec_string,
      read_member ''url'' ap_url ap_url_update dec_string,
      read_member ''headers'' ap_headers ap_headers_update dec_string_map,
      read_member ''body_base64'' ap_body_base64 ap_body_base64_update dec_string]"

definition handle_requests ::
  "(submit_request \<Rightarrow> 's \<Rightarrow> request_result res \<times> 's) \<Rightarrow> proxy_request \<Rightarrow>
   response_writer \<times> 's \<Rightarrow> response_writer \<times> 's" where
  "handle_requests submit q ws =
     (case ws of (w, s) \<Rightarrow>
        if px_method q \<noteq> ''POST'' then (write_json 405 (error_json ''method not allowed'') w, s)
        else (case decode_first (dec_struct False payload_members) (take api_body_limit (px_body q)) zero_payload of
            Inl e \<Rightarrow> (write_json 400 (error_json ''invalid request body'') w, s)
          | Inr payload \<Rightarrow>
              (case (if ap_body_base64 payload \<noteq> [] then b64_decode (ap_body_base64 payload) else Inr []) of
                 Inl e \<Rightarrow> (write_json 400 (error_json ''invalid body_base64'') w, s)
               | Inr raw \<Rightarrow>
                   (case submit \<lparr> sr_method = ap_method payload, sr_url = ap_url payload, sr_body = raw,
                                  sr_header = ap_headers payload \<rparr> s of
                      (Inl e, s) \<Rightarrow> (write_json 504 (error_json (err_text e)) w, s)
                    | (Inr result, s) \<Rightarrow> (write_json 200 (result_json result) w, s)))))"

end
