(* ===== verification/Cli_Session.thy ===== *)
theory Cli_Session
  imports Cli_Serve
begin

text \<open>
  The running time of \<^verbatim>\<open>serve\<close> (\<^verbatim>\<open>runServe\<close> in \<^verbatim>\<open>client/cmd/actionrelay/main.go\<close>): the signal context, the
  two listeners, the goroutine that shuts them down, the agent's \<^verbatim>\<open>Run\<close> goroutine and the return of
  the function, as a labelled step relation over all interleavings.

  A listener is an \<^verbatim>\<open>http.Server\<close>: \<open>ln_open\<close> while \<^verbatim>\<open>ListenAndServe\<close> has not returned, \<open>ln_shut\<close> once
  \<^verbatim>\<open>Shutdown\<close> has been called (it accepts nothing from then on and \<^verbatim>\<open>ListenAndServe\<close> returns
  \<^verbatim>\<open>ErrServerClosed\<close>), \<open>ln_active\<close> counts the requests whose handlers run. \<^verbatim>\<open>Shutdown\<close> waits for them or
  for its deadline. When the function has returned, \<open>Exit\<close> ends the process and every goroutine.
\<close>

subsection \<open>State\<close>

record listener =
  ln_open :: bool
  ln_shut :: bool
  ln_active :: nat

datatype closer = Closer_waits | Closer_proxy | Closer_api | Closer_ended

record session =
  se_done :: bool
  se_proxy :: "listener option"
  se_api :: listener
  se_closer :: closer
  se_running :: bool
  se_result :: "go_error option option"
  se_exited :: bool

definition open_listener :: listener where
  "open_listener = \<lparr> ln_open = True, ln_shut = False, ln_active = 0 \<rparr>"

definition session_start :: "serving \<Rightarrow> session" where
  "session_start sv =
     \<lparr> se_done = False, se_proxy = map_option (\<lambda>_. open_listener) (sv_proxy sv), se_api = open_listener,
       se_closer = Closer_waits, se_running = True, se_result = None, se_exited = False \<rparr>"

definition accepting :: "listener \<Rightarrow> bool" where
  "accepting l \<longleftrightarrow> ln_open l \<and> \<not> ln_shut l"

subsection \<open>Steps\<close>

datatype session_event =
    Signal
  | Proxy_accept | Proxy_reply | Proxy_failed go_error | Proxy_closed
  | Api_accept | Api_reply | Api_failed go_error | Api_closed
  | Close_begins | Proxy_drained bool | Api_drained bool
  | Run_ends | Exit

text \<open>
  The flag of a drained listener says that the deadline of \<^verbatim>\<open>Shutdown\<close> has passed. A proxy listener
  that fails cancels the context, one that was closed does not. The API listener is that of the
  function itself, so its end is the result: an error, or none when it was closed.
\<close>

inductive session_step :: "session_event \<Rightarrow> session \<Rightarrow> session \<Rightarrow> bool" where
  "\<not> se_exited s \<Longrightarrow> session_step Signal s (s\<lparr> se_done := True \<rparr>)"
| "\<not> se_exited s \<Longrightarrow> se_proxy s = Some l \<Longrightarrow> accepting l \<Longrightarrow>
     session_step Proxy_accept s (s\<lparr> se_proxy := Some (l\<lparr> ln_active := Suc (ln_active l) \<rparr>) \<rparr>)"
| "\<not> se_exited s \<Longrightarrow> se_proxy s = Some l \<Longrightarrow> ln_active l = Suc n \<Longrightarrow>
     session_step Proxy_reply s (s\<lparr> se_proxy := Some (l\<lparr> ln_active := n \<rparr>) \<rparr>)"
| "\<not> se_exited s \<Longrightarrow> se_proxy s = Some l \<Longrightarrow> accepting l \<Longrightarrow>
     session_step (Proxy_failed e) s (s\<lparr> se_proxy := Some (l\<lparr> ln_open := False \<rparr>), se_done := True \<rparr>)"
| "\<not> se_exited s \<Longrightarrow> se_proxy s = Some l \<Longrightarrow> ln_open l \<Longrightarrow> ln_shut l \<Longrightarrow>
     session_step Proxy_closed s (s\<lparr> se_proxy := Some (l\<lparr> ln_open := False \<rparr>) \<rparr>)"
| "\<not> se_exited s \<Longrightarrow> accepting (se_api s) \<Longrightarrow>
     session_step Api_accept s (s\<lparr> se_api := (se_api s)\<lparr> ln_active := Suc (ln_active (se_api s)) \<rparr> \<rparr>)"
| "\<not> se_exited s \<Longrightarrow> ln_active (se_api s) = Suc n \<Longrightarrow>
     session_step Api_reply s (s\<lparr> se_api := (se_api s)\<lparr> ln_active := n \<rparr> \<rparr>)"
| "\<not> se_exited s \<Longrightarrow> accepting (se_api s) \<Longrightarrow>
     session_step (Api_failed e) s (s\<lparr> se_api := (se_api s)\<lparr> ln_open := False \<rparr>, se_result := Some (Some e) \<rparr>)"
| "\<not> se_exited s \<Longrightarrow> ln_open (se_api s) \<Longrightarrow> ln_shut (se_api s) \<Longrightarrow>
     session_step Api_closed s (s\<lparr> se_api := (se_api s)\<lparr> ln_open := False \<rparr>, se_result := Some None \<rparr>)"
| "\<not> se_exited s \<Longrightarrow> se_done s \<Longrightarrow> se_closer s = Closer_waits \<Longrightarrow> se_proxy s = Some l \<Longrightarrow>
     session_step Close_begins s (s\<lparr> se_proxy := Some (l\<lparr> ln_shut := True \<rparr>), se_closer := Closer_proxy \<rparr>)"
| "\<not> se_exited s \<Longrightarrow> se_done s \<Longrightarrow> se_closer s = Closer_waits \<Longrightarrow> se_proxy s = None \<Longrightarrow>
     session_step Close_begins s (s\<lparr> se_api := (se_api s)\<lparr> ln_shut := True \<rparr>, se_closer := Closer_api \<rparr>)"
| "\<not> se_exited s \<Longrightarrow> se_closer s = Closer_proxy \<Longrightarrow> se_proxy s = Some l \<Longrightarrow> ln_active l = 0 \<or> late \<Longrightarrow>
     session_step (Proxy_drained late) s (s\<lparr> se_api := (se_api s)\<lparr> ln_shut := True \<rparr>, se_closer := Closer_api \<rparr>)"
| "\<not> se_exited s \<Longrightarrow> se_closer s = Closer_api \<Longrightarrow> ln_active (se_api s) = 0 \<or> late \<Longrightarrow>
     session_step (Api_drained late) s (s\<lparr> se_closer := Closer_ended \<rparr>)"
| "\<not> se_exited s \<Longrightarrow> se_done s \<Longrightarrow> se_running s \<Longrightarrow> session_step Run_ends s (s\<lparr> se_running := False \<rparr>)"
| "\<not> se_exited s \<Longrightarrow> se_result s = Some r \<Longrightarrow> session_step Exit s (s\<lparr> se_done := True, se_exited := True \<rparr>)"

inductive_simps session_step_simps [relay_simps]:
  "session_step Signal s t" "session_step Proxy_accept s t" "session_step Proxy_reply s t"
  "session_step (Proxy_failed e) s t" "session_step Proxy_closed s t" "session_step Api_accept s t"
  "session_step Api_reply s t" "session_step (Api_failed e) s t" "session_step Api_closed s t"
  "session_step Close_begins s t" "session_step (Proxy_drained late) s t"
  "session_step (Api_drained late) s t" "session_step Run_ends s t" "session_step Exit s t"

inductive session_run :: "session_event list \<Rightarrow> session \<Rightarrow> session \<Rightarrow> bool" where
  "session_run [] s s"
| "session_step e s t \<Longrightarrow> session_run es t u \<Longrightarrow> session_run (e # es) s u"

inductive_simps session_run_simps: "session_run [] s u" "session_run (e # es) s u"

code_pred (modes: i \<Rightarrow> i \<Rightarrow> o \<Rightarrow> bool) session_run .

subsection \<open>What holds at every moment\<close>

text \<open>
  The API is shut down only after the context is done, and only after the proxy; the function has
  returned exactly when its listener has, without an error only if the listener was shut down.
\<close>

definition session_inv :: "session \<Rightarrow> bool" where
  "session_inv s \<longleftrightarrow>
     (se_closer s \<noteq> Closer_waits \<longrightarrow> se_done s) \<and>
     (ln_shut (se_api s) \<longleftrightarrow> se_closer s \<in> {Closer_api, Closer_ended}) \<and>
     (case se_proxy s of None \<Rightarrow> se_closer s \<noteq> Closer_proxy | Some l \<Rightarrow> ln_shut l \<longleftrightarrow> se_closer s \<noteq> Closer_waits) \<and>
     (se_result s = None \<longleftrightarrow> ln_open (se_api s)) \<and>
     (se_result s = Some None \<longrightarrow> ln_shut (se_api s)) \<and>
     (\<not> se_running s \<longrightarrow> se_done s) \<and> (se_exited s \<longrightarrow> se_result s \<noteq> None)"

lemma session_start_inv: "session_inv (session_start sv)"
  by (simp add: session_inv_def session_start_def open_listener_def split: option.split)

lemma session_step_inv: "session_step e s t \<Longrightarrow> session_inv s \<Longrightarrow> session_inv t"
  by (induction rule: session_step.induct) (auto simp: session_inv_def accepting_def split: option.splits)

lemma session_run_inv: "session_run es s t \<Longrightarrow> session_inv s \<Longrightarrow> session_inv t"
  by (induction rule: session_run.induct) (auto intro: session_step_inv)

subsection \<open>How a session ends\<close>

text \<open>
  The function returns without an error only after the context was cancelled and both listeners
  were told to shut down, the proxy first.
\<close>

lemma clean_return:
  assumes "session_run es (session_start sv) s" and "se_result s = Some None"
  shows "se_done s" and "ln_shut (se_api s)" and "(case se_proxy s of None \<Rightarrow> True | Some l \<Rightarrow> ln_shut l)"
  using session_run_inv [OF assms(1) session_start_inv] assms(2)
  by (auto simp: session_inv_def split: option.splits)

lemma error_return:
  assumes "session_run es (session_start sv) s" and "se_result s = Some (Some e)"
  shows "Api_failed e \<in> set es"
proof -
  have "session_run es s0 s \<Longrightarrow> se_result s = Some (Some e) \<Longrightarrow> se_result s0 \<noteq> Some (Some e) \<Longrightarrow> Api_failed e \<in> set es" for s0
  proof (induction rule: session_run.induct)
    case (2 a s t es u)
    then show ?case by (cases rule: session_step.cases) auto
  qed simp
  then show ?thesis using assms by (simp add: session_start_def)
qed

text \<open>Once the context is done the session can always come to its end, whatever is in flight.\<close>

lemma session_can_end:
  assumes "session_inv s" and "se_done s" and "se_result s = None" and "\<not> se_exited s"
  shows "\<exists>es t. session_run es s t \<and> se_exited t \<and> se_result t = Some None"
proof -
  let ?es = "[Api_closed, Exit]"
  have e: "\<exists>t. session_run ?es u t \<and> se_exited t \<and> se_result t = Some None"
    if "\<not> se_exited u" "ln_open (se_api u)" "ln_shut (se_api u)" for u
    using that by (auto simp: session_run_simps relay_simps)
  from assms(1,3) have o: "ln_open (se_api s)" by (simp add: session_inv_def)
  show ?thesis
  proof (cases "se_closer s")
    case Closer_waits
    show ?thesis
    proof (cases "se_proxy s")
      case None
      let ?u = "s\<lparr> se_api := (se_api s)\<lparr> ln_shut := True \<rparr>, se_closer := Closer_api \<rparr>"
      from e [of ?u] o assms(4) obtain t where "session_run ?es ?u t" "se_exited t" "se_result t = Some None" by auto
      moreover have "session_step Close_begins s ?u" using Closer_waits None assms(2,4) by (simp add: relay_simps)
      ultimately show ?thesis using session_run.intros(2) by blast
    next
      case (Some l)
      let ?v = "s\<lparr> se_proxy := Some (l\<lparr> ln_shut := True \<rparr>), se_closer := Closer_proxy \<rparr>"
      let ?u = "?v\<lparr> se_api := (se_api s)\<lparr> ln_shut := True \<rparr>, se_closer := Closer_api \<rparr>"
      from e [of ?u] o assms(4) obtain t where "session_run ?es ?u t" "se_exited t" "se_result t = Some None" by auto
      moreover have "session_step Close_begins s ?v" using Closer_waits Some assms(2,4) by (simp add: relay_simps)
      moreover have "session_step (Proxy_drained True) ?v ?u" using assms(4) by (simp add: relay_simps)
      ultimately show ?thesis using session_run.intros(2) by blast
    qed
  next
    case Closer_proxy
    with assms(1) obtain l where l: "se_proxy s = Some l" by (auto simp: session_inv_def split: option.splits)
    let ?u = "s\<lparr> se_api := (se_api s)\<lparr> ln_shut := True \<rparr>, se_closer := Closer_api \<rparr>"
    from e [of ?u] o assms(4) obtain t where "session_run ?es ?u t" "se_exited t" "se_result t = Some None" by auto
    moreover have "session_step (Proxy_drained True) s ?u" using Closer_proxy l assms(4) by (simp add: relay_simps)
    ultimately show ?thesis using session_run.intros(2) by blast
  next
    case Closer_api
    with assms(1) e [of s] o assms(4) show ?thesis by (auto simp: session_inv_def)
  next
    case Closer_ended
    with assms(1) e [of s] o assms(4) show ?thesis by (auto simp: session_inv_def)
  qed
qed

text \<open>
  \<^verbatim>\<open>ListenAndServe\<close> returns as soon as \<^verbatim>\<open>Shutdown\<close> has begun, and the process ends with the function:
  a request in flight is cut off although \<^verbatim>\<open>Shutdown\<close> has not given up on it.
\<close>

lemma exit_cuts_requests:
  "\<exists>es s. session_run es (session_start sv) s \<and> se_exited s \<and> se_result s = Some None \<and>
     se_closer s = Closer_api \<and> 0 < ln_active (se_api s)"
proof (cases "sv_proxy sv")
  case None
  then have "\<exists>s. session_run [Api_accept, Signal, Close_begins, Api_closed, Exit] (session_start sv) s \<and> se_exited s \<and>
      se_result s = Some None \<and> se_closer s = Closer_api \<and> 0 < ln_active (se_api s)"
    by (simp add: session_run_simps relay_simps session_start_def open_listener_def accepting_def)
  then show ?thesis by blast
next
  case (Some p)
  then have "\<exists>s. session_run [Api_accept, Signal, Close_begins, Proxy_drained False, Api_closed, Exit] (session_start sv) s \<and>
      se_exited s \<and> se_result s = Some None \<and> se_closer s = Closer_api \<and> 0 < ln_active (se_api s)"
    by (simp add: session_run_simps relay_simps session_start_def open_listener_def accepting_def)
  then show ?thesis by blast
qed

text \<open>A proxy listener that cannot be opened ends the session, and the command reports success.\<close>

lemma proxy_failure_is_success:
  assumes "sv_proxy sv = Some p"
  shows "\<exists>s. session_run [Proxy_failed e, Close_begins, Proxy_drained False, Api_closed, Exit] (session_start sv) s \<and>
    se_exited s \<and> se_result s = Some None"
  using assms by (simp add: session_run_simps relay_simps session_start_def open_listener_def accepting_def)

text \<open>The part of \<open>run_serve\<close> a session plays: its result, and nothing of the route state.\<close>

definition session_listen :: "(serving \<Rightarrow> session) \<Rightarrow> serving \<Rightarrow> host \<Rightarrow> unit io" where
  "session_listen final sv h = ((case se_result (final sv) of Some (Some e) \<Rightarrow> Inl e | _ \<Rightarrow> Inr ()), h)"

end
