(* ===== verification/Cli_Lifecycle.thy ===== *)
theory Cli_Lifecycle
  imports Cli_Session
begin

text \<open>
  How the commands work together: a configuration written by \<^verbatim>\<open>init\<close> is one \<^verbatim>\<open>serve\<close> starts from,
  and \<^verbatim>\<open>route install\<close>, \<^verbatim>\<open>serve\<close> and \<^verbatim>\<open>route uninstall\<close> take the route state through its cycle.
\<close>

subsection \<open>Arguments\<close>

lemma parse_config_flag [simp]:
  "parse_flags (config_flag # fs) (''--config'' # v # args) opts = parse_flags (config_flag # fs) args (opts\<lparr> so_config := v \<rparr>)"
  "parse_flags serve_flags (''--config'' # v # args) vopts = parse_flags serve_flags args (vopts\<lparr> vo_config := v \<rparr>)"
  by (simp_all add: config_flag_def serve_flags_def string_flag_def flag_text_def flag_name_value_def set_flag_def)

lemma confirmed_args:
  "confirmed cmd [config_flag, yes_flag] [''--config'', cfg, ''--yes''] =
     Inr (default_setup_options\<lparr> so_config := cfg, so_yes := True \<rparr>)"
  "confirmed cmd [config_flag, string_flag ''listen'' so_listen_update, yes_flag] [''--config'', cfg, ''--yes''] =
     Inr (default_setup_options\<lparr> so_config := cfg, so_yes := True \<rparr>)"
  unfolding confirmed_def parse_config_flag
  by (simp_all add: config_flag_def yes_flag_def bool_flag_def string_flag_def flag_text_def
      flag_name_value_def parse_bool_def)

lemma serve_args:
  "parse_flags serve_flags [''--config'', cfg] opts = Inr (opts\<lparr> vo_config := cfg \<rparr>, [])"
  unfolding parse_config_flag by simp

subsection \<open>The route state as the commands see it\<close>

text \<open>The route file holds the state, or there is none and the state is the default.\<close>

definition route_view :: "string \<Rightarrow> host \<Rightarrow> route_state \<Rightarrow> bool" where
  "route_view p h s \<longleftrightarrow>
     Go_Os.quiet h \<and> clock_in_range h \<and> (holds_route p h s \<or> h_files h p = None \<and> s = default_state)"

lemma route_host_view: "route_host p h s \<Longrightarrow> route_view p h s"
  by (simp add: route_host_def route_view_def)

lemma route_view_load:
  assumes "route_view p h s"
  shows "route_load_or_default p h = (Inr s, h\<lparr> h_ops := Suc (h_ops h) \<rparr>)"
proof (cases "holds_route p h s")
  case True
  with assms have "route_host p h s" by (simp add: route_view_def route_host_def)
  then show ?thesis by (rule route_loaded(1))
next
  case False
  with assms show ?thesis
    by (simp add: route_view_def route_load_or_default_def Go_Os.quiet_def route_load_def read_file_def next_fault_def)
qed

lemma default_text_ok: "route_text_ok default_state"
proof -
  have "utf8_fix ''whole_device'' = ''whole_device''" by code_simp
  then show ?thesis
    by (simp add: route_text_ok_def default_state_def zero_route_state_def state_version_def mode_whole_device_def)
qed

lemma route_view_text: "route_view p h s \<Longrightarrow> route_text_ok s"
  using default_text_ok by (auto simp: route_view_def holds_route_def)

lemma route_view_ops: "route_view p h s \<Longrightarrow> route_view p (h\<lparr> h_ops := n \<rparr>) s"
  by (simp add: route_view_def Go_Os.quiet_def clock_in_range_def holds_route_def)

text \<open>What stays the same when a command writes its file: the environment and the other files.\<close>

definition same_place :: "string \<Rightarrow> host \<Rightarrow> host \<Rightarrow> bool" where
  "same_place p h h' \<longleftrightarrow>
     h_env h' = h_env h \<and> h_goos h' = h_goos h \<and> (\<forall>q. q = p \<or> h_files h' q = h_files h q)"

lemma same_place_ops [simp]: "same_place p (h\<lparr> h_ops := n \<rparr>) h' = same_place p h h'"
  by (simp add: same_place_def)

lemma same_place_trans: "same_place p h h1 \<Longrightarrow> same_place p h1 h2 \<Longrightarrow> same_place p h h2"
  unfolding same_place_def by metis

lemma same_place_paths:
  assumes "same_place p h h'"
  shows "resolve_path c h' = resolve_path c h" and "route_state_path c h' = route_state_path c h"
  using resolve_path_env [of h' h c] assms by (simp_all add: same_place_def route_state_path_def)

lemma route_write:
  assumes "route_view p h s"
    and "\<And>now. now \<noteq> [] \<Longrightarrow> utf8_fix now = now \<Longrightarrow> validate_route (f now) = None \<and> route_text_ok (f now)"
  shows "\<exists>h'. (case route_stamp h of (now, h) \<Rightarrow> route_save p (f now) h) = (Inr (), h') \<and>
    route_host p h' (f (fst (route_stamp h))) \<and> same_place p h h'"
proof -
  let ?now = "fst (route_stamp h)" and ?h = "snd (route_stamp h)"
  from assms(1) have c: "clock_in_range h" and q: "Go_Os.quiet h" by (simp_all add: route_view_def)
  from assms(2) stamp_text [OF c] have v: "validate_route (f ?now) = None" "route_text_ok (f ?now)" by blast+
  from q have qs: "Go_Os.quiet ?h" by (simp add: Go_Os.quiet_def route_stamp_def host_now_def)
  have h: "?h = h\<lparr> h_reads := Suc (h_reads h) \<rparr>" by (simp add: route_stamp_def host_now_def)
  show ?thesis
    using route_save_quiet [OF qs v, of p] v c q
    by (auto simp: split_beta h route_host_def holds_route_def Go_Os.quiet_def clock_in_range_def same_place_def)
qed

subsection \<open>The steps of the cycle\<close>

definition install_args :: "string \<Rightarrow> string list" where
  "install_args cfg = [''--config'', cfg, ''--yes'']"

lemma config_load_host: "config_load cfg h = (Inr c, h0) \<Longrightarrow> h0 = h\<lparr> h_ops := Suc (h_ops h) \<rparr>"
  by (auto simp: config_load_ok read_file_ok)

lemma config_load_moved:
  assumes "config_load cfg h = (Inr c, h0)" and "resolve_path cfg h = Inr q" and "q \<noteq> p"
    and "same_place p h h'" and "Go_Os.quiet h'"
  shows "config_load cfg h' = (Inr c, h'\<lparr> h_ops := Suc (h_ops h') \<rparr>)"
proof -
  from assms(1,2) obtain t c0 where "h_files h q = Some t"
    "unmarshal (dec_struct False config_members) t default_config = Inr c0" "c = config_finish c0" "config_valid c"
    by (auto simp: config_load_ok read_file_ok)
  moreover from assms(3,4) have "h_files h' q = h_files h q" by (auto simp: same_place_def)
  moreover have "resolve_path cfg h' = Inr q" using same_place_paths(1) [OF assms(4)] assms(2) by simp
  ultimately show ?thesis using assms(5) by (auto simp: config_load_ok read_file_ok Go_Os.quiet_def)
qed

lemma installed_valid:
  assumes "route_text_ok s" and "utf8_fix a = a" and "now \<noteq> []" and "utf8_fix now = now"
  shows "validate_route (route_installed now a s) = None \<and> route_text_ok (route_installed now a s)"
proof -
  have "utf8_fix ''install'' = ''install''" "utf8_fix mode_whole_device = mode_whole_device" by code_simp+
  with assms show ?thesis
    by (simp add: route_installed_def validate_route_def route_text_ok_def state_version_def)
qed

lemma route_install_step:
  assumes "route_view p h s" and "route_state_path cfg h = Inr p" and "config_load cfg h = (Inr c, h0)"
    and "utf8_fix (cf_agent_listen_addr c) = cf_agent_listen_addr c"
  shows "\<exists>h'. run_route_install (install_args cfg) h = (Inr (), h') \<and>
    route_host p h' (route_installed (fst (route_stamp h)) (cf_agent_listen_addr c) s) \<and> same_place p h h'"
proof -
  let ?h = "h\<lparr> h_ops := Suc (Suc (h_ops h)) \<rparr>"
  have now: "fst (route_stamp ?h) = fst (route_stamp h)" by (simp add: route_stamp_def host_now_def)
  have p: "route_state_path cfg (h\<lparr> h_ops := Suc (h_ops h) \<rparr>) = Inr p"
    using same_place_paths(2) [of p h "h\<lparr> h_ops := Suc (h_ops h) \<rparr>" cfg] assms(2) by (simp add: same_place_def)
  have "route_load_or_default p (h\<lparr> h_ops := Suc (h_ops h) \<rparr>) = (Inr s, ?h)"
    using route_view_load [OF route_view_ops [OF assms(1)]] by simp
  then have "run_route_install (install_args cfg) h =
    (case route_stamp ?h of (now, h) \<Rightarrow> route_save p (route_installed now (cf_agent_listen_addr c) s) h)"
    using p by (simp add: run_route_install_def install_args_def confirmed_args assms(3) config_load_host [OF assms(3)]
        default_setup_options_def)
  moreover from installed_valid [OF route_view_text [OF assms(1)] assms(4)] route_view_ops [OF assms(1)]
    route_write [of p ?h s "\<lambda>now. route_installed now (cf_agent_listen_addr c) s"]
  obtain h' where "(case route_stamp ?h of (now, h) \<Rightarrow> route_save p (route_installed now (cf_agent_listen_addr c) s) h) = (Inr (), h')"
    "route_host p h' (route_installed (fst (route_stamp ?h)) (cf_agent_listen_addr c) s)" "same_place p ?h h'" by blast
  ultimately show ?thesis by (auto simp: now)
qed

lemma uninstalled_valid:
  assumes "route_text_ok s" and "now \<noteq> []" and "utf8_fix now = now"
  shows "validate_route (route_uninstalled now s) = None \<and> route_text_ok (route_uninstalled now s)"
proof -
  have "utf8_fix ''uninstall'' = ''uninstall''" "utf8_fix mode_whole_device = mode_whole_device" by code_simp+
  with assms show ?thesis
    by (simp add: route_uninstalled_def validate_route_def route_text_ok_def state_version_def)
qed

lemma route_uninstall_step:
  assumes "route_view p h s" and "route_state_path cfg h = Inr p"
  shows "if rs_installed s \<or> rs_cleanup_required s
    then \<exists>h'. run_route_uninstall (install_args cfg) h = (Inr (), h') \<and>
      route_host p h' (route_uninstalled (fst (route_stamp h)) s) \<and> same_place p h h'
    else fst (run_route_uninstall (install_args cfg) h) = Inl (Err ''route is already uninstalled'')"
proof -
  let ?h = "h\<lparr> h_ops := Suc (h_ops h) \<rparr>"
  have now: "fst (route_stamp ?h) = fst (route_stamp h)" by (simp add: route_stamp_def host_now_def)
  note run = run_route_uninstall_def install_args_def confirmed_args default_setup_options_def
    route_view_load [OF assms(1)] assms(2)
  from uninstalled_valid [OF route_view_text [OF assms(1)]] route_view_ops [OF assms(1)]
    route_write [of p ?h s "\<lambda>now. route_uninstalled now s"]
  obtain h' where "(case route_stamp ?h of (now, h) \<Rightarrow> route_save p (route_uninstalled now s) h) = (Inr (), h')"
    "route_host p h' (route_uninstalled (fst (route_stamp ?h)) s)" "same_place p ?h h'" by blast
  then show ?thesis by (auto simp: run now)
qed

abbreviation flagged :: "bool \<Rightarrow> string \<Rightarrow> route_state \<Rightarrow> string \<Rightarrow> route_state" where
  "flagged b reason s now \<equiv>
     s\<lparr> rs_cleanup_required := b, rs_cleanup_reason := reason, rs_updated_at := now \<rparr>"

lemma flagged_step:
  assumes "route_view p h s" and "s \<noteq> default_state" and "utf8_fix reason = reason"
  shows "\<exists>h'. (case route_stamp (h\<lparr> h_ops := Suc (h_ops h) \<rparr>) of (now, h) \<Rightarrow> route_save p (flagged b reason s now) h) =
      (Inr (), h') \<and> route_view p h' (flagged b reason s (fst (route_stamp h))) \<and> same_place p h h'"
proof -
  let ?h = "h\<lparr> h_ops := Suc (h_ops h) \<rparr>"
  have now: "fst (route_stamp ?h) = fst (route_stamp h)" by (simp add: route_stamp_def host_now_def)
  from assms have "holds_route p h s" by (simp add: route_view_def)
  with assms(3) have "validate_route (flagged b reason s now) = None \<and> route_text_ok (flagged b reason s now)"
    if "now \<noteq> []" "utf8_fix now = now" for now
    using that by (auto simp: holds_route_def validate_route_def route_text_ok_def split: if_splits)
  from route_write [of p ?h s "flagged b reason s", OF route_view_ops [OF assms(1)] this] show ?thesis
    by (auto simp: now intro!: route_host_view)
qed

lemma default_not_flagged:
  "\<not> rs_installed default_state" "\<not> rs_cleanup_required default_state" "rs_cleanup_reason default_state = []"
  by (simp_all add: default_state_def zero_route_state_def)

lemma mark_step:
  assumes "route_view p h s"
  shows "\<exists>h'. mark_cleanup_required p cleanup_reason h = (Inr (), h') \<and>
    route_view p h' (marked cleanup_reason (fst (route_stamp h)) s) \<and> same_place p h h'"
proof (cases "rs_installed s")
  case False
  with assms show ?thesis
    by (auto simp: mark_cleanup_required_def route_view_load done_ok_def marked_def route_view_ops)
      (simp add: same_place_def)
next
  case True
  moreover have "utf8_fix cleanup_reason = cleanup_reason" by code_simp
  ultimately show ?thesis
    using flagged_step [OF assms, of cleanup_reason True] default_not_flagged
    by (auto simp: mark_cleanup_required_def route_view_load [OF assms] marked_def)
qed

lemma clear_step:
  assumes "route_view p h s"
  shows "\<exists>h'. clear_cleanup_required p h = (Inr (), h') \<and>
    route_view p h' (cleared (fst (route_stamp h)) s) \<and> same_place p h h'"
proof (cases "\<not> rs_cleanup_required s \<and> rs_cleanup_reason s = []")
  case True
  with assms show ?thesis
    by (auto simp: clear_cleanup_required_def route_view_load done_ok_def cleared_def route_view_ops)
      (simp add: same_place_def)
next
  case False
  then show ?thesis
    using flagged_step [OF assms, of "[]" False] default_not_flagged
    by (auto simp: clear_cleanup_required_def route_view_load [OF assms] cleared_def)
qed

subsection \<open>Serving\<close>

text \<open>A session that leaves the route file and the environment alone, whatever else it does.\<close>

definition keeps_route :: "string \<Rightarrow> (serving \<Rightarrow> host \<Rightarrow> unit io) \<Rightarrow> bool" where
  "keeps_route p listen \<longleftrightarrow>
     (\<forall>sv h s. route_view p h s \<longrightarrow>
        route_view p (snd (listen sv h)) s \<and> same_place p h (snd (listen sv h)))"

lemma session_keeps_route: "keeps_route p (session_listen final)"
  by (simp add: keeps_route_def session_listen_def same_place_def)

lemma then_listen:
  assumes "keeps_route p listen" and "route_view p h s"
  shows "route_view p (snd (and_then (r, h) listen)) s" and "same_place p h (snd (and_then (r, h) listen))"
  using assms by (cases r; simp add: keeps_route_def same_place_def; blast)+

lemma and_then_pair: "and_then (x, h) k = (case x of Inl e \<Rightarrow> (Inl e, h) | Inr y \<Rightarrow> k y h)"
  by (cases x) simp_all

lemma launch_step:
  assumes "route_view p h s"
  shows "\<exists>r h' s'. serve_launch c p w h = (r, h') \<and> route_view p h' s' \<and> same_place p h h' \<and>
    (s' = s \<or> s' = cleared (fst (route_stamp h)) s)"
proof -
  let ?m = "serve_launch c p w h"
  from clear_step [OF assms] obtain h1 where h1: "clear_cleanup_required p h = (Inr (), h1)"
    "route_view p h1 (cleared (fst (route_stamp h)) s)" "same_place p h h1" by blast
  have "(\<exists>e. ?m = (Inl e, h)) \<or> (\<exists>sv. ?m = (Inr sv, h1))"
    by (auto simp: serve_launch_def and_then_pair h1(1) new_server_def split: sum.split)
  then show ?thesis using assms h1(2,3) by (auto simp: same_place_def)
qed

text \<open>
  However the session ends, and even when the start fails after the configuration was accepted:
  the route is marked.
\<close>

lemma serve_step:
  assumes "route_view p h s" and "serve_config args h = (Inr (c, p), h\<lparr> h_ops := n \<rparr>)" and "keeps_route p listen"
  shows "\<exists>r h' s' now. run_serve listen w args h = (r, h') \<and> route_view p h' (marked cleanup_reason now s') \<and>
    same_place p h h' \<and> (s' = s \<or> s' = cleared (fst (route_stamp h)) s)"
proof -
  let ?h = "h\<lparr> h_ops := n \<rparr>"
  have now: "fst (route_stamp ?h) = fst (route_stamp h)" by (simp add: route_stamp_def host_now_def)
  from launch_step [OF route_view_ops [OF assms(1)], of c w n] obtain r1 h1 s1 where
    l: "serve_launch c p w ?h = (r1, h1)" "route_view p h1 s1" "same_place p h h1"
    "s1 = s \<or> s1 = cleared (fst (route_stamp h)) s" by (auto simp: now)
  obtain r2 h2 where s2: "and_then (r1, h1) listen = (r2, h2)" by fastforce
  have k: "route_view p h2 s1" "same_place p h1 h2"
    using then_listen [OF assms(3) l(2), of r1] by (simp_all add: s2)
  from mark_step [OF k(1)] obtain h3 where m: "mark_cleanup_required p cleanup_reason h2 = (Inr (), h3)"
    "route_view p h3 (marked cleanup_reason (fst (route_stamp h2)) s1)" "same_place p h2 h3" by blast
  have "run_serve listen w args h = (r2, h3)"
    using m(1) s2 by (simp add: run_serve_def assms(2) l(1) marking_cleanup_def ignore_def)
  moreover have "same_place p h h3" using same_place_trans l(3) k(2) m(3) by blast
  ultimately show ?thesis using m(2) l(4) by blast
qed

lemma serve_config_step:
  assumes "config_load cfg h = (Inr c, h')" and "route_state_path cfg h = Inr p"
  shows "serve_config [''--config'', cfg] h = (Inr (c\<lparr> cf_proxy_enabled := True \<rparr>, p), h\<lparr> h_ops := Suc (h_ops h) \<rparr>)"
proof -
  from assms(1) have "config_valid c" by (auto simp: config_load_ok)
  then have "validate_config (c\<lparr> cf_proxy_enabled := True \<rparr>) = None"
    by (simp add: validate_config_lemma config_valid_def)
  moreover have "route_state_path cfg (h\<lparr> h_ops := Suc (h_ops h) \<rparr>) = Inr p"
    using same_place_paths(2) [of p h "h\<lparr> h_ops := Suc (h_ops h) \<rparr>" cfg] assms(2) by (simp add: same_place_def)
  ultimately show ?thesis
    unfolding serve_config_def serve_args
    by (simp add: assms(1) config_load_host [OF assms(1)] default_serve_options_def
        serve_overrides_def Let_def)
qed

subsection \<open>The cycle\<close>

definition route_phases :: "string \<Rightarrow> route_state \<Rightarrow> route_state \<Rightarrow> route_state \<Rightarrow> bool" where
  "route_phases listen s1 s2 s3 \<longleftrightarrow>
     rs_installed s1 \<and> \<not> rs_cleanup_required s1 \<and> rs_listen_addr s1 = listen \<and> rs_last_action s1 = ''install'' \<and>
     s2 = s1\<lparr> rs_cleanup_required := True, rs_cleanup_reason := cleanup_reason, rs_updated_at := rs_updated_at s2 \<rparr> \<and>
     \<not> rs_installed s3 \<and> \<not> rs_cleanup_required s3 \<and> rs_cleanup_reason s3 = [] \<and> rs_listen_addr s3 = listen \<and>
     rs_uninstalled_at s3 \<noteq> [] \<and> rs_proxy_installed s3 = rs_proxy_installed s1 \<and> rs_last_action s3 = ''uninstall''"

text \<open>
  C38. The life of a route. On a host whose file operations succeed, with a configuration that
  loads: \<^verbatim>\<open>route install\<close> records the route as installed; the following \<^verbatim>\<open>serve\<close>, however it ends
  (even when it fails to start for lack of a token), leaves it marked as in need of a cleanup and
  otherwise as it was; \<^verbatim>\<open>route uninstall\<close> then clears both marks, and a second one is refused.
\<close>

theorem route_life_cycle:
  assumes "route_view p h s" and "route_state_path cfg h = Inr p"
    and "resolve_path cfg h = Inr q" and "q \<noteq> p" and "config_load cfg h = (Inr c, h0)"
    and "utf8_fix (cf_agent_listen_addr c) = cf_agent_listen_addr c" and "keeps_route p listen"
  shows "\<exists>h1 h2 h3 r s1 s2 s3.
    run_route_install (install_args cfg) h = (Inr (), h1) \<and> holds_route p h1 s1 \<and>
    run_serve listen w [''--config'', cfg] h1 = (r, h2) \<and> holds_route p h2 s2 \<and>
    run_route_uninstall (install_args cfg) h2 = (Inr (), h3) \<and> holds_route p h3 s3 \<and>
    route_phases (cf_agent_listen_addr c) s1 s2 s3 \<and>
    fst (run_route_uninstall (install_args cfg) h3) = Inl (Err ''route is already uninstalled'')"
proof -
  define s1 where "s1 = route_installed (fst (route_stamp h)) (cf_agent_listen_addr c) s"
  from route_install_step [OF assms(1,2,5,6)] obtain h1 where
    i: "run_route_install (install_args cfg) h = (Inr (), h1)" "route_host p h1 s1" "same_place p h h1"
    by (auto simp: s1_def)
  have "Go_Os.quiet h1" using i(2) by (simp add: route_host_def)
  from serve_config_step [OF config_load_moved [OF assms(5,3,4) i(3) this]] same_place_paths(2) [OF i(3)] assms(2)
  have sc: "serve_config [''--config'', cfg] h1 = (Inr (c\<lparr> cf_proxy_enabled := True \<rparr>, p), h1\<lparr> h_ops := Suc (h_ops h1) \<rparr>)"
    by simp
  have on: "rs_installed s1" "cleared t s1 = s1" for t by (simp_all add: s1_def route_installed_def cleared_def)
  from serve_step [OF route_host_view [OF i(2)] sc assms(7), of w] obtain r h2 now where
    v: "run_serve listen w [''--config'', cfg] h1 = (r, h2)" "route_view p h2 (marked cleanup_reason now s1)" "same_place p h1 h2"
    by (auto simp: on(2))
  define s2 where "s2 = marked cleanup_reason now s1"
  have on2: "rs_installed s2" "s2 = flagged True cleanup_reason s1 now" using on(1) by (simp_all add: s2_def marked_def)
  then have "s2 \<noteq> default_state" using default_not_flagged(1) by metis
  then have f2: "holds_route p h2 s2" using v(2) by (simp add: route_view_def s2_def)
  have p2: "route_state_path cfg h2 = Inr p"
    using same_place_paths(2) [OF same_place_trans [OF i(3) v(3)]] assms(2) by simp
  from route_uninstall_step [OF v(2) p2] on2(1) obtain h3 where
    u: "run_route_uninstall (install_args cfg) h2 = (Inr (), h3)"
    "route_host p h3 (route_uninstalled (fst (route_stamp h2)) s2)" "same_place p h2 h3"
    by (auto simp: s2_def)
  define s3 where "s3 = route_uninstalled (fst (route_stamp h2)) s2"
  have "route_state_path cfg h3 = Inr p" using same_place_paths(2) [OF u(3)] p2 by simp
  from route_uninstall_step [OF route_host_view [OF u(2)] this]
  have "fst (run_route_uninstall (install_args cfg) h3) = Inl (Err ''route is already uninstalled'')"
    by (simp add: route_uninstalled_def)
  moreover have "route_phases (cf_agent_listen_addr c) s1 s2 s3"
    using v(2) stamp_text(2) [of h2]
    by (simp add: route_phases_def s3_def on2(2) route_view_def) (simp add: s1_def route_installed_def route_uninstalled_def)
  ultimately show ?thesis
    using i(1,2) v(1) f2 u(1,2) unfolding s3_def route_host_def by blast
qed

subsection \<open>Starting from a valid configuration\<close>

lemma valid_settings: "config_valid c \<Longrightarrow> settings_acceptable (agent_settings c)"
  by (auto simp: config_valid_def settings_acceptable_def agent_settings_def millisecond_def
      reliability_fail_closed_def reliability_fail_open_def)

lemma valid_dispatcher:
  assumes "config_valid c" and "trim_space token \<noteq> []"
  shows "\<exists>d. new_dispatcher c token clock net ctx date = Inr d \<and> gd_clock d = clock \<and> gd_token d = token"
proof -
  from assms(1) obtain o' n where "repo_owner_and_name c = Inr (o', n)"
    using repo_name_iff [of c] by (auto simp: config_valid_def)
  with assms(2) show ?thesis by (simp add: new_dispatcher_def)
qed

lemma valid_agent:
  assumes "config_valid c"
  shows "\<exists>a. new_agent (Some d) (agent_settings c) clock entropy = Inr a"
  using valid_settings [OF assms] check_settings_iff [of "agent_settings c"] by (auto simp: new_agent_def)

lemma launch_ok:
  assumes "config_valid c" and "trim_space (getenv (cf_github_token_env c) h) \<noteq> []" and "route_view p h s"
  shows "\<exists>sv h'. serve_launch c p w h = (Inr sv, h') \<and> agent_idle (sv_agent sv) \<and>
    gd_clock (sv_dispatcher sv) = ow_server_clock w \<and>
    (sv_proxy sv = (if cf_proxy_enabled c then Some \<lparr> px_listen_addr = cf_proxy_listen_addr c \<rparr> else None)) \<and>
    sv_listen_addr sv = cf_agent_listen_addr c \<and> sv_route_path sv = p"
proof -
  let ?t = "trim_space (getenv (cf_github_token_env c) h)"
  have t: "config_token c h = Inr ?t" using assms(2) by (simp add: config_token_def)
  from valid_dispatcher [OF assms(1), of ?t "ow_server_clock w" "ow_net w" "ow_ctx w" "ow_http_date w"] assms(2)
  obtain d where
    d: "new_dispatcher c ?t (ow_server_clock w) (ow_net w) (ow_ctx w) (ow_http_date w) = Inr d"
    "gd_clock d = ow_server_clock w" by auto
  from valid_agent [OF assms(1), of d "ow_clock w" "ow_entropy w"] obtain a where
    a: "new_agent (Some d) (agent_settings c) (ow_clock w) (ow_entropy w) = Inr a" by blast
  from clear_step [OF assms(3)] obtain h1 where "clear_cleanup_required p h = (Inr (), h1)" by blast
  then show ?thesis
    using d a t new_agent_ready [OF a] by (simp add: serve_launch_def new_server_def)
qed

text \<open>From the arguments of \<^verbatim>\<open>serve\<close> to the running parts.\<close>

definition serve_start :: "outside_world \<Rightarrow> string list \<Rightarrow> host \<Rightarrow> serving io" where
  "serve_start w args h = and_then (serve_config args h) (\<lambda>(c, p) h. serve_launch c p w h)"

lemma init_written:
  assumes "run_init args h = (Inr (), h1)" and "parse_flags init_flags args default_init_options = Inr (opts, rest)"
    and "config_text_ok (normalize_config (init_config opts))" and "Go_Os.quiet h1"
  shows "config_load (io_config opts) h1 = (Inr (normalize_config (init_config opts)), h1\<lparr> h_ops := Suc (h_ops h1) \<rparr>)"
proof -
  let ?c = "init_config opts" and ?p = "io_config opts"
  from assms(1,2) have v: "config_valid ?c" and s: "config_save ?p ?c h = (Inr (), h1)"
    by (auto simp: run_init_def validate_config_lemma [symmetric] split: option.splits)
  obtain q where q: "resolve_path ?p h = Inr q"
    and h1: "h1 = h\<lparr> h_ops := Suc (Suc (h_ops h)),
      h_files := (h_files h)(q \<mapsto> json_indent (marshal_struct config_members (normalize_config ?c)) @ [CHR 0x0A]) \<rparr>"
    by (rule config_save_ok [OF s])
  have "resolve_path ?p h1 = Inr q" using q resolve_path_env [of h1 h ?p] by (simp add: h1)
  moreover have "read_file q h1 = (Inr (json_indent (marshal_struct config_members (normalize_config ?c)) @ [CHR 0x0A]),
      h1\<lparr> h_ops := Suc (h_ops h1) \<rparr>)"
    unfolding read_file_ok using assms(4) by (simp add: h1 Go_Os.quiet_def)
  moreover have "config_finish (normalize_config ?c) = normalize_config ?c" and "config_valid (normalize_config ?c)"
    using normalize_idem [OF v] by (simp_all add: config_finish_def config_valid_def)
  ultimately show ?thesis
    unfolding config_load_ok using config_decode [OF assms(3) normalize_idem(2) [OF v]] by metis
qed

text \<open>The world in which the dispatcher's clock passes every instant.\<close>

definition world_time_passes :: "outside_world \<Rightarrow> bool" where
  "world_time_passes w \<longleftrightarrow> (\<forall>t. \<exists>n. \<forall>m \<ge> n. t < ow_server_clock w m)"

text \<open>
  C37. From \<^verbatim>\<open>init\<close> to answers. When \<^verbatim>\<open>init\<close> has written a configuration and the variable it names
  holds a token, \<^verbatim>\<open>serve\<close> with that configuration starts: on the two default addresses, with an
  agent that takes requests and a dispatcher for which time passes, so that any list of client
  requests is answered, one response each, whatever GitHub replies.
\<close>

theorem init_serves:
  assumes "run_init args h = (Inr (), h1)" and "parse_flags init_flags args default_init_options = Inr (opts, rest)"
    and "config_text_ok (normalize_config (init_config opts))"
    and "route_state_path (io_config opts) h1 = Inr p" and "route_view p h1 s"
    and "trim_space (getenv (trim_space (io_token_env opts)) h1) \<noteq> []" and "world_time_passes w"
  shows "\<exists>sv h2 ws ad. serve_start w [''--config'', io_config opts] h1 = (Inr sv, h2) \<and>
    sv_listen_addr sv = ''127.0.0.1:8787'' \<and> sv_proxy sv = Some \<lparr> px_listen_addr = ''127.0.0.1:8788'' \<rparr> \<and>
    serve_all redirect (submit_alone process_batch) qs (sv_agent sv, sv_dispatcher sv) = (ws, ad) \<and>
    relay_ready ad \<and> list_all2 (served_properly redirect) qs ws"
proof -
  define c where "c = (normalize_config (init_config opts))\<lparr> cf_proxy_enabled := True \<rparr>"
  from assms(5) have q: "Go_Os.quiet h1" by (simp add: route_view_def)
  note l = init_written [OF assms(1,2,3) q]
  note sc = serve_config_step [OF l assms(4)]
  from l have v: "config_valid c" by (auto simp: config_load_ok c_def config_valid_def)
  have t: "getenv k (h1\<lparr> h_ops := n \<rparr>) = getenv k h1" for k n by (simp add: getenv_def env_key_def)
  have "trim_space (getenv (cf_github_token_env c) (h1\<lparr> h_ops := Suc (h_ops h1) \<rparr>)) \<noteq> []"
    unfolding t using assms(6) by (simp add: c_def normalize_config_def init_config_def)
  from launch_ok [OF v this route_view_ops [OF assms(5)], of w] obtain sv h2 where
    sv: "serve_launch c p w (h1\<lparr> h_ops := Suc (h_ops h1) \<rparr>) = (Inr sv, h2)" "agent_idle (sv_agent sv)"
    "gd_clock (sv_dispatcher sv) = ow_server_clock w"
    "sv_proxy sv = Some \<lparr> px_listen_addr = cf_proxy_listen_addr c \<rparr>" "sv_listen_addr sv = cf_agent_listen_addr c"
    by (auto simp: c_def)
  have "cf_agent_listen_addr c = ''127.0.0.1:8787''" "cf_proxy_listen_addr c = ''127.0.0.1:8788''"
    by (simp_all add: c_def normalize_config_def init_config_def default_config_def sample_trims)
  moreover have "serve_start w [''--config'', io_config opts] h1 = (Inr sv, h2)"
    using sv(1) by (simp add: serve_start_def sc c_def)
  moreover have "relay_ready (sv_agent sv, sv_dispatcher sv)"
    using sv(2,3) assms(7) by (simp add: relay_ready_def time_passes_def world_time_passes_def)
  note relay.serve_all_ready [OF this, of redirect qs]
  ultimately show ?thesis using sv(4,5) by auto
qed

end
