(* ===== verification/Cli_Fetch.thy ===== *)
theory Cli_Fetch
  imports Cli_Serve Url_Authority
begin

text \<open>
  \<^verbatim>\<open>actionrelay fetch\<close> (\<^verbatim>\<open>client/cmd/actionrelay/main.go\<close>): a client of the local API. The HTTP
  exchange is the parameter \<open>send\<close>, which gives the status and how reading the body ended, or
  the error of the request; its 60 second timeout is one of those errors.
\<close>

subsection \<open>Header flags\<close>

definition header_flag_text :: "string gomap \<Rightarrow> string" where
  "header_flag_text values = join_str '','' (map (\<lambda>(k, v). k @ '':'' @ v) values)"

definition set_header_flag :: "string \<Rightarrow> string gomap \<Rightarrow> string gomap res" where
  "set_header_flag v values =
     (case cut_byte CHR '':'' v of
        (key, val, found) \<Rightarrow>
          if \<not> found then Inl (Err ''header must be key:value'')
          else if trim_space key = [] then Inl (Err ''header key cannot be empty'')
          else Inr (AList.update (trim_space key) (trim_space val) values))"

subsection \<open>The command\<close>

definition default_agent_url :: string where "default_agent_url = ''http://127.0.0.1:8787''"

record fetch_options =
  fo_method :: string
  fo_body :: string
  fo_agent :: string
  fo_headers :: "string gomap"

definition default_fetch_options :: fetch_options where
  "default_fetch_options =
     \<lparr> fo_method = ''GET'', fo_body = [], fo_agent = default_agent_url, fo_headers = [] \<rparr>"

definition fetch_flags :: "fetch_options flag list" where
  "fetch_flags =
     [string_flag ''method'' fo_method_update,
      string_flag ''body'' fo_body_update,
      string_flag ''agent'' fo_agent_update,
      (''header'', False, \<lambda>v opts.
         (case set_header_flag v (fo_headers opts) of
            Inl e \<Rightarrow> Inl e | Inr hs \<Rightarrow> Inr (opts\<lparr> fo_headers := hs \<rparr>)))]"

text \<open>
  The payload: the keys of a Go map are printed in byte order, and a map to which no header was
  added is nil.
\<close>

definition fetch_payload :: "fetch_options \<Rightarrow> string \<Rightarrow> json" where
  "fetch_payload opts url = JObj
     ((if fo_body opts \<noteq> [] then [(''body_base64'', JStr (b64_encode (fo_body opts)))] else []) @
      [(''headers'', if fo_headers opts = [] then JNull else json_string_map (fo_headers opts)),
       (''method'', JStr (fo_method opts)),
       (''url'', JStr url)])"

definition local_request :: "string \<Rightarrow> string \<Rightarrow> string gomap \<Rightarrow> string option \<Rightarrow> api_request res" where
  "local_request method endpoint headers body =
     (case url_parse endpoint of
        Inl e \<Rightarrow> Inl e
      | Inr u \<Rightarrow> Inr \<lparr> aq_method = method, aq_url = u\<lparr> u_host := remove_empty_port (u_host u) \<rparr>,
                aq_headers = headers, aq_body = body \<rparr>)"

definition fetch_result :: "int \<Rightarrow> string res \<Rightarrow> request_result res" where
  "fetch_result status body =
     (case body of
        Inl e \<Rightarrow> Inl (wrap_err ''read agent response: '' e)
      | Inr text \<Rightarrow>
          if status \<noteq> 200
          then Inl (Err (''agent returned status '' @ itoa status @ '': '' @ trim_space text))
          else (case unmarshal (dec_result False) text zero_result of
              Inl e \<Rightarrow> Inl (wrap_err ''decode agent response: '' e)
            | Inr r \<Rightarrow> Inr r))"

definition run_fetch :: "(api_request \<Rightarrow> (int \<times> string res) res) \<Rightarrow> string list \<Rightarrow> string res" where
  "run_fetch send args =
     (case parse_flags fetch_flags args default_fetch_options of
        Inl e \<Rightarrow> Inl e
      | Inr (opts, rest) \<Rightarrow>
          (case rest of
             [url] \<Rightarrow>
               (case local_request ''POST'' (trim_slashes (fo_agent opts) @ ''/v1/requests'')
                       [(''Content-Type'', ''application/json'')] (Some (json_text (fetch_payload opts url))) of
                  Inl e \<Rightarrow> Inl e
                | Inr q \<Rightarrow>
                    (case send q of
                       Inl e \<Rightarrow> Inl (wrap_err ''submit to local agent: '' e)
                     | Inr (status, body) \<Rightarrow>
                         (case fetch_result status (map_sum id (take api_body_limit) body) of
                            Inl e \<Rightarrow> Inl e
                          | Inr r \<Rightarrow> Inr (json_indent (result_json r) @ [CHR 0x0A]))))
           | _ \<Rightarrow> Inl (Err ''fetch requires a single URL argument'')))"

end
