(* ===== verification/Cli_Api.thy ===== *)
theory Cli_Api
  imports Cli_Serve Http_Mux
begin

text \<open>
  The local API as a whole (\<^verbatim>\<open>runServe\<close> in \<^verbatim>\<open>client/cmd/actionrelay/main.go\<close>): the three handlers
  behind their \<^verbatim>\<open>ServeMux\<close>, over the agent with its dispatcher and the host; and an exchange with
  a client on the same machine.
\<close>

definition healthz_pattern :: mux_pattern where "healthz_pattern = ([''healthz''], False)"

definition status_pattern :: mux_pattern where "status_pattern = ([''v1'', ''status''], False)"

definition requests_pattern :: mux_pattern where "requests_pattern = ([''v1'', ''requests''], False)"

definition api_patterns :: "mux_pattern list" where
  "api_patterns = [healthz_pattern, status_pattern, requests_pattern]"

definition api_dispatch ::
  "(submit_request \<Rightarrow> agent \<times> 'd \<Rightarrow> request_result res \<times> (agent \<times> 'd)) \<Rightarrow> string \<Rightarrow> mux_pattern \<Rightarrow> proxy_request \<Rightarrow>
   response_writer \<times> (agent \<times> 'd) \<times> host \<Rightarrow> response_writer \<times> (agent \<times> 'd) \<times> host" where
  "api_dispatch submit p pat q ws =
     (case ws of (w, (a, d), h) \<Rightarrow>
        if pat = healthz_pattern then (handle_healthz w, (a, d), h)
        else if pat = status_pattern
          then (case handle_status p q (w, a, h) of (w, a, h) \<Rightarrow> (w, (a, d), h))
        else (case handle_requests submit q (w, (a, d)) of (w, ad) \<Rightarrow> (w, ad, h)))"

definition api_handler ::
  "(routed_request \<Rightarrow> response_writer \<Rightarrow> response_writer) \<Rightarrow>
   (submit_request \<Rightarrow> agent \<times> 'd \<Rightarrow> request_result res \<times> (agent \<times> 'd)) \<Rightarrow> string \<Rightarrow> routed_request \<Rightarrow>
   response_writer \<times> (agent \<times> 'd) \<times> host \<Rightarrow> response_writer \<times> (agent \<times> 'd) \<times> host" where
  "api_handler redirect submit p = mux_serve redirect api_patterns (api_dispatch submit p)"

subsection \<open>Routing\<close>

lemma api_find:
  "mux_find api_patterns ''/healthz'' = Mux_handler healthz_pattern"
  "mux_find api_patterns ''/v1/status'' = Mux_handler status_pattern"
  "mux_find api_patterns ''/v1/requests'' = Mux_handler requests_pattern"
  by code_simp+

lemma api_canonical: "clean_path ''/v1/status'' = ''/v1/status''" "clean_path ''/v1/requests'' = ''/v1/requests''"
  by code_simp+

lemma api_distinct [simp]:
  "status_pattern \<noteq> healthz_pattern" "requests_pattern \<noteq> healthz_pattern" "requests_pattern \<noteq> status_pattern"
  by code_simp+

subsection \<open>An exchange\<close>

text \<open>
  The request of a client as the server reads it: the target is the path and the query of the
  client's URL. No redirection is followed here; the exchanges below are with canonical paths.
\<close>

definition served_url :: "go_url \<Rightarrow> go_url" where
  "served_url u =
     empty_url\<lparr> u_path := (if u_path u = [] then ''/'' else u_path u), u_raw_path := u_raw_path u,
       u_force_query := u_force_query u, u_raw_query := u_raw_query u \<rparr>"

definition served_request :: "api_request \<Rightarrow> routed_request" where
  "served_request q =
     \<lparr> rt_url = served_url (aq_url q), rt_http11 = True,
       rt_request = \<lparr> px_method = aq_method q, px_url = None, px_host = u_host (aq_url q),
         px_request_uri = request_uri (aq_url q), px_tls = False,
         px_header = map (\<lambda>(k, v). (k, [v])) (aq_headers q),
         px_body = (case aq_body q of None \<Rightarrow> [] | Some b \<Rightarrow> b), px_body_error = None \<rparr> \<rparr>"

definition api_exchange ::
  "(routed_request \<Rightarrow> response_writer \<Rightarrow> response_writer) \<Rightarrow>
   (submit_request \<Rightarrow> agent \<times> 'd \<Rightarrow> request_result res \<times> (agent \<times> 'd)) \<Rightarrow> string \<Rightarrow>
   (agent \<times> 'd) \<times> host \<Rightarrow> api_request \<Rightarrow> (int \<times> string res) res" where
  "api_exchange redirect submit p s q =
     (let w = fst (api_handler redirect submit p (served_request q) (fresh_writer, s))
      in case rw_status w of None \<Rightarrow> Inl (Err ''EOF'') | Some c \<Rightarrow> Inr (c, Inr (rw_body w)))"

text \<open>A URL for one path of the API.\<close>

definition api_url :: "string \<Rightarrow> go_url \<Rightarrow> bool" where
  "api_url p u \<longleftrightarrow> u_opaque u = [] \<and> escaped_path u = p"

lemma api_url_host [simp]: "api_url p (u\<lparr> u_host := x \<rparr>) \<longleftrightarrow> api_url p u"
  by (simp add: api_url_def escaped_path_def)

lemma served_simps [simp]:
  "px_method (rt_request (served_request q)) = aq_method q"
  "px_body (rt_request (served_request q)) = (case aq_body q of None \<Rightarrow> [] | Some b \<Rightarrow> b)"
  by (simp_all add: served_request_def)

lemma unescape_empty: "url_unescape s m = Some [] \<Longrightarrow> s = []"
  by (cases s) (auto split: if_splits list.splits)

lemma served_path:
  assumes "escaped_path u = p" and "p \<noteq> []"
  shows "escaped_path (served_url u) = p"
  using assms by (auto simp: escaped_path_def served_url_def empty_url_def url_escape_def dest: unescape_empty split: if_splits)

lemma served_choose:
  assumes "api_url p (aq_url q)" and "p \<noteq> []" and "hd p = CHR ''/''" and "clean_path p = p" and "aq_method q \<noteq> ''CONNECT''"
  shows "mux_choose api_patterns (served_request q) = mux_find api_patterns p"
proof -
  have "request_uri (aq_url q) \<noteq> ''*''" using assms(1-3) by (cases p) (auto simp: api_url_def request_uri_def)
  with served_path [of "aq_url q" p] assms show ?thesis
    by (simp add: mux_choose_def served_request_def api_url_def Let_def)
qed

lemma exchange_requests:
  assumes "api_url ''/v1/requests'' (aq_url q)" and "aq_method q \<noteq> ''CONNECT''"
  shows "api_exchange redirect submit p (ad, h) q =
    (let w = fst (handle_requests submit (inner_request (served_request q)) (fresh_writer, ad))
     in case rw_status w of None \<Rightarrow> Inl (Err ''EOF'') | Some c \<Rightarrow> Inr (c, Inr (rw_body w)))"
  using served_choose [OF assms(1) _ _ api_canonical(2) assms(2)]
  by (simp add: api_exchange_def api_handler_def mux_serve_def api_find api_dispatch_def case_prod_beta)

lemma exchange_status:
  assumes "api_url ''/v1/status'' (aq_url q)" and "aq_method q \<noteq> ''CONNECT''"
  shows "api_exchange redirect submit p ((a, d), h) q =
    (let w = fst (handle_status p (inner_request (served_request q)) (fresh_writer, a, h))
     in case rw_status w of None \<Rightarrow> Inl (Err ''EOF'') | Some c \<Rightarrow> Inr (c, Inr (rw_body w)))"
  using served_choose [OF assms(1) _ _ api_canonical(1) assms(2)]
  by (simp add: api_exchange_def api_handler_def mux_serve_def api_find api_dispatch_def case_prod_beta)

end
