(* ===== verification/Cli_Local.thy ===== *)
theory Cli_Local
  imports Cli_Fetch Cli_Api
begin

text \<open>
  \<^verbatim>\<open>fetch\<close> and the local API together: the payload \<^verbatim>\<open>fetch\<close> prints is what \<^verbatim>\<open>/v1/requests\<close> decodes,
  and the result the handler prints is what \<^verbatim>\<open>fetch\<close> shows.
\<close>

subsection \<open>Clean text\<close>

definition clean_text :: "string \<Rightarrow> bool" where
  "clean_text s \<longleftrightarrow> utf8_fix s = s"

definition clean_map :: "string gomap \<Rightarrow> bool" where
  "clean_map m \<longleftrightarrow> gomap_ok m \<and> list_all (\<lambda>(k, v). clean_text k \<and> clean_text v) m"

definition int64 :: "int \<Rightarrow> bool" where
  "int64 i \<longleftrightarrow> - (2 ^ 63) \<le> i \<and> i < 2 ^ 63"

text \<open>A result that JSON keeps: clean text, 64-bit numbers, headers in byte order.\<close>

definition clean_response :: "http_response \<Rightarrow> bool" where
  "clean_response r \<longleftrightarrow>
     int64 (hr_status r) \<and> clean_map (hr_headers r) \<and> sorted (map fst (hr_headers r)) \<and>
     clean_text (rsb_encoding (hr_body r)) \<and> clean_text (rsb_data (hr_body r)) \<and> int64 (rsb_bytes (hr_body r)) \<and>
     clean_text (hr_url r) \<and> int64 (hr_timing_ms r)"

definition clean_result :: "request_result \<Rightarrow> bool" where
  "clean_result r \<longleftrightarrow>
     clean_text (rr_request_id r) \<and>
     (case rr_response r of None \<Rightarrow> True | Some x \<Rightarrow> clean_response x) \<and>
     (case rr_error r of None \<Rightarrow> True | Some e \<Rightarrow> clean_text (re_code e) \<and> clean_text (re_message e))"

subsection \<open>Maps of strings\<close>

lemma update_fresh: "k \<notin> fst ` set m \<Longrightarrow> AList.update k v m = m @ [(k, v)]"
  by (induction m) auto

lemma dec_entries_strings:
  assumes "distinct (map fst (m @ kvs))" and "list_all (\<lambda>(k, v). clean_text k \<and> clean_text v) kvs"
  shows "dec_entries (map (\<lambda>(k, v). (utf8_fix k, json_fix v)) (map (\<lambda>(k, v). (k, JStr v)) kvs)) m = Some (m @ kvs)"
  using assms
proof (induction kvs arbitrary: m)
  case Nil
  then show ?case by simp
next
  case (Cons kv kvs)
  obtain k v where kv: "kv = (k, v)" by fastforce
  from Cons.prems have "k \<notin> fst ` set m" by (auto simp: kv)
  moreover have "distinct (map fst ((m @ [(k, v)]) @ kvs))" using Cons.prems(1) by (simp add: kv)
  ultimately show ?case using Cons.IH [of "m @ [(k, v)]"] Cons.prems(2)
    by (simp add: kv clean_text_def update_fresh)
qed

lemma sorted_map_clean: "clean_map m \<Longrightarrow> clean_map (sort_key fst m)"
  by (auto simp: clean_map_def gomap_ok_def list_all_iff distinct_map inj_on_def)

lemma dec_string_map_clean:
  assumes "clean_map m"
  shows "dec_string_map (json_fix (json_string_map m)) [] = Some (sort_key fst m)"
  using sorted_map_clean [OF assms] dec_entries_strings [of "[]" "sort_key fst m"]
  by (simp add: json_string_map_def clean_map_def gomap_ok_def)

subsection \<open>The payload\<close>

definition clean_fetch :: "fetch_options \<Rightarrow> string \<Rightarrow> bool" where
  "clean_fetch opts url \<longleftrightarrow>
     clean_text (fo_method opts) \<and> clean_text url \<and> clean_map (fo_headers opts) \<and>
     length (json_text (fetch_payload opts url)) \<le> api_body_limit"

text \<open>What the options ask for, with the headers in byte order.\<close>

definition fetch_submission :: "fetch_options \<Rightarrow> string \<Rightarrow> submit_request" where
  "fetch_submission opts url =
     \<lparr> sr_method = fo_method opts, sr_url = url, sr_body = fo_body opts, sr_header = sort_key fst (fo_headers opts) \<rparr>"

lemma api_names [simp]:
  "utf8_fix ''body_base64'' = ''body_base64''" "utf8_fix ''headers'' = ''headers''"
  "utf8_fix ''method'' = ''method''" "utf8_fix ''url'' = ''url''"
  by (rule utf8_fix_ascii, code_simp)+

lemma payload_member_for [simp]:
  "member_for payload_members ''method'' = Some (in_field ap_method ap_method_update dec_string)"
  "member_for payload_members ''url'' = Some (in_field ap_url ap_url_update dec_string)"
  "member_for payload_members ''headers'' = Some (in_field ap_headers ap_headers_update dec_string_map)"
  "member_for payload_members ''body_base64'' = Some (in_field ap_body_base64 ap_body_base64_update dec_string)"
  by (simp_all add: member_for_def payload_members_def read_member_def)

lemma fetch_payload_decode:
  assumes "clean_fetch opts url"
  shows "dec_struct False payload_members (json_fix (fetch_payload opts url)) zero_payload =
    Some \<lparr> ap_method = fo_method opts, ap_url = url, ap_headers = sort_key fst (fo_headers opts),
           ap_body_base64 = (if fo_body opts = [] then [] else b64_encode (fo_body opts)) \<rparr>"
proof -
  from assms have t: "utf8_fix (fo_method opts) = fo_method opts" "utf8_fix url = url"
    and m: "dec_string_map (json_fix (json_string_map (fo_headers opts))) [] = Some (sort_key fst (fo_headers opts))"
    by (simp_all add: clean_fetch_def clean_text_def dec_string_map_clean)
  have "utf8_fix (b64_encode (fo_body opts)) = b64_encode (fo_body opts)"
    by (simp add: utf8_fix_ascii b64_encode_ascii)
  with t m show ?thesis
    by (simp add: fetch_payload_def zero_payload_def in_field_def)
qed

lemma fetch_payload_shape:
  "no_frac (fetch_payload opts url)" "json_depth (fetch_payload opts url) \<le> json_max_depth"
  using string_map_flat [of "fo_headers opts"] by (auto simp: fetch_payload_def json_max_depth_def)

text \<open>The handler submits what was asked for.\<close>

lemma handle_fetched:
  assumes "clean_fetch opts url" and "px_method q = ''POST''"
    and "px_body q = json_text (fetch_payload opts url)"
  shows "handle_requests submit q (w, s) =
    (case submit (fetch_submission opts url) s of
       (Inl e, s) \<Rightarrow> (write_json 504 (error_json (err_text e)) w, s)
     | (Inr result, s) \<Rightarrow> (write_json 200 (result_json result) w, s))"
proof -
  from assms(1) have "take api_body_limit (px_body q) = json_text (fetch_payload opts url)"
    by (simp add: assms(3) clean_fetch_def)
  then have "decode_first (dec_struct False payload_members) (take api_body_limit (px_body q)) zero_payload =
    Inr \<lparr> ap_method = fo_method opts, ap_url = url, ap_headers = sort_key fst (fo_headers opts),
           ap_body_base64 = (if fo_body opts = [] then [] else b64_encode (fo_body opts)) \<rparr>"
    by (simp add: decode_first_def json_read_text(2) [OF fetch_payload_shape] fetch_payload_decode [OF assms(1)])
  then show ?thesis
    by (simp add: handle_requests_def assms(2) fetch_submission_def b64_round_trip b64_encode_nonempty)
qed

subsection \<open>The result\<close>

lemma result_names:
  "list_all (list_all is_ascii) [''encoding'', ''data'', ''bytes'', ''truncated'', ''status'', ''headers'', ''body'', ''url'',
     ''timing_ms'', ''code'', ''message'', ''request_id'', ''ok'', ''response'', ''error'']"
  by code_simp

lemmas read_members = member_for_def read_member_def in_field_def int64_def clean_text_def utf8_fix_ascii

lemma response_body_decode:
  assumes "clean_text (rsb_encoding b)" and "clean_text (rsb_data b)" and "int64 (rsb_bytes b)"
  shows "dec_response_body False (json_fix (response_body_json b)) zero_response_body = Some b"
  using assms result_names
  by (simp add: dec_response_body_def response_body_json_def zero_response_body_def read_members)

lemma response_decode:
  assumes "clean_response r"
  shows "dec_response False (json_fix (response_json r)) zero_response = Some r"
proof -
  from assms have b: "dec_response_body False (json_fix (response_body_json (hr_body r))) zero_response_body = Some (hr_body r)"
    by (intro response_body_decode) (simp_all add: clean_response_def)
  from assms have m: "dec_string_map (json_fix (json_string_map (hr_headers r))) [] = Some (hr_headers r)"
    by (simp add: clean_response_def dec_string_map_clean sort_key_id_if_sorted)
  show ?thesis
    using assms b m result_names
    by (simp add: dec_response_def response_json_def zero_response_def clean_response_def read_members)
qed

lemma json_object [simp]:
  "dec_pointer z d (json_fix (response_json r)) p = map_option Some (d (json_fix (response_json r)) (case p of None \<Rightarrow> z | Some x \<Rightarrow> x))"
  "dec_pointer z d (json_fix (result_error_json e)) p = map_option Some (d (json_fix (result_error_json e)) (case p of None \<Rightarrow> z | Some x \<Rightarrow> x))"
  by (simp_all add: response_json_def result_error_json_def)

lemma error_decode:
  assumes "clean_text (re_code e)" and "clean_text (re_message e)"
  shows "dec_error False (json_fix (result_error_json e)) zero_error = Some e"
  using assms result_names
  by (simp add: dec_error_def result_error_json_def zero_error_def read_members)

lemma result_decode:
  assumes "clean_result r"
  shows "dec_result False (json_fix (result_json r)) zero_result = Some r"
proof (cases r)
  case (fields i ok resp err)
  show ?thesis
    using assms result_names response_decode error_decode
    by (cases resp; cases err)
      (simp_all add: fields dec_result_def result_json_def zero_result_def clean_result_def read_members)
qed

lemma result_shape_json:
  "no_frac (result_json r)" "json_depth (result_json r) \<le> json_max_depth"
proof -
  have "no_frac (response_json x)" "json_depth (response_json x) \<le> 2" for x
    using string_map_flat [of "hr_headers x"] by (auto simp: response_json_def response_body_json_def)
  moreover from this(2) have "json_depth (response_json x) \<le> 9999" for x
    by (rule order_trans) simp
  moreover have "no_frac (result_error_json e)" "json_depth (result_error_json e) = 1" for e
    by (simp_all add: result_error_json_def)
  ultimately show "no_frac (result_json r)" "json_depth (result_json r) \<le> json_max_depth"
    by (auto simp: result_json_def json_max_depth_def split: option.split)
qed

lemma json_read_line:
  assumes "no_frac v" and "json_depth v \<le> json_max_depth"
  shows "json_read (json_text v @ [CHR 0x0A]) = Some (json_fix v)"
  using json_prefix_layout [of "\<lambda>_. []" "[]" "[CHR 0x0A]" v 0] assms
  by (simp add: json_read_def json_text_layout [symmetric] number_ends_def skip_ws_def is_ws_def is_digit_def
      less_eq_char_def)

lemma fetch_result_line:
  assumes "clean_result r"
  shows "fetch_result 200 (Inr (json_text (result_json r) @ [CHR 0x0A])) = Inr r"
  by (simp add: fetch_result_def unmarshal_def json_read_line [OF result_shape_json] result_decode [OF assms])

subsection \<open>From the command to the agent and back\<close>

lemma write_json_fresh:
  "rw_status (write_json 200 v fresh_writer) = Some 200"
  "rw_body (write_json 200 v fresh_writer) = json_text v @ [CHR 0x0A]"
  by (simp_all add: write_json_def write_bytes_def write_header_def set_header_def informational_def
      body_allowed_def fresh_writer_def)

lemma local_exchange_result:
  assumes "clean_fetch opts url" and "submit (fetch_submission opts url) ad = (Inr r, ad')"
    and "aq_method q = ''POST''" and "aq_body q = Some (json_text (fetch_payload opts url))"
    and "api_url ''/v1/requests'' (aq_url q)"
  shows "api_exchange redirect submit p (ad, h) q = Inr (200, Inr (json_text (result_json r) @ [CHR 0x0A]))"
  using handle_fetched [OF assms(1), of "inner_request (served_request q)" submit fresh_writer ad] assms
  by (simp add: exchange_requests write_json_fresh)

text \<open>
  C40. \<^verbatim>\<open>fetch\<close> against the local API. When the agent URL has no path of its own, what the options
  ask for goes through the \<^verbatim>\<open>ServeMux\<close> to \<^verbatim>\<open>/v1/requests\<close> and reaches the agent unchanged (method,
  URL, headers, body), and the result the agent gives is the one that is shown, field by field.
  The text of both has to be valid UTF-8, and each message to fit into the megabyte both sides
  read.
\<close>

theorem fetch_shows_result:
  assumes "parse_flags fetch_flags args default_fetch_options = Inr (opts, [url])"
    and "url_parse (trim_slashes (fo_agent opts) @ ''/v1/requests'') = Inr u" and "api_url ''/v1/requests'' u"
    and "clean_fetch opts url" and "submit (fetch_submission opts url) ad = (Inr r, ad')"
    and "clean_result r" and "length (json_text (result_json r)) < api_body_limit"
  shows "run_fetch (api_exchange redirect submit p (ad, h)) args = Inr (json_indent (result_json r) @ [CHR 0x0A])"
proof -
  let ?line = "json_text (result_json r) @ [CHR 0x0A]"
  from assms(7) have "take api_body_limit ?line = ?line" by simp
  moreover have "api_exchange redirect submit p (ad, h) q = Inr (200, Inr ?line)"
    if "aq_method q = ''POST''" "aq_body q = Some (json_text (fetch_payload opts url))" "api_url ''/v1/requests'' (aq_url q)" for q
    using that by (rule local_exchange_result [of opts url submit ad r ad' q, OF assms(4,5)])
  ultimately show ?thesis
    using fetch_result_line [OF assms(6)]
    by (simp add: run_fetch_def assms(1-3) local_request_def del: json_text.simps)
qed

end
