(* ===== verification/Go_Float.thy ===== *)
theory Go_Float
  imports Main "HOL-Library.Log_Nat" "HOL-Library.Word"
begin

text \<open>
  As much of Go's \<^verbatim>\<open>float64\<close> as the client computes with: sums, products and quotients of
  numbers that are not negative, rounded to the nearest double (ties to even). A positive double is a mantissa of 53
  bits and an exponent; zero has the mantissa 0. The numbers that occur lie far inside the range
  of normal doubles.
\<close>

record float64 =
  fl_mant :: int
  fl_exp :: int

definition float_zero :: float64 where "float_zero = \<lparr> fl_mant = 0, fl_exp = 0 \<rparr>"

text \<open>The integer nearest to \<open>p / q\<close>, the even one of two.\<close>

definition round_even :: "int \<Rightarrow> int \<Rightarrow> int" where
  "round_even p q =
     (let k = p div q; r = p mod q
      in if 2 * r < q then k else if q < 2 * r then k + 1 else if even k then k else k + 1)"

text \<open>\<open>p * 2^e / q\<close> as a fraction of integers.\<close>

definition scaled :: "int \<Rightarrow> int \<Rightarrow> int \<Rightarrow> int \<times> int" where
  "scaled p q e = (if 0 \<le> e then (p * 2 ^ nat e, q) else (p, q * 2 ^ nat (- e)))"

text \<open>The double nearest to \<open>p / q\<close>, for \<open>q > 0\<close> and \<open>p \<ge> 0\<close>.\<close>

definition float_of_ratio :: "int \<Rightarrow> int \<Rightarrow> float64" where
  "float_of_ratio p q =
     (if p \<le> 0 then float_zero
      else (let e = 53 - (bitlen p - bitlen q);
                (a, b) = scaled p q e;
                e = (if 2 ^ 53 * b \<le> a then e - 1 else e);
                (a, b) = scaled p q e
            in \<lparr> fl_mant = round_even a b, fl_exp = - e \<rparr>))"

text \<open>\<open>m1 * 2^e1 \<le> m2 * 2^e2\<close>\<close>

definition float_le :: "float64 \<Rightarrow> float64 \<Rightarrow> bool" where
  "float_le x y \<longleftrightarrow>
     (let d = fl_exp x - fl_exp y
      in if 0 \<le> d then fl_mant x * 2 ^ nat d \<le> fl_mant y else fl_mant x \<le> fl_mant y * 2 ^ nat (- d))"

text \<open>Value as a fraction.\<close>

definition float_frac :: "float64 \<Rightarrow> int \<times> int" where
  "float_frac x = scaled (fl_mant x) 1 (fl_exp x)"

definition float_of_int :: "int \<Rightarrow> float64" where
  "float_of_int n = float_of_ratio n 1"

definition float_div :: "float64 \<Rightarrow> float64 \<Rightarrow> float64" where
  "float_div x y =
     (case (float_frac x, float_frac y) of ((a, b), (c, d)) \<Rightarrow> float_of_ratio (a * d) (b * c))"

definition float_mult :: "float64 \<Rightarrow> float64 \<Rightarrow> float64" where
  "float_mult x y =
     (case (float_frac x, float_frac y) of ((a, b), (c, d)) \<Rightarrow> float_of_ratio (a * c) (b * d))"

definition float_add :: "float64 \<Rightarrow> float64 \<Rightarrow> float64" where
  "float_add x y =
     (case (float_frac x, float_frac y) of ((a, b), (c, d)) \<Rightarrow> float_of_ratio (a * d + c * b) (b * d))"

text \<open>\<^verbatim>\<open>int(x)\<close> of a non-negative double.\<close>

definition float_floor :: "float64 \<Rightarrow> int" where
  "float_floor x = (case float_frac x of (a, b) \<Rightarrow> a div b)"

subsection \<open>Rounding\<close>

text \<open>The rounded value is within half a unit, and rounding does not cross an integer.\<close>

lemma round_even_half:
  assumes "0 < q"
  shows "\<bar>2 * (q * round_even p q - p)\<bar> \<le> q"
proof -
  define k r where "k = p div q" and "r = p mod q"
  then have p: "p = q * k + r" "0 \<le> r" "r < q" using assms by simp_all
  have "round_even p q = (if 2 * r < q then k else if q < 2 * r then k + 1 else if even k then k else k + 1)"
    by (simp add: round_even_def Let_def k_def r_def)
  then have "q * round_even p q - p = - r \<and> 2 * r \<le> q \<or> q * round_even p q - p = q - r \<and> q \<le> 2 * r"
    by (auto simp: p(1) algebra_simps)
  with p(2,3) show ?thesis by (elim disjE conjE) (simp_all only: abs_if, auto)
qed

lemma round_even_ge:
  assumes "0 < q" and "k * q \<le> p"
  shows "k \<le> round_even p q"
proof -
  have "k \<le> p div q" using assms by (metis nonzero_mult_div_cancel_right less_irrefl zdiv_mono1)
  then show ?thesis unfolding round_even_def Let_def by auto
qed

text \<open>A quotient below \<open>2^48\<close>, whose exponent is negative: the integer part of its double.\<close>

lemma ratio_exponent:
  assumes "0 < p" and "0 < q" and "p < 2 ^ 48 * q"
  shows "\<exists>e. 4 \<le> e \<and> float_of_ratio p q = \<lparr> fl_mant = round_even (p * 2 ^ nat e) q, fl_exp = - e \<rparr>"
proof -
  let ?e = "53 - (bitlen p - bitlen q)"
  have "bitlen p \<le> bitlen q + 48"
  proof -
    have "2 ^ nat (bitlen p - 1) \<le> p" using bitlen_bounds [OF assms(1)] by simp
    also have "p < 2 ^ 48 * q" by (rule assms(3))
    also have "\<dots> < 2 ^ 48 * 2 ^ nat (bitlen q)" using bitlen_bounds [OF assms(2)] by simp
    finally have "(2 :: int) ^ nat (bitlen p - 1) < 2 ^ (48 + nat (bitlen q))" by (simp add: power_add)
    then have "nat (bitlen p - 1) < 48 + nat (bitlen q)" by simp
    then show ?thesis using bitlen_nonneg [of q] by linarith
  qed
  then have e: "5 \<le> ?e" by simp
  then have sc: "scaled p q ?e = (p * 2 ^ nat ?e, q)" "scaled p q (?e - 1) = (p * 2 ^ nat (?e - 1), q)"
    by (simp_all add: scaled_def)
  show ?thesis
  proof (cases "2 ^ 53 * q \<le> p * 2 ^ nat ?e")
    case True
    with e sc assms(1) show ?thesis by (intro exI [of _ "?e - 1"]) (simp add: float_of_ratio_def Let_def)
  next
    case False
    with e sc assms(1) show ?thesis by (intro exI [of _ ?e]) (simp add: float_of_ratio_def Let_def)
  qed
qed

lemma ratio_floor:
  assumes "0 < p" and "0 < q" and "p < 2 ^ 48 * q" and "m * q \<le> p" and "32 * p + q < 32 * (m + 1) * q"
  shows "float_floor (float_of_ratio p q) = m"
proof -
  obtain e where e: "4 \<le> e" "float_of_ratio p q = \<lparr> fl_mant = round_even (p * 2 ^ nat e) q, fl_exp = - e \<rparr>"
    using ratio_exponent [OF assms(1,2,3)] by blast
  let ?a = "round_even (p * 2 ^ nat e) q" and ?t = "2 ^ nat e :: int"
  have t: "16 \<le> ?t" using power_increasing [of 4 "nat e" "2 :: int"] e(1) by simp
  have lo: "m * ?t \<le> ?a"
    by (rule round_even_ge [OF assms(2)]) (use mult_right_mono [OF assms(4), of ?t] in \<open>simp add: algebra_simps\<close>)
  have "2 * q * ?a \<le> 2 * (p * ?t) + q" using round_even_half [OF assms(2), of "p * ?t"] by (simp add: abs_le_iff algebra_simps)
  also have "\<dots> < 2 * ((m + 1) * ?t * q)"
  proof -
    have "(32 * p + q) * ?t < 32 * (m + 1) * q * ?t" using assms(5) t by simp
    moreover have "16 * q \<le> q * ?t" using assms(2) t by simp
    ultimately show ?thesis by (simp add: algebra_simps)
  qed
  finally have "q * ?a < q * ((m + 1) * ?t)" by (simp add: algebra_simps)
  then have "?a < (m + 1) * ?t" using assms(2) by simp
  with lo have "?a div ?t = m" by (intro int_div_pos_eq [of _ _ _ "?a - ?t * m"]) (simp_all add: algebra_simps)
  with e show ?thesis by (simp add: float_floor_def float_frac_def scaled_def)
qed

lemma float_of_int_frac:
  assumes "0 < n" and "n < 2 ^ 48"
  shows "\<exists>k. float_frac (float_of_int n) = (n * 2 ^ k, 2 ^ k)"
proof -
  obtain e where e: "4 \<le> e" "float_of_ratio n 1 = \<lparr> fl_mant = round_even (n * 2 ^ nat e) 1, fl_exp = - e \<rparr>"
    using ratio_exponent [of n 1] assms by auto
  have "round_even x 1 = x" for x by (simp add: round_even_def)
  with e show ?thesis by (auto simp: float_of_int_def float_frac_def scaled_def)
qed

text \<open>\<^verbatim>\<open>int(float64(n) * 0.8)\<close> is the exact four fifths, rounded down, although 0.8 is no double.\<close>

lemma four_fifths:
  assumes "0 \<le> n" and "n < 2 ^ 48"
  shows "float_floor (float_mult (float_of_int n) (float_of_ratio 8 10)) = 4 * n div 5"
proof (cases "n = 0")
  case True
  have "float_floor (float_mult (float_of_int 0) (float_of_ratio 8 10)) = 0" by code_simp
  with True show ?thesis by simp
next
  case False
  with assms obtain k where k: "float_frac (float_of_int n) = (n * 2 ^ k, 2 ^ k)" using float_of_int_frac [of n] by auto
  have "float_frac (float_of_ratio 8 10) = (7205759403792794, 9007199254740992)" by code_simp
  with k have m: "float_mult (float_of_int n) (float_of_ratio 8 10) =
      float_of_ratio (n * 2 ^ k * 7205759403792794) (2 ^ k * 9007199254740992)"
    by (simp add: float_mult_def)
  have q: "5 * (4 * n div 5) \<le> 4 * n" "4 * n < 5 * (4 * n div 5) + 5" by linarith+
  have up: "32 * (n * 7205759403792794) + 9007199254740992 < 32 * (4 * n div 5 + 1) * 9007199254740992"
  proof -
    have "n < 281474976710656" using assms(2) by simp
    with q(2) show ?thesis by (simp add: algebra_simps)
  qed
  have lo: "(4 * n div 5) * 9007199254740992 \<le> n * 7205759403792794" using q(1) False assms(1) by linarith
  have t: "0 < (2 :: int) ^ k" by simp
  show ?thesis
    unfolding m
  proof (rule ratio_floor)
    show "0 < n * 2 ^ k * 7205759403792794" using False assms(1) by simp
    show "n * 2 ^ k * 7205759403792794 < 2 ^ 48 * (2 ^ k * 9007199254740992)"
      using assms mult_strict_right_mono [OF assms(2), of "2 ^ k * 7205759403792794"] t by (simp add: algebra_simps)
    show "4 * n div 5 * (2 ^ k * 9007199254740992) \<le> n * 2 ^ k * 7205759403792794"
      using mult_right_mono [OF lo, of "2 ^ k"] by (simp add: algebra_simps)
    show "32 * (n * 2 ^ k * 7205759403792794) + 2 ^ k * 9007199254740992
        < 32 * (4 * n div 5 + 1) * (2 ^ k * 9007199254740992)"
      using mult_strict_right_mono [OF up t] by (simp add: algebra_simps)
  qed simp
qed

end
