(* ===== verification/Cli_Status.thy ===== *)
theory Cli_Status
  imports Cli_Fetch Go_Float
begin

text \<open>
  \<^verbatim>\<open>actionrelay status\<close> (\<^verbatim>\<open>client/cmd/actionrelay/main.go\<close>): what it collects from the route state,
  the configuration, the platform and the running agent, and its two assessments,
  \<^verbatim>\<open>buildDiagnostics\<close> and \<^verbatim>\<open>buildSupportability\<close>. The command returns the record it prints; the
  printing of that record as JSON is left out, since it prints a \<^verbatim>\<open>float64\<close>.
\<close>

subsection \<open>Data\<close>

record status_agent =
  ta_url :: string
  ta_reachable :: bool
  ta_latency_ms :: int
  ta_error :: string
  ta_runtime :: "snapshot option"

record diagnostics =
  dg_severity :: string
  dg_issues :: "string list"

record supportability =
  su_health_class :: string
  su_uptime_seconds :: int
  su_failure_ratio :: float64
  su_recent_error_code :: string
  su_needs_attention :: bool
  su_recommended_action :: "string list"

record status_policy =
  tp_github_server_only :: bool
  tp_github_domain_only :: bool
  tp_reliability_mode :: string
  tp_proxy_enabled :: bool
  tp_proxy_listen_addr :: string
  tp_agent_listen_addr :: string
  tp_bypass_entries :: "string list"
  tp_proxy_platform_supported :: bool

record status_output =
  to_timestamp :: string
  to_route_state_path :: string
  to_route :: route_state
  to_agent :: status_agent
  to_policy :: status_policy
  to_diagnostics :: diagnostics
  to_supportability :: supportability

record agent_status_response =
  tr_ok :: bool
  tr_route :: "route_state option"
  tr_runtime :: snapshot

subsection \<open>Diagnostics\<close>

definition severity_order :: "string \<Rightarrow> int" where
  "severity_order s =
     (case map_of [(''ok'', 0), (''warning'', 1), (''critical'', 2)] s of Some n \<Rightarrow> n | None \<Rightarrow> 0)"

definition max_severity :: "string \<Rightarrow> string \<Rightarrow> string" where
  "max_severity current next = (if severity_order next > severity_order current then next else current)"

text \<open>\<^verbatim>\<open>int(float64(capacity) * 0.8)\<close>, which rounds towards zero.\<close>

definition queue_limit :: "int \<Rightarrow> int" where
  "queue_limit capacity =
     (let part = float_floor (float_mult (float_of_int \<bar>capacity\<bar>) (float_of_ratio 8 10))
      in if capacity < 0 then - part else part)"

text \<open>\<^verbatim>\<open>time.Parse(time.RFC3339, s)\<close> succeeds and is more than \<open>d\<close> ago.\<close>

definition older_than :: "duration \<Rightarrow> string \<Rightarrow> time \<Rightarrow> bool" where
  "older_than d s now \<longleftrightarrow> (case parse_rfc3339 s of None \<Rightarrow> False | Some t \<Rightarrow> time_sub now t > d)"

definition add_issue :: "string \<Rightarrow> string \<Rightarrow> bool \<Rightarrow> string \<times> string list \<Rightarrow> string \<times> string list" where
  "add_issue level name found si =
     (case si of (severity, issues) \<Rightarrow>
        if found then (max_severity severity level, issues @ [name]) else (severity, issues))"

definition runtime_issues :: "snapshot \<Rightarrow> time \<Rightarrow> string \<times> string list \<Rightarrow> string \<times> string list" where
  "runtime_issues rt now si =
     (let si = add_issue ''warning'' ''batch_latency_high'' (sn_last_batch_latency_ms rt > 120000) si;
          si = add_issue ''warning'' ''backpressure_active'' (sn_backpressure_active rt) si;
          si = add_issue ''warning'' ''queue_pressure_high'' (sn_queue_depth rt > queue_limit (sn_queue_capacity rt)) si;
          si = add_issue ''warning'' (''last_dispatch_error:'' @ sn_last_dispatch_error_code rt)
                 (sn_last_dispatch_error_code rt \<noteq> []) si;
          si = add_issue ''critical'' ''dispatch_inflight_stuck''
                 (sn_dispatch_in_flight rt \<and> sn_last_batch_sent_at rt \<noteq> [] \<and>
                  older_than (2 * minute) (sn_last_batch_sent_at rt) now) si
      in add_issue ''warning'' ''error_rate_elevated''
           (sn_total_failed rt > sn_total_completed rt \<and> sn_total_failed rt > 10) si)"

definition build_diagnostics :: "status_output \<Rightarrow> time \<Rightarrow> diagnostics" where
  "build_diagnostics out now =
     (let si = (if \<not> ta_reachable (to_agent out) then (''critical'', [''agent_unreachable'']) else (''ok'', []));
          si = (case ta_runtime (to_agent out) of None \<Rightarrow> si | Some rt \<Rightarrow> runtime_issues rt now si)
      in case si of (severity, issues) \<Rightarrow> \<lparr> dg_severity = severity, dg_issues = issues \<rparr>)"

subsection \<open>Supportability\<close>

definition healthy :: supportability where
  "healthy = \<lparr> su_health_class = ''healthy'', su_uptime_seconds = 0, su_failure_ratio = float_zero,
     su_recent_error_code = [], su_needs_attention = False, su_recommended_action = [] \<rparr>"

text \<open>\<^verbatim>\<open>int64(d.Seconds())\<close> for \<open>d > 0\<close>\<close>

definition whole_seconds :: "duration \<Rightarrow> int" where
  "whole_seconds d =
     float_floor (float_add (float_of_int (go_quot d second))
       (float_div (float_of_int (d - go_quot d second * second)) (float_of_int second)))"

definition uptime_seconds :: "snapshot \<Rightarrow> time \<Rightarrow> int" where
  "uptime_seconds rt now =
     (if sn_started_at rt = [] then 0
      else (case parse_rfc3339 (sn_started_at rt) of
          None \<Rightarrow> 0 | Some t \<Rightarrow> if now > t then whole_seconds (time_sub now t) else 0))"

definition failure_ratio :: "snapshot \<Rightarrow> float64" where
  "failure_ratio rt =
     (let total = sn_total_completed rt + sn_total_failed rt
      in if total > 0 then float_div (float_of_int (uint (sn_total_failed rt))) (float_of_int (uint total))
         else float_zero)"

definition degrade :: "supportability \<Rightarrow> supportability" where
  "degrade su = (if su_health_class su = ''healthy'' then su\<lparr> su_health_class := ''degraded'' \<rparr> else su)"

definition advise :: "string list \<Rightarrow> supportability \<Rightarrow> supportability" where
  "advise actions su = su\<lparr> su_needs_attention := True,
     su_recommended_action := su_recommended_action su @ actions \<rparr>"

definition assess :: "bool \<Rightarrow> snapshot \<Rightarrow> time \<Rightarrow> supportability" where
  "assess reach rt now =
     (let su = healthy\<lparr> su_uptime_seconds := uptime_seconds rt now, su_failure_ratio := failure_ratio rt,
                        su_recent_error_code := sn_last_dispatch_error_code rt \<rparr>;
          su = (if \<not> reach
                then advise [''check_serve_process'', ''verify_agent_listen_addr''] (su\<lparr> su_health_class := ''unhealthy'' \<rparr>)
                else su);
          su = (if sn_last_dispatch_error_code rt \<noteq> []
                then degrade (advise [''verify_github_token_and_workflow_access''] su) else su);
          su = (if sn_last_result_at rt \<noteq> [] \<and> older_than (15 * minute) (sn_last_result_at rt) now
                then degrade (advise [''run_fetch_smoke_test''] su) else su);
          su = (if sn_total_failed rt \<ge> 20 \<and> float_le (float_of_ratio 30 100) (su_failure_ratio su)
                then (advise [''inspect_recovery_guide_and_recent_errors''] su)\<lparr> su_health_class := ''unhealthy'' \<rparr>
                else su)
      in if su_recommended_action su = []
         then su\<lparr> su_recommended_action := [''continue_normal_operation''] \<rparr> else su)"

definition build_supportability :: "status_output \<Rightarrow> time \<Rightarrow> supportability" where
  "build_supportability out now =
     (case ta_runtime (to_agent out) of
        None \<Rightarrow> healthy\<lparr> su_health_class := ''degraded'', su_needs_attention := True,
          su_recommended_action := [''start_or_restart_service'', ''run_actionrelay_status_again''] \<rparr>
      | Some rt \<Rightarrow> assess (ta_reachable (to_agent out)) rt now)"

subsection \<open>Asking the agent\<close>

definition zero_snapshot :: snapshot where
  "zero_snapshot = \<lparr> sn_started_at = [], sn_queue_capacity = 0, sn_queue_depth = 0,
     sn_pending_in_batch_buffer = 0, sn_dispatch_in_flight = False, sn_last_batch_id = [],
     sn_last_batch_sent_at = [], sn_last_batch_request_count = 0, sn_last_dispatch_error = [],
     sn_last_dispatch_error_code = [], sn_last_dispatch_error_at = [], sn_last_result_at = [],
     sn_last_batch_completed_at = [], sn_last_batch_latency_ms = 0, sn_total_submitted = 0,
     sn_total_local_rejected = 0, sn_total_dispatched_batches = 0, sn_total_dispatched_requests = 0,
     sn_total_completed = 0, sn_total_failed = 0, sn_cache_enabled = False, sn_cache_ttl_ms = 0,
     sn_cache_entries = 0, sn_cache_max_entries = 0, sn_total_cache_hits = 0, sn_total_deduplicated = 0,
     sn_total_fail_open_served = 0, sn_backpressure_active = False, sn_backpressure_until = [],
     sn_backpressure_reason = [] \<rparr>"

definition status_members :: "agent_status_response member list" where
  "status_members =
     [read_member ''ok'' tr_ok tr_ok_update dec_bool,
      read_member ''route'' tr_route tr_route_update
        (dec_pointer zero_route_state (dec_struct False route_members)),
      read_member ''runtime'' tr_runtime tr_runtime_update (dec_struct False snapshot_members)]"

definition fetch_agent_status ::
  "(api_request \<Rightarrow> (int \<times> string res) res) \<Rightarrow> string \<Rightarrow> host \<Rightarrow> (agent_status_response \<times> int) io" where
  "fetch_agent_status send agent_url h =
     (case local_request ''GET'' (trim_slashes agent_url @ ''/v1/status'') [] None of
        Inl e \<Rightarrow> (Inl e, h)
      | Inr q \<Rightarrow>
          (case host_now h of (start, h) \<Rightarrow>
            (case send q of
               Inl e \<Rightarrow> (Inl e, h)
             | Inr (status, Inl e) \<Rightarrow> (Inl e, h)
             | Inr (status, Inr body) \<Rightarrow>
                 (let body = take api_body_limit body in
                  if status \<noteq> 200
                  then (Inl (Err (''agent returned status '' @ itoa status @ '': '' @ trim_space body)), h)
                  else (case unmarshal (dec_struct False status_members) body
                            \<lparr> tr_ok = False, tr_route = None, tr_runtime = zero_snapshot \<rparr> of
                      Inl e \<Rightarrow> (Inl e, h)
                    | Inr decoded \<Rightarrow>
                        (case host_now h of (now, h) \<Rightarrow>
                          (Inr (decoded, go_quot (time_sub now start) millisecond), h)))))))"

subsection \<open>The command\<close>

record status_options =
  uo_config :: string
  uo_agent :: string

definition status_flags :: "status_options flag list" where
  "status_flags = [string_flag ''config'' uo_config_update, string_flag ''agent'' uo_agent_update]"

definition resolve_agent_url :: "status_options \<Rightarrow> host \<Rightarrow> string io" where
  "resolve_agent_url opts h =
     (if uo_agent opts \<noteq> [] then (Inr (uo_agent opts), h)
      else (case config_load (uo_config opts) h of
          (Inr c, h) \<Rightarrow> (Inr (''http://'' @ cf_agent_listen_addr c), h)
        | (Inl e, h) \<Rightarrow> if is_not_exist e then (Inr default_agent_url, h) else (Inl e, h)))"

definition base_policy :: status_policy where
  "base_policy = \<lparr> tp_github_server_only = True, tp_github_domain_only = True, tp_reliability_mode = [],
     tp_proxy_enabled = False, tp_proxy_listen_addr = [], tp_agent_listen_addr = [],
     tp_bypass_entries = [], tp_proxy_platform_supported = False \<rparr>"

definition configured_policy :: "string \<Rightarrow> host \<Rightarrow> status_policy \<times> host" where
  "configured_policy p h =
     (case config_load p h of
        (Inl e, h) \<Rightarrow> (base_policy, h)
      | (Inr c, h) \<Rightarrow>
          (case platform_status h of (st, h) \<Rightarrow>
            (base_policy\<lparr> tp_reliability_mode := cf_reliability_mode c, tp_proxy_enabled := cf_proxy_enabled c,
               tp_proxy_listen_addr := cf_proxy_listen_addr c, tp_agent_listen_addr := cf_agent_listen_addr c,
               tp_bypass_entries := st_bypass_entries st, tp_proxy_platform_supported := st_supported st \<rparr>, h)))"

definition with_agent :: "(agent_status_response \<times> int) res \<Rightarrow> status_output \<Rightarrow> status_output" where
  "with_agent r out =
     (let a = to_agent out in
      case r of
        Inl e \<Rightarrow> out\<lparr> to_agent := a\<lparr> ta_reachable := False, ta_error := err_text e \<rparr> \<rparr>
      | Inr (resp, latency) \<Rightarrow>
          (let out = out\<lparr> to_agent := a\<lparr> ta_reachable := True, ta_latency_ms := latency,
                                         ta_runtime := Some (tr_runtime resp) \<rparr> \<rparr>
           in case tr_route resp of None \<Rightarrow> out | Some s \<Rightarrow> out\<lparr> to_route := s \<rparr>))"

definition run_status :: "(api_request \<Rightarrow> (int \<times> string res) res) \<Rightarrow> string list \<Rightarrow> host \<Rightarrow> status_output io" where
  "run_status send args h =
     and_then (parse_flags status_flags args \<lparr> uo_config = default_config_path, uo_agent = [] \<rparr>, h)
       (\<lambda>(opts, rest) h.
     if rest \<noteq> [] then (Inl (Err ''status does not accept positional arguments''), h)
     else and_then (resolve_agent_url opts h) (\<lambda>url h.
     and_then (route_state_path (uo_config opts) h, h) (\<lambda>p h.
     and_then (route_load_or_default p h) (\<lambda>s h.
     case route_stamp h of (now, h) \<Rightarrow>
     (case configured_policy (uo_config opts) h of (policy, h) \<Rightarrow>
     (case fetch_agent_status send url h of (r, h) \<Rightarrow>
     (let out = with_agent r
            \<lparr> to_timestamp = now, to_route_state_path = p, to_route = s,
              to_agent = \<lparr> ta_url = url, ta_reachable = False, ta_latency_ms = 0, ta_error = [], ta_runtime = None \<rparr>,
              to_policy = policy, to_diagnostics = \<lparr> dg_severity = [], dg_issues = [] \<rparr>,
              to_supportability = healthy\<lparr> su_health_class := [] \<rparr> \<rparr>
      in case host_now h of (t1, h) \<Rightarrow>
           (let out = out\<lparr> to_diagnostics := build_diagnostics out t1 \<rparr> in
            case host_now h of (t2, h) \<Rightarrow> (Inr (out\<lparr> to_supportability := build_supportability out t2 \<rparr>), h)))))))))"

end
