(* ===== verification/Cli_Report.thy ===== *)
theory Cli_Report
  imports Cli_Local Cli_Status
begin

text \<open>
  \<^verbatim>\<open>status\<close> and \<^verbatim>\<open>/v1/status\<close> together: the snapshot of the agent and the route state that the handler
  prints are the ones the command reads.
\<close>

definition clean_snapshot :: "snapshot \<Rightarrow> bool" where
  "clean_snapshot n \<longleftrightarrow>
     list_all clean_text
       [sn_started_at n, sn_last_batch_id n, sn_last_batch_sent_at n, sn_last_dispatch_error n,
        sn_last_dispatch_error_code n, sn_last_dispatch_error_at n, sn_last_result_at n,
        sn_last_batch_completed_at n, sn_backpressure_until n, sn_backpressure_reason n] \<and>
     list_all int64
       [sn_queue_capacity n, sn_queue_depth n, sn_pending_in_batch_buffer n, sn_last_batch_request_count n,
        sn_last_batch_latency_ms n, sn_cache_ttl_ms n, sn_cache_entries n, sn_cache_max_entries n]"

lemma in_field_uint [simp]: "in_field get upd dec_uint (JNum (uint (w :: 64 word))) r = Some (upd (\<lambda>_. w) r)"
  using uint_lt2p [of w] by (simp add: in_field_def)

text \<open>One member at a time; a member that \<^verbatim>\<open>omitempty\<close> drops leaves a zero value as it is.\<close>

lemma apply_opt_str:
  "utf8_fix (get r) = get r \<Longrightarrow> upd (\<lambda>_. []) r0 = r0 \<Longrightarrow>
     apply_members (opt_str_member n get upd # ms) r r0 = apply_members ms r (upd (\<lambda>_. get r) r0)"
  by (auto simp: opt_str_member_def)

lemma apply_plain:
  "utf8_fix (gets r) = gets r \<Longrightarrow>
     apply_members (str_member n gets upds # ms) r r0 = apply_members ms r (upds (\<lambda>_. gets r) r0)"
  "- (2 ^ 63) \<le> geti r \<Longrightarrow> geti r < 2 ^ 63 \<Longrightarrow>
     apply_members (int_member n geti updi # ms) r r0 = apply_members ms r (updi (\<lambda>_. geti r) r0)"
  "apply_members (bool_member n getb updb # ms) r r0 = apply_members ms r (updb (\<lambda>_. getb r) r0)"
  "apply_members (uint_member n getw updw # ms) r r0 = apply_members ms r (updw (\<lambda>_. getw r) r0)"
  by (simp_all add: member_defs uint_member_def)

interpretation snapshot_value: struct_file snapshot_members zero_snapshot clean_snapshot
proof
  show "distinct (map fst snapshot_members)" "list_all (\<lambda>(n, e, d). list_all is_ascii n) snapshot_members"
    unfolding snapshot_members_def member_defs uint_member_def by code_simp+
  show "list_all (\<lambda>(k, j). no_frac j \<and> json_depth j = 0) (marshal_members snapshot_members n)" for n
    by (simp add: marshal_members_def snapshot_members_def member_defs uint_member_def List.map_filter_simps)
  show "apply_members snapshot_members n zero_snapshot = Some n" if "clean_snapshot n" for n
    using that
    by (simp add: snapshot_members_def apply_opt_str apply_plain clean_snapshot_def zero_snapshot_def
        clean_text_def int64_def)
qed

interpretation route_value: struct_file route_members zero_route_state route_text_ok
proof
  show "distinct (map fst route_members)" "list_all (\<lambda>(n, e, d). list_all is_ascii n) route_members"
    by (rule route_names)+
  show "list_all (\<lambda>(k, j). no_frac j \<and> json_depth j = 0) (marshal_members route_members s)" for s
    by (rule route_flat)
  show "apply_members route_members s zero_route_state = Some s" if "route_text_ok s" for s
    using that by (simp add: route_members_def member_defs route_text_ok_def zero_route_state_def)
qed

text \<open>What the handler prints for a snapshot and a route state.\<close>

definition status_json :: "snapshot \<Rightarrow> route_state \<Rightarrow> json" where
  "status_json n s = JObj [(''ok'', JBool True), (''route'', route_json s), (''runtime'', marshal_struct snapshot_members n)]"

lemma status_names [simp]:
  "utf8_fix ''ok'' = ''ok''" "utf8_fix ''route'' = ''route''" "utf8_fix ''runtime'' = ''runtime''"
  by (rule utf8_fix_ascii, code_simp)+

lemma route_pointer [simp]:
  "dec_pointer z d (json_fix (route_json s)) None = map_option Some (d (json_fix (route_json s)) z)"
  by (simp add: route_json_def marshal_struct_def)

lemma status_decode:
  assumes "clean_snapshot n" and "route_text_ok s"
  shows "dec_struct False status_members (json_fix (status_json n s))
      \<lparr> tr_ok = False, tr_route = None, tr_runtime = zero_snapshot \<rparr> =
    Some \<lparr> tr_ok = True, tr_route = Some s, tr_runtime = n \<rparr>"
  using snapshot_value.decode_value [OF assms(1)] route_value.decode_value [OF assms(2), folded route_json_def]
  by (simp add: status_json_def status_members_def member_for_def read_member_def in_field_def)

lemma status_shape: "no_frac (status_json n s)" "json_depth (status_json n s) \<le> json_max_depth"
  using snapshot_value.json_shape [of n] route_value.json_shape [of s]
  by (simp_all add: status_json_def route_json_def json_max_depth_def)

subsection \<open>From the agent to the command\<close>

text \<open>
  The command gets the snapshot the agent takes and the route state of the server, whatever the
  command found in its own files.
\<close>

lemma status_reaches_client:
  assumes "url_parse (trim_slashes url @ ''/v1/status'') = Inr u" and "api_url ''/v1/status'' u"
    and "fst (route_load_or_default p hs) = Inr s" and "route_text_ok s"
    and "fst (take_snapshot a) = n" and "clean_snapshot n"
    and "length (json_text (status_json n s)) < api_body_limit"
  shows "\<exists>latency h'. fetch_agent_status (api_exchange redirect submit p ((a, d), hs)) url h =
    (Inr (\<lparr> tr_ok = True, tr_route = Some s, tr_runtime = n \<rparr>, latency), h')"
proof -
  let ?line = "json_text (status_json n s) @ [CHR 0x0A]"
  obtain hs' a' where l: "route_load_or_default p hs = (Inr s, hs')" "take_snapshot a = (n, a')"
    using assms(3,5) by (metis prod.collapse)
  have x: "api_exchange redirect submit p ((a, d), hs) q = Inr (200, Inr ?line)"
    if "aq_method q = ''GET''" "api_url ''/v1/status'' (aq_url q)" for q
    using that write_json_fresh [of "status_json n s"]
    by (simp add: exchange_status handle_status_def l status_json_def)
  from assms(7) have t: "take api_body_limit ?line = ?line" by simp
  have "unmarshal (dec_struct False status_members) ?line \<lparr> tr_ok = False, tr_route = None, tr_runtime = zero_snapshot \<rparr> =
      Inr \<lparr> tr_ok = True, tr_route = Some s, tr_runtime = n \<rparr>"
    unfolding unmarshal_def json_read_line [OF status_shape] by (simp add: status_decode [OF assms(6,4)])
  with x t show ?thesis
    by (simp add: fetch_agent_status_def local_request_def assms(1,2) host_now_def Let_def)
qed

end
