(* ===== verification/Cli_Diagnosis.thy ===== *)
theory Cli_Diagnosis
  imports Cli_Status
begin

text \<open>
  What \<^verbatim>\<open>buildDiagnostics\<close> promises: a table of conditions, each with its severity and its issue;
  the issues are those whose condition holds, in the order of the table, and the severity is the
  worst of theirs.
\<close>

subsection \<open>Severities\<close>

datatype severity = Sev_ok | Sev_warning | Sev_critical

fun severity_text :: "severity \<Rightarrow> string" where
  "severity_text Sev_ok = ''ok''"
| "severity_text Sev_warning = ''warning''"
| "severity_text Sev_critical = ''critical''"

fun severity_rank :: "severity \<Rightarrow> nat" where
  "severity_rank Sev_ok = 0"
| "severity_rank Sev_warning = 1"
| "severity_rank Sev_critical = 2"

lemma severity_rank_inj: "severity_rank a = severity_rank b \<Longrightarrow> a = b"
  by (cases a; cases b) auto

instantiation severity :: linorder
begin

definition less_eq_severity :: "severity \<Rightarrow> severity \<Rightarrow> bool" where
  "less_eq_severity a b \<longleftrightarrow> severity_rank a \<le> severity_rank b"

definition less_severity :: "severity \<Rightarrow> severity \<Rightarrow> bool" where
  "less_severity a b \<longleftrightarrow> severity_rank a < severity_rank b"

instance
  by standard (auto simp: less_eq_severity_def less_severity_def intro: severity_rank_inj)

end

instantiation severity :: order_bot
begin

definition bot_severity :: severity where "bot_severity = Sev_ok"

instance
  by standard (simp add: bot_severity_def less_eq_severity_def)

end

lemma severity_order_text: "severity_order (severity_text a) = int (severity_rank a)"
  by (cases a) (simp_all add: severity_order_def)

text \<open>\<^verbatim>\<open>maxSeverity\<close> on the texts is the maximum of the order.\<close>

lemma max_severity_text: "max_severity (severity_text a) (severity_text b) = severity_text (max a b)"
  by (auto simp: max_severity_def severity_order_text max_def less_eq_severity_def not_le
      dest: le_neq_implies_less severity_rank_inj)

lemma severity_text_inj: "severity_text a = severity_text b \<longleftrightarrow> a = b"
  by (cases a; cases b) simp_all

subsection \<open>The table\<close>

definition runtime_rules :: "snapshot \<Rightarrow> time \<Rightarrow> (severity \<times> string \<times> bool) list" where
  "runtime_rules rt now =
     [(Sev_warning, ''batch_latency_high'', sn_last_batch_latency_ms rt > 120000),
      (Sev_warning, ''backpressure_active'', sn_backpressure_active rt),
      (Sev_warning, ''queue_pressure_high'', sn_queue_depth rt > queue_limit (sn_queue_capacity rt)),
      (Sev_warning, ''last_dispatch_error:'' @ sn_last_dispatch_error_code rt, sn_last_dispatch_error_code rt \<noteq> []),
      (Sev_critical, ''dispatch_inflight_stuck'',
        sn_dispatch_in_flight rt \<and> sn_last_batch_sent_at rt \<noteq> [] \<and>
        older_than (2 * minute) (sn_last_batch_sent_at rt) now),
      (Sev_warning, ''error_rate_elevated'',
        sn_total_failed rt > sn_total_completed rt \<and> sn_total_failed rt > 10)]"

definition diagnostic_rules :: "status_output \<Rightarrow> time \<Rightarrow> (severity \<times> string \<times> bool) list" where
  "diagnostic_rules out now =
     (Sev_critical, ''agent_unreachable'', \<not> ta_reachable (to_agent out)) #
     (case ta_runtime (to_agent out) of None \<Rightarrow> [] | Some rt \<Rightarrow> runtime_rules rt now)"

definition found :: "(severity \<times> string \<times> bool) list \<Rightarrow> (severity \<times> string) list" where
  "found rules = List.map_filter (\<lambda>(s, n, c). if c then Some (s, n) else None) rules"

lemma found_simps [simp]:
  "found [] = []"
  "found ((s, n, c) # rules) = (if c then (s, n) # found rules else found rules)"
  by (simp_all add: found_def List.map_filter_simps)

subsection \<open>The code works off the table\<close>

fun add_rules :: "(severity \<times> string \<times> bool) list \<Rightarrow> string \<times> string list \<Rightarrow> string \<times> string list" where
  "add_rules [] si = si"
| "add_rules ((s, n, c) # rules) si = add_rules rules (add_issue (severity_text s) n c si)"

lemma add_rules_found:
  "add_rules rules (severity_text a, is) =
     (severity_text (foldl max a (map fst (found rules))), is @ map snd (found rules))"
  by (induction rules arbitrary: a "is") (auto simp: add_issue_def max_severity_text)

lemma runtime_issues_rules: "runtime_issues rt now si = add_rules (runtime_rules rt now) si"
  by (simp add: runtime_issues_def runtime_rules_def Let_def)

lemma build_diagnostics_rules:
  "build_diagnostics out now =
     (case add_rules (diagnostic_rules out now) (severity_text Sev_ok, []) of
        (s, is) \<Rightarrow> \<lparr> dg_severity = s, dg_issues = is \<rparr>)"
proof -
  have "add_issue (severity_text Sev_critical) n c (severity_text Sev_ok, []) =
    (if c then (''critical'', [n]) else (''ok'', []))" for n c
    by (simp add: add_issue_def max_severity_def severity_order_def)
  then show ?thesis
    by (auto simp: build_diagnostics_def diagnostic_rules_def runtime_issues_rules split: option.split)
qed

lemma foldl_max: "foldl max (a :: severity) xs = Max (insert a (set xs))"
proof (induction xs arbitrary: a)
  case Nil
  then show ?case by simp
next
  case (Cons x xs)
  then show ?case by (cases "xs = []") (simp_all add: max.assoc Max.insert_remove insert_commute)
qed

lemma severity_bot: "Max (insert Sev_ok A) = Sev_ok \<longleftrightarrow> A \<subseteq> {Sev_ok}"
proof -
  have "finite A" by (rule finite_subset [of _ "{Sev_ok, Sev_warning, Sev_critical}"]) (use severity.exhaust in auto)
  moreover have "x \<le> Sev_ok \<longleftrightarrow> x = Sev_ok" for x by (cases x) (simp_all add: less_eq_severity_def)
  ultimately show ?thesis by (auto simp: Max_eq_iff)
qed

lemma no_ok_rules: "Sev_ok \<notin> fst ` set (found (diagnostic_rules out now))"
  by (auto simp: diagnostic_rules_def runtime_rules_def split: option.splits if_splits)

text \<open>
  C39. \<^verbatim>\<open>buildDiagnostics\<close> is the table \<open>diagnostic_rules\<close>: the issues are those of the rules whose
  condition holds, in the order of the table, the severity is the greatest severity of them in
  the order ok, warning, critical, and it is ok exactly when there is no issue.
\<close>

theorem diagnostics_grade:
  "build_diagnostics out now =
     \<lparr> dg_severity = severity_text (Max (insert Sev_ok (fst ` set (found (diagnostic_rules out now))))),
       dg_issues = map snd (found (diagnostic_rules out now)) \<rparr> \<and>
   (dg_severity (build_diagnostics out now) = ''ok'' \<longleftrightarrow> dg_issues (build_diagnostics out now) = [])"
proof -
  have b: "build_diagnostics out now =
     \<lparr> dg_severity = severity_text (Max (insert Sev_ok (fst ` set (found (diagnostic_rules out now))))),
       dg_issues = map snd (found (diagnostic_rules out now)) \<rparr>"
    by (simp only: build_diagnostics_rules add_rules_found prod.case foldl_max set_map append_Nil)
  moreover have "severity_text x = ''ok'' \<longleftrightarrow> x = Sev_ok" for x by (cases x) simp_all
  moreover have "fst ` set fs \<subseteq> {Sev_ok} \<longleftrightarrow> fs = []" if "Sev_ok \<notin> fst ` set fs" for fs :: "(severity \<times> string) list"
    using that by (cases fs) auto
  ultimately show ?thesis
    using no_ok_rules [of out now] by (simp add: severity_bot)
qed

subsection \<open>An agent that cannot be reached\<close>

text \<open>
  The record has runtime data exactly when the agent was reached, so the branch of
  \<^verbatim>\<open>buildSupportability\<close> for an unreachable agent with runtime data is never taken: when the
  diagnostics are critical because nothing answers, the health class is only degraded.
\<close>

lemma with_agent_runtime:
  "ta_runtime (to_agent out) = None \<Longrightarrow>
     ta_reachable (to_agent (with_agent r out)) \<longleftrightarrow> ta_runtime (to_agent (with_agent r out)) \<noteq> None"
  by (auto simp: with_agent_def Let_def split: sum.splits option.splits)

lemma unreachable_degraded:
  assumes "\<not> ta_reachable (to_agent out)" and "ta_runtime (to_agent out) = None"
  shows "su_health_class (build_supportability out now) = ''degraded''"
    and "dg_severity (build_diagnostics out now) = ''critical''"
  using assms by (simp_all add: build_supportability_def build_diagnostics_def healthy_def)

text \<open>For every capacity a configuration can have, the queue counts as full above four fifths.\<close>

lemma queue_limit_exact: "0 \<le> c \<Longrightarrow> c < 2 ^ 48 \<Longrightarrow> queue_limit c = 4 * c div 5"
  by (simp add: queue_limit_def four_fifths)

end
