(* ===== verification/Cli_Main.thy ===== *)
theory Cli_Main
  imports Cli_Status
begin

text \<open>
  The command switch (\<^verbatim>\<open>main\<close> in \<^verbatim>\<open>client/cmd/actionrelay/main.go\<close>): the first argument selects the
  command, its error becomes the exit status. \<open>Printed\<close> is what the command has for the standard
  output: a text, or the record \<^verbatim>\<open>status\<close> prints. The usage text and the error line are left out.
\<close>

datatype printed = Quiet | Printed_text string | Printed_status status_output

definition printing :: "('a \<Rightarrow> printed) \<Rightarrow> 'a io \<Rightarrow> printed io" where
  "printing f m = and_then m (\<lambda>x h. (Inr (f x), h))"

definition run_command_line ::
  "(serving \<Rightarrow> host \<Rightarrow> unit io) \<Rightarrow> outside_world \<Rightarrow> (api_request \<Rightarrow> (int \<times> string res) res) \<Rightarrow>
   string \<Rightarrow> string list \<Rightarrow> host \<Rightarrow> printed io" where
  "run_command_line listen w send cmd args h =
     (if cmd = ''init'' then printing (\<lambda>_. Quiet) (run_init args h)
      else if cmd = ''route'' then printing (\<lambda>_. Quiet) (run_route args h)
      else if cmd = ''serve'' then printing (\<lambda>_. Quiet) (run_serve listen w args h)
      else if cmd = ''proxy'' then printing Printed_text (run_proxy args h)
      else if cmd = ''status'' then printing Printed_status (run_status send args h)
      else if cmd = ''fetch'' then printing Printed_text (run_fetch send args, h)
      else (Inl (Err (''unknown command '' @ go_quote cmd)), h))"

text \<open>The exit status; \<open>os_args\<close> is \<^verbatim>\<open>os.Args\<close> without the name of the program.\<close>

definition main_exit ::
  "(serving \<Rightarrow> host \<Rightarrow> unit io) \<Rightarrow> outside_world \<Rightarrow> (api_request \<Rightarrow> (int \<times> string res) res) \<Rightarrow>
   string list \<Rightarrow> host \<Rightarrow> nat \<times> printed \<times> host" where
  "main_exit listen w send os_args h =
     (case os_args of
        [] \<Rightarrow> (2, Quiet, h)
      | cmd # args \<Rightarrow>
          (case run_command_line listen w send cmd args h of
             (Inl e, h) \<Rightarrow> (1, Quiet, h) | (Inr out, h) \<Rightarrow> (0, out, h)))"

end
