(* ===== verification/Cli_Scenario.thy ===== *)
theory Cli_Scenario
  imports Cli_Lifecycle Cli_Report Cli_Diagnosis Cli_Main Agent_Scenario Dispatcher_Scenario Proxy_Scenario
begin

text \<open>
  Concrete runs of the commands: \<^verbatim>\<open>init\<close> on a fresh host, the start of \<^verbatim>\<open>serve\<close> and the cycle of the
  route state after it, and a \<^verbatim>\<open>fetch\<close> that the agent rejects.
\<close>

subsection \<open>A host on which init has run\<close>

definition init_args :: "string list" where
  "init_args = [''--repo'', '' o/r'', ''--workflow'', ''relay.yml'', ''--config'', ''/r/c.json'']"

definition init_opts :: init_options where
  "init_opts = default_init_options\<lparr> io_repo := '' o/r'', io_workflow := ''relay.yml'', io_config := ''/r/c.json'' \<rparr>"

definition cli_host :: host where
  "cli_host = sample_host\<lparr> h_env := [''ACTIONRELAY_GITHUB_TOKEN'' \<mapsto> ''t''],
     h_clock := (\<lambda>_. 63902908800000000000) \<rparr>"

definition cli_host1 :: host where
  "cli_host1 = cli_host\<lparr> h_ops := 2, h_files := [''/r/c.json'' \<mapsto>
     json_indent (marshal_struct config_members (normalize_config sample_config)) @ [CHR 0x0A]] \<rparr>"

lemma init_parsed: "parse_flags init_flags init_args default_init_options = Inr (init_opts, [])"
  by code_simp

lemma init_sample: "init_config init_opts = sample_config"
  by (simp add: init_config_def init_opts_def sample_config_def default_config_def default_init_options_def)

lemma init_done: "run_init init_args cli_host = (Inr (), cli_host1)"
proof -
  have v: "validate_config sample_config = None" "validate_config (normalize_config sample_config) = None"
    using sample_config_valid(1) normalize_idem(2) [OF sample_config_valid(1)] by (simp_all add: validate_config_lemma)
  have "resolve_path ''/r/c.json'' cli_host = Inr ''/r/c.json''" by (simp add: resolve_path_def)
  with v show ?thesis
    by (simp add: run_init_def init_parsed init_sample config_save_def Let_def mkdir_all_def write_file_def next_fault_def
        cli_host1_def cli_host_def sample_host_def) (simp add: init_opts_def fun_upd_def)
qed

lemma cli_route_path: "route_state_path ''/r/c.json'' cli_host1 = Inr ''/r/route-state.json''"
proof -
  have "path_join [path_dir ''/r/c.json'', ''route-state.json''] = ''/r/route-state.json''" by code_simp
  then show ?thesis by (simp add: route_state_path_def resolve_path_def)
qed

lemma cli_route_view: "route_view ''/r/route-state.json'' cli_host1 default_state"
proof -
  have "''/r/route-state.json'' \<noteq> ''/r/c.json''" by simp
  then show ?thesis
    by (simp add: route_view_def Go_Os.quiet_def clock_in_range_def cli_host1_def cli_host_def sample_host_def
        max_time_def day_ns_def)
qed

definition sample_world :: outside_world where
  "sample_world = \<lparr> ow_clock = sample_clock, ow_entropy = sample_entropy, ow_server_clock = int,
     ow_net = (\<lambda>_. Inl (Err ''no route to host'')), ow_ctx = (\<lambda>_. None), ow_http_date = (\<lambda>_. None) \<rparr>"

lemma sample_world_time: "world_time_passes sample_world"
proof -
  have "\<forall>m \<ge> nat (t + 1). t < int m" for t by auto
  then show ?thesis unfolding world_time_passes_def by (simp add: sample_world_def) blast
qed

theorem init_serves_witness:
  "\<exists>sv h2 w1 ad. serve_start sample_world [''--config'', ''/r/c.json''] cli_host1 = (Inr sv, h2) \<and>
     sv_listen_addr sv = ''127.0.0.1:8787'' \<and>
     serve_all (\<lambda>_. write_header 301) (submit_alone process_batch) [(routed_get, 0)] (sv_agent sv, sv_dispatcher sv) = ([w1], ad) \<and>
     served_properly (\<lambda>_. write_header 301) (routed_get, 0) w1"
proof -
  have c: "io_config init_opts = ''/r/c.json''" "io_token_env init_opts = ''ACTIONRELAY_GITHUB_TOKEN''"
    by (simp_all add: init_opts_def default_init_options_def)
  have "trim_space ''t'' \<noteq> []" by code_simp
  then have "trim_space (getenv (trim_space (io_token_env init_opts)) cli_host1) \<noteq> []"
    by (simp add: c sample_trims getenv_def env_key_def cli_host1_def cli_host_def sample_host_def)
  from init_serves [OF init_done init_parsed _ _ cli_route_view this sample_world_time, of "\<lambda>_. write_header 301" "[(routed_get, 0)]"]
  obtain sv h2 ws ad where "serve_start sample_world [''--config'', ''/r/c.json''] cli_host1 = (Inr sv, h2)"
    "sv_listen_addr sv = ''127.0.0.1:8787''"
    "serve_all (\<lambda>_. write_header 301) (submit_alone process_batch) [(routed_get, 0)] (sv_agent sv, sv_dispatcher sv) = (ws, ad)"
    "list_all2 (served_properly (\<lambda>_. write_header 301)) [(routed_get, 0)] ws"
    using sample_config_valid(2) cli_route_path by (auto simp: init_sample c)
  then show ?thesis by (auto simp: list_all2_Cons1)
qed

text \<open>A session that was interrupted and closed.\<close>

definition closed_session :: "serving \<Rightarrow> session" where
  "closed_session sv = (session_start sv)\<lparr> se_done := True, se_api := open_listener\<lparr> ln_open := False, ln_shut := True \<rparr>,
     se_closer := Closer_api, se_result := Some None, se_exited := True \<rparr>"

theorem route_life_cycle_witness:
  "\<exists>h1 h2 h3 r s1 s2 s3.
    run_route_install (install_args ''/r/c.json'') cli_host1 = (Inr (), h1) \<and>
    run_serve (session_listen closed_session) sample_world [''--config'', ''/r/c.json''] h1 = (r, h2) \<and>
    run_route_uninstall (install_args ''/r/c.json'') h2 = (Inr (), h3) \<and> holds_route ''/r/route-state.json'' h3 s3 \<and>
    route_phases ''127.0.0.1:8787'' s1 s2 s3"
proof -
  have q: "Go_Os.quiet cli_host1" using cli_route_view by (simp add: route_view_def)
  have c: "io_config init_opts = ''/r/c.json''" by (simp add: init_opts_def)
  have l: "config_load ''/r/c.json'' cli_host1 = (Inr (normalize_config sample_config), cli_host1\<lparr> h_ops := Suc (h_ops cli_host1) \<rparr>)"
    using init_written [OF init_done init_parsed _ q] sample_config_valid(2) by (simp add: init_sample c)
  have r: "resolve_path ''/r/c.json'' cli_host1 = Inr ''/r/c.json''" by (simp add: resolve_path_def)
  have a: "cf_agent_listen_addr (normalize_config sample_config) = ''127.0.0.1:8787''"
    by (simp add: normalize_config_def sample_config_def default_config_def sample_trims)
  have u: "utf8_fix ''127.0.0.1:8787'' = ''127.0.0.1:8787''" by code_simp
  have n: "''/r/c.json'' \<noteq> ''/r/route-state.json''" by simp
  from route_life_cycle [OF cli_route_view cli_route_path r n l _ session_keeps_route, of closed_session sample_world] u
  show ?thesis unfolding a by blast
qed

subsection \<open>A fetch that is rejected\<close>

definition local_args :: "string list" where
  "local_args = [''--header'', ''X-A: 1'', ''http://localhost/'']"

definition local_opts :: fetch_options where
  "local_opts = default_fetch_options\<lparr> fo_headers := [(''X-A'', ''1'')] \<rparr>"

definition local_rejection :: request_result where
  "local_rejection = \<lparr> rr_request_id = ''req-616161616161616161616161'', rr_ok = False, rr_response = None,
     rr_error = Some \<lparr> re_code = ''REQUEST_BLOCKED'', re_message = ''localhost destinations are blocked'' \<rparr> \<rparr>"

lemma local_submit:
  "\<exists>s. submit_alone process_batch (fetch_submission local_opts ''http://localhost/'') (sample_agent, sample_dispatcher) =
     (Inr local_rejection, s)"
proof -
  let ?q = "fetch_submission local_opts ''http://localhost/''"
  let ?i = "''req-616161616161616161616161''"
  have "hex_encode (replicate 12 (CHR ''a'')) = ''616161616161616161616161''" by code_simp
  then have i: "new_id ''req'' sample_agent = (?i, sample_agent\<lparr> ag_draws := 1 \<rparr>)"
    by (simp add: new_id_def sample_agent_def sample_entropy_def)
  have "map_option (\<lambda>f. (ce_code f, ce_message f)) (classify_request ((normalize_request ?q)\<lparr> ri_request_id := ?i \<rparr>) 0 1024) =
      Some (''REQUEST_BLOCKED'', ''localhost destinations are blocked'')" by code_simp
  then obtain f where f: "classify_request ((normalize_request ?q)\<lparr> ri_request_id := ?i \<rparr>) 0 1024 = Some f"
    "ce_code f = ''REQUEST_BLOCKED''" "ce_message f = ''localhost destinations are blocked''" by auto
  have "sr_body ?q = []" by code_simp
  moreover have "error_result ?i ''REQUEST_BLOCKED'' ''localhost destinations are blocked'' = local_rejection" by code_simp
  ultimately have "fst (submit_begin ?q sample_agent) = Inl local_rejection"
    by (simp add: submit_begin_def i Let_def sample_fields f)
  then obtain a where "submit_begin ?q sample_agent = (Inl local_rejection, a)" by (metis prod.collapse)
  then show ?thesis unfolding submit_alone_def by (simp only: prod.case sum.case) blast
qed

theorem fetch_shows_result_witness:
  "run_fetch (api_exchange (\<lambda>_. write_header 301) (submit_alone process_batch) ''/r/s.json''
      ((sample_agent, sample_dispatcher), cli_host1)) local_args =
     Inr (json_indent (result_json local_rejection) @ [CHR 0x0A])"
proof -
  have p: "parse_flags fetch_flags local_args default_fetch_options = Inr (local_opts, [''http://localhost/''])" by code_simp
  have "case url_parse (trim_slashes (fo_agent local_opts) @ ''/v1/requests'') of
      Inl _ \<Rightarrow> False | Inr u \<Rightarrow> api_url ''/v1/requests'' u" by code_simp
  then obtain u where u: "url_parse (trim_slashes (fo_agent local_opts) @ ''/v1/requests'') = Inr u" "api_url ''/v1/requests'' u"
    by (auto split: sum.splits)
  have "length (json_text (fetch_payload local_opts ''http://localhost/'')) \<le> 200"
    "length (json_text (result_json local_rejection)) \<le> 200" by code_simp+
  then have l: "length (json_text (fetch_payload local_opts ''http://localhost/'')) \<le> api_body_limit"
    "length (json_text (result_json local_rejection)) < api_body_limit" by (simp_all add: api_body_limit_def)
  have "clean_text (fo_method local_opts)" "clean_text ''http://localhost/''" "clean_map (fo_headers local_opts)"
    by code_simp+
  with l(1) have c: "clean_fetch local_opts ''http://localhost/''" by (simp add: clean_fetch_def)
  have r: "clean_result local_rejection" by code_simp
  from local_submit obtain s where
    "submit_alone process_batch (fetch_submission local_opts ''http://localhost/'') (sample_agent, sample_dispatcher) =
      (Inr local_rejection, s)" by blast
  from fetch_shows_result [of local_args local_opts "''http://localhost/''" u "submit_alone process_batch"
      "(sample_agent, sample_dispatcher)", OF p u c this r l(2)] show ?thesis .
qed

end
