(* ===== verification/Spec2Isabelle.thy ===== *)
theory Spec2Isabelle
  imports Agent_Theorems Agent_Steps Dispatcher_Scenario Route_State Platform_Theorems Proxy_Scenario Cli_Scenario
begin

text \<open>
  The ActionRelay client (Go, \<^verbatim>\<open>src/client\<close>) as a shallow embedding. ActionRelay relays HTTP
  requests through a GitHub Actions workflow: a local client submits a request, the agent
  collects requests into batches, the dispatcher posts a batch as a workflow dispatch and
  downloads the result package the workflow leaves, and the agent hands each caller its result.

  \<^bold>\<open>The parts and how they interact.\<close> All paths are below \<^verbatim>\<open>src/client\<close>.
  \<^item> \<^verbatim>\<open>internal/protocol\<close>: the envelopes \<^verbatim>\<open>RequestBatch\<close> and \<^verbatim>\<open>ResultPackage\<close> that travel between the
    client and the workflow, and their three validators.
  \<^item> \<^verbatim>\<open>internal/agent\<close>: \<^verbatim>\<open>Submit\<close> is called by any number of goroutines. It classifies a request
    (\<^verbatim>\<open>classifyRequest\<close>), answers the inadmissible ones, and queues the others. \<^verbatim>\<open>Run\<close> is one
    goroutine: on a tick it picks a chunk, merges equal requests into units, serves what the cache
    holds, sends the rest to its \<^verbatim>\<open>BatchDispatcher\<close> and answers every caller of the chunk.
  \<^item> \<^verbatim>\<open>internal/githubapi\<close>: the \<^verbatim>\<open>BatchDispatcher\<close> of the running client.
  \<^item> \<^verbatim>\<open>internal/proxy\<close>: the local HTTP proxy, which turns the requests of other programs into
    calls of \<^verbatim>\<open>Submit\<close> (its interface \<^verbatim>\<open>requestSubmitter\<close>) and results into responses.
  \<^item> \<^verbatim>\<open>internal/config\<close>, \<^verbatim>\<open>internal/route\<close>, \<^verbatim>\<open>internal/proxyplatform\<close>: the configuration file, the
    route state file, and the proxy settings of the operating system.
  \<^item> \<^verbatim>\<open>cmd/actionrelay\<close>: the commands. \<^verbatim>\<open>init\<close> writes the configuration; \<^verbatim>\<open>route\<close> and \<^verbatim>\<open>proxy\<close> change
    the route state and the platform; \<^verbatim>\<open>serve\<close> builds dispatcher, agent and proxy, and offers the
    local API; \<^verbatim>\<open>fetch\<close> and \<^verbatim>\<open>status\<close> are clients of that API.

  \<^bold>\<open>Theories.\<close> A Go string is the list of its bytes; a Go error is its text with what the
  client tests of it; a fallible result is a sum with the error on the left; an operation on the
  machine is a function on the record \<open>host\<close> returning a result and the new host. Structs are
  records under the field names of the source with a prefix; a map of Go is an association list.
  \<^item> Relay_Prelude: errors, results, maps, the collections \<open>relay_simps\<close> and the rules for
    \<open>and_then\<close> and \<open>or_wrap\<close> (the \<^verbatim>\<open>if err != nil\<close> of the source).
  \<^item> Go_Strings, Go_Encoding, Go_Net, Go_Url, Url_Authority, Go_Time, Go_Json, Go_Plain,
    Go_Struct, Go_Os, Go_Flag, Go_Float: what the client uses of the standard library, as
    executable definitions. Go_Struct has the locale \<open>struct_file\<close> (a record that is read back from
    its JSON text), with interpretations for the route state, the configuration, the platform
    state and the agent's snapshot.
  \<^item> Protocol, Protocol_Json: \<^verbatim>\<open>types.go\<close> and \<^verbatim>\<open>validate.go\<close>, and the decoder of result packages.
  \<^item> Agent_Classify, Agent_Redact, Agent_State, Agent_Cache, Agent_Batch, Agent_Dispatch,
    Agent_System, Agent_Theorems, Agent_Steps, Agent_Sizes, Agent_Scenario: \<^verbatim>\<open>agent.go\<close>, in the order
    of its operations. The segments of \<^verbatim>\<open>Run\<close> and \<^verbatim>\<open>Submit\<close> between two points where they wait are
    functions on the record \<open>agent\<close>; \<open>sys_step\<close> interleaves them freely, with any outcome of the
    dispatcher. The locale \<open>result_cache\<close> (Agent_Cache) states what a cache owes its users.
  \<^item> Github_Dispatcher, Dispatcher_Theorems, Dispatcher_Scenario: \<^verbatim>\<open>dispatcher.go\<close>. The locale
    \<open>batch_processor\<close> states what the agent expects of a dispatcher; the model of \<^verbatim>\<open>ProcessBatch\<close> is
    its interpretation.
  \<^item> Http_Mux: \<^verbatim>\<open>http.ServeMux\<close> for the patterns the client registers, with the canonical paths that it does
    not redirect. The reply of a redirection is a parameter, as its status depends on the release of Go.
  \<^item> Proxy_Server, Proxy_Theorems, Proxy_Handler, Proxy_Relay, Proxy_Scenario: \<^verbatim>\<open>server.go\<close>. The locale
    \<open>request_submitter\<close> states what the proxy expects of an agent; every \<open>batch_processor\<close> gives
    one (a \<^verbatim>\<open>sublocale\<close>), and the model of the agent over \<^verbatim>\<open>ProcessBatch\<close> is its interpretation.
  \<^item> Client_Config, Route_State, Proxy_Platform, Platform_Theorems: \<^verbatim>\<open>config.go\<close>, \<^verbatim>\<open>state.go\<close>,
    \<^verbatim>\<open>platform.go\<close>.
  \<^item> Cli_Setup (\<^verbatim>\<open>init\<close>, \<^verbatim>\<open>route\<close>, \<^verbatim>\<open>proxy\<close>), Cli_Main (the command switch), Cli_Serve (the start of
    \<^verbatim>\<open>serve\<close> and the handlers), Cli_Session (its listeners and its end, as the step relation
    \<open>session_step\<close>), Cli_Api (the handlers behind their \<^verbatim>\<open>ServeMux\<close>), Cli_Fetch,
    Cli_Status: \<^verbatim>\<open>main.go\<close>. Cli_Lifecycle, Cli_Local, Cli_Report and Cli_Diagnosis state how the commands work together, Cli_Scenario runs them.

  \<^bold>\<open>What is shown.\<close>
  \<^item> The agent at every reachable state (Agent_Theorems): each accepted request is held exactly
    once or was answered exactly once, by a result of its own; the agent refines a book of
    outstanding requests; what is in flight is valid, within its limits and admitted; the queue and
    the cache are bounded; the counters account for the answers. While \<^verbatim>\<open>Run\<close> ticks, everything
    queued is answered; after it has returned, nothing is.
  \<^item> The agent's operations (Agent_Classify to Agent_Steps): the classification against a
    declarative list of conditions and of address networks, the chunk and unit laws, one dispatch,
    the cache contract, redaction, backpressure, \<^verbatim>\<open>New\<close>.
  \<^item> The dispatcher: it returns while time passes, starts at most one run per batch, talks to
    GitHub over https only, posts a payload that decodes to the batch, and returns packages that
    are valid and of that batch.
  \<^item> The proxy: one response per request, at most one submission, no hop-by-hop or credential
    header passed on, and what of this a \<^verbatim>\<open>ServeMux\<close> in front of it lets through; over the
    agent over the dispatcher every client is answered.
  \<^item> Files and platform: what is saved is what is loaded; uninstalling restores the environment,
    and a failed installation leaves it as it was.
  \<^item> The commands: a configuration written by \<^verbatim>\<open>init\<close> starts \<^verbatim>\<open>serve\<close>; \<^verbatim>\<open>route install\<close>, \<^verbatim>\<open>serve\<close> and
    \<^verbatim>\<open>route uninstall\<close> take the route state through its cycle; \<^verbatim>\<open>serve\<close> returns without an error
    only after both listeners were told to shut down; the diagnostics are a table of conditions;
    a request printed by \<^verbatim>\<open>fetch\<close> is the one the API submits, and the result comes back whole.
  Several lemmas show where the code does not do what its documentation or its structure intends:
  the dead stale-if-error path, the size measured one byte short, requests left in the queue of a
  stopped agent, requests cut off at the end of \<^verbatim>\<open>serve\<close>, CONNECT requests that never reach
  their handler, a second proxy installation that forgets the original settings, and others.

  \<^bold>\<open>Bounds and fuel.\<close> The JSON reader recurses on fuel that starts above the length of the text;
  \<open>value_fuel\<close> shows that more fuel changes nothing. The three polling loops of the dispatcher are
  partial functions into \<open>option\<close>, where \<open>None\<close> is a loop that never ends; \<open>process_batch_returns\<close>
  shows that they end whenever the clock passes every instant. Every other loop is structural
  recursion or has a termination proof. Counters of type \<^verbatim>\<open>uint64\<close> and shifts are words; sizes,
  durations and instants are integers, with the conversions of the source (saturation,
  truncation) written out where a value of the model can reach them; the quotients of
  \<^verbatim>\<open>buildSupportability\<close> are rounded as \<^verbatim>\<open>float64\<close> rounds them.

  \<^bold>\<open>Parameters and assumptions.\<close> The instants \<^verbatim>\<open>time.Now\<close> returns, random bytes, HTTP replies,
  \<^verbatim>\<open>http.ParseTime\<close>, the outcome of file operations and of commands are data of the model, over
  which the theorems quantify. Two hypotheses recur: the clock passes every instant (needed for
  loops with a deadline to end), and the host is quiet, that is its file operations succeed
  (needed for what was saved to be read back).

  \<^bold>\<open>Not modelled.\<close> The worker (\<^verbatim>\<open>src/worker/run-batch.mjs\<close>, another language in another process: the
  theorems quantify over what it returns); workflows, schemas and scripts; log lines, usage texts and confirmation lines; the printing of the status
  record as JSON, which would need the decimal form of a \<^verbatim>\<open>float64\<close>. The client timeouts of 60 and
  90 seconds are errors among the outcomes of an exchange. In the composition of proxy, agent and
  dispatcher one client is served after the other, while the theorems about the agent alone hold
  for any number of concurrent callers. The mutexes of the source guard the segments that the
  model makes atomic and do not appear themselves.
\<close>

end
